(* ===== verification/Prelude.thy ===== *)
theory Prelude
  imports Main "HOL-Library.Word" "HOL-Library.Monad_Syntax"
begin

unbundle bit_operations_syntax

text \<open>
  Shared vocabulary of the development: machine integers, bytes in memory, byte order,
  C strings and the generic list and word lemmas the component theories use.

  The target is little-endian (the Android ABIs the native library is built for), so a
  16- or 32-bit load takes its least significant byte from the lowest address. A buffer is
  a byte list; a read outside it is \<open>None\<close>, so a definition in the option monad returns
  \<open>None\<close> exactly when the C code would read outside the buffer it was given.
\<close>

section \<open>Machine integers\<close>

type_synonym byte = "8 word"
type_synonym u8 = "8 word"
type_synonym u16 = "16 word"
type_synonym u32 = "32 word"
type_synonym u64 = "64 word"

named_theorems mem_simps "unfolding of memory accessors"
named_theorems inv_intros "introduction rules of component invariants"
named_theorems wire_simps "byte-level layout of records written to a buffer"

lemma unat_lt:
  "unat (a :: u8) < 256" "unat (b :: u16) < 65536" "unat (c :: u32) < 4294967296"
  using unsigned_less [of a, where ?'a = nat] unsigned_less [of b, where ?'a = nat]
    unsigned_less [of c, where ?'a = nat] by simp_all

lemma unat_of_nat_small:
  "m < 256 \<Longrightarrow> unat (of_nat m :: u8) = m"
  "n < 65536 \<Longrightarrow> unat (of_nat n :: u16) = n"
  "k < 4294967296 \<Longrightarrow> unat (of_nat k :: u32) = k"
  by (simp_all add: unat_of_nat)

lemma unat_diff_nowrap: "b \<le> a \<Longrightarrow> unat (a - b) = unat a - unat (b :: 'l::len word)"
  by (rule unat_sub)

section \<open>Byte order\<close>

definition le16 :: "byte \<Rightarrow> byte \<Rightarrow> u16" where
  "le16 b0 b1 = ucast b0 OR push_bit 8 (ucast b1)"

definition le32 :: "byte \<Rightarrow> byte \<Rightarrow> byte \<Rightarrow> byte \<Rightarrow> u32" where
  "le32 b0 b1 b2 b3 =
     ucast b0 OR push_bit 8 (ucast b1) OR push_bit 16 (ucast b2) OR push_bit 24 (ucast b3)"

definition bswap16 :: "u16 \<Rightarrow> u16" where
  "bswap16 w = push_bit 8 w OR drop_bit 8 w"

definition bswap32 :: "u32 \<Rightarrow> u32" where
  "bswap32 w = drop_bit 24 w OR (drop_bit 8 w AND 0x0000FF00)
     OR (push_bit 8 w AND 0x00FF0000) OR push_bit 24 w"

text \<open>On a little-endian host the network conversions swap bytes, in both directions.\<close>

abbreviation ntohs :: "u16 \<Rightarrow> u16" where "ntohs \<equiv> bswap16"
abbreviation htons :: "u16 \<Rightarrow> u16" where "htons \<equiv> bswap16"
abbreviation ntohl :: "u32 \<Rightarrow> u32" where "ntohl \<equiv> bswap32"
abbreviation htonl :: "u32 \<Rightarrow> u32" where "htonl \<equiv> bswap32"

definition put16 :: "u16 \<Rightarrow> byte list" where
  "put16 w = [ucast w, ucast (drop_bit 8 w)]"

definition put32 :: "u32 \<Rightarrow> byte list" where
  "put32 w = [ucast w, ucast (drop_bit 8 w), ucast (drop_bit 16 w), ucast (drop_bit 24 w)]"

definition put64 :: "u64 \<Rightarrow> byte list" where
  "put64 w = put32 (ucast w) @ put32 (ucast (drop_bit 32 w))"

lemma length_put [simp, wire_simps]:
  "length (put16 a) = 2" "length (put32 b) = 4" "length (put64 c) = 8"
  by (simp_all add: put16_def put32_def put64_def)

lemma bswap16_bswap16 [simp]: "bswap16 (bswap16 w) = w"
  unfolding bswap16_def by (intro bit_word_eqI) (auto simp: bit_simps)

lemma bswap16_eq_iff [simp]: "bswap16 a = bswap16 b \<longleftrightarrow> a = b"
  by (metis bswap16_bswap16)

lemma bswap32_bswap32 [simp]: "bswap32 (bswap32 w) = w"
proof (rule bit_word_eqI)
  fix n assume "n < LENGTH(32)"
  then consider "n < 8" | "8 \<le> n" "n < 16" | "16 \<le> n" "n < 24" | "24 \<le> n" "n < 32"
    by fastforce
  moreover have m: "(0x0000FF00 :: u32) = push_bit 8 (mask 8)" "(0x00FF0000 :: u32) = push_bit 16 (mask 8)"
    by (simp_all add: mask_eq_exp_minus_1)
  ultimately show "bit (bswap32 (bswap32 w)) n = bit w n"
    unfolding bswap32_def m by cases (auto simp: bit_simps dest: bit_imp_le_length)
qed

lemma le16_put16: "le16 (ucast w) (ucast (drop_bit 8 w)) = w"
  unfolding le16_def by (intro bit_word_eqI) (auto simp: bit_simps)

lemma le32_put32:
  "le32 (ucast w) (ucast (drop_bit 8 w)) (ucast (drop_bit 16 w)) (ucast (drop_bit 24 w)) = w"
proof (rule bit_word_eqI)
  fix n assume "n < LENGTH(32)"
  then consider "n < 8" | "8 \<le> n" "n < 16" | "16 \<le> n" "n < 24" | "24 \<le> n" "n < 32"
    by fastforce
  then show "bit (le32 (ucast w) (ucast (drop_bit 8 w)) (ucast (drop_bit 16 w))
      (ucast (drop_bit 24 w))) n = bit w n"
    by cases (auto simp: le32_def bit_simps)
qed

lemma byte_bit_beyond: "8 \<le> n \<Longrightarrow> \<not> bit (x :: byte) n"
  by (auto dest: bit_imp_le_length)

lemma le32_byte0: "ucast (le32 x0 x1 x2 x3) = x0"
  unfolding le32_def by (intro bit_word_eqI) (simp add: bit_simps byte_bit_beyond)

lemma le32_byte1: "ucast (drop_bit 8 (le32 x0 x1 x2 x3)) = x1"
  unfolding le32_def by (intro bit_word_eqI) (simp add: bit_simps byte_bit_beyond)

lemma le32_byte2: "ucast (drop_bit 16 (le32 x0 x1 x2 x3)) = x2"
  unfolding le32_def by (intro bit_word_eqI) (simp add: bit_simps byte_bit_beyond)

lemma le32_byte3: "ucast (drop_bit 24 (le32 x0 x1 x2 x3)) = x3"
  unfolding le32_def by (intro bit_word_eqI) (simp add: bit_simps byte_bit_beyond)

lemma le32_inj:
  "le32 a0 a1 a2 a3 = le32 b0 b1 b2 b3 \<Longrightarrow> [a0, a1, a2, a3] = [b0, b1, b2, b3]"
  by (metis le32_byte0 le32_byte1 le32_byte2 le32_byte3)

section \<open>Reads from a buffer\<close>

definition rd8 :: "byte list \<Rightarrow> nat \<Rightarrow> byte option" where
  "rd8 b i = (if i < length b then Some (b ! i) else None)"

definition rd16 :: "byte list \<Rightarrow> nat \<Rightarrow> u16 option" where
  "rd16 b i = do { x0 \<leftarrow> rd8 b i; x1 \<leftarrow> rd8 b (i + 1); Some (le16 x0 x1) }"

definition rd32 :: "byte list \<Rightarrow> nat \<Rightarrow> u32 option" where
  "rd32 b i = do { x0 \<leftarrow> rd8 b i; x1 \<leftarrow> rd8 b (i + 1); x2 \<leftarrow> rd8 b (i + 2); x3 \<leftarrow> rd8 b (i + 3);
                   Some (le32 x0 x1 x2 x3) }"

definition rd128 :: "byte list \<Rightarrow> nat \<Rightarrow> 128 word option" where
  "rd128 b i = do { w0 \<leftarrow> rd32 b i; w1 \<leftarrow> rd32 b (i + 4); w2 \<leftarrow> rd32 b (i + 8);
                    w3 \<leftarrow> rd32 b (i + 12);
                    Some (ucast w0 OR push_bit 32 (ucast w1) OR push_bit 64 (ucast w2)
                          OR push_bit 96 (ucast w3)) }"

lemma rd8_in [simp]: "i < length b \<Longrightarrow> rd8 b i = Some (b ! i)"
  by (simp add: rd8_def)

lemma rd8_eq_None [simp]: "rd8 b i = None \<longleftrightarrow> length b \<le> i"
  by (auto simp: rd8_def)

lemma rd16_eq_None [simp]: "rd16 b i = None \<longleftrightarrow> length b \<le> i + 1"
  by (auto simp: rd16_def rd8_def)

lemma rd32_eq_None [simp]: "rd32 b i = None \<longleftrightarrow> length b \<le> i + 3"
  by (auto simp: rd32_def rd8_def)

lemma rd128_eq_None [simp]: "rd128 b i = None \<longleftrightarrow> length b \<le> i + 15"
  by (auto simp: rd128_def rd32_def rd8_def)

text \<open>A bounded read succeeds: the form the safety proofs use.\<close>

lemma rd_in_range:
  "i < length b \<Longrightarrow> \<exists>x. rd8 b i = Some x"
  "i + 1 < length b \<Longrightarrow> \<exists>y. rd16 b i = Some y"
  "i + 3 < length b \<Longrightarrow> \<exists>z. rd32 b i = Some z"
  "i + 15 < length b \<Longrightarrow> \<exists>v. rd128 b i = Some v"
  by (simp_all flip: not_None_eq)

text \<open>
  A computation in the option monad stays inside its buffers; the rules below reduce this to
  arithmetic on the offsets of its reads.
\<close>

definition in_bounds :: "'a option \<Rightarrow> bool" where
  "in_bounds x \<longleftrightarrow> x \<noteq> None"

lemma in_bounds_simps [simp, mem_simps]:
  "in_bounds (Some x)"
  "\<not> in_bounds None"
  "in_bounds (rd8 b i) \<longleftrightarrow> i < length b"
  "in_bounds (rd16 b i) \<longleftrightarrow> i + 1 < length b"
  "in_bounds (rd32 b i) \<longleftrightarrow> i + 3 < length b"
  "in_bounds (rd128 b i) \<longleftrightarrow> i + 15 < length b"
  by (auto simp: in_bounds_def simp del: not_None_eq)

lemma in_bounds_bind [simp, mem_simps]:
  "in_bounds (x \<bind> f) \<longleftrightarrow> in_bounds x \<and> (\<forall>v. x = Some v \<longrightarrow> in_bounds (f v))"
  by (cases x) (auto simp: in_bounds_def)

lemma in_bounds_if [mem_simps]:
  "in_bounds (if c then x else y) \<longleftrightarrow> (c \<longrightarrow> in_bounds x) \<and> (\<not> c \<longrightarrow> in_bounds y)"
  by simp

text \<open>Reading back what was written.\<close>

lemma rd8_append: "rd8 (a @ b) (length a + i) = rd8 b i"
  by (auto simp: rd8_def nth_append)

lemma rd16_put16 [wire_simps]: "rd16 (a @ put16 w @ b) (length a) = Some w"
  by (simp add: rd16_def put16_def rd8_def nth_append le16_put16)

lemma rd32_put32 [wire_simps]: "rd32 (a @ put32 w @ b) (length a) = Some w"
  by (simp add: rd32_def put32_def rd8_def nth_append le32_put32)

section \<open>Writes to a buffer\<close>

definition wr :: "byte list \<Rightarrow> nat \<Rightarrow> byte list \<Rightarrow> byte list option" where
  "wr b i bs = (if i + length bs \<le> length b then Some (take i b @ bs @ drop (i + length bs) b) else None)"

lemma in_bounds_wr [simp, mem_simps]: "in_bounds (wr b i bs) \<longleftrightarrow> i + length bs \<le> length b"
  by (simp add: wr_def in_bounds_def)

lemma wr_SomeD: "wr b i bs = Some b' \<Longrightarrow> length b' = length b \<and> i + length bs \<le> length b"
  by (auto simp: wr_def split: if_splits)

lemma wr_append: "length bs \<le> length c \<Longrightarrow> wr (a @ c) (length a) bs = Some (a @ bs @ drop (length bs) c)"
  by (simp add: wr_def)

section \<open>Padding\<close>

text \<open>
  \<open>(~n + 1) & 0x3\<close>, the number of zero bytes that bring \<open>n\<close> to a multiple of four
  (used for PCAPNG options, packet data and the PCAPdroid trailer).
\<close>

definition pad4 :: "nat \<Rightarrow> nat" where
  "pad4 n = unat ((NOT (of_nat n :: u32) + 1) AND 3)"

lemma pad4_int: "int (pad4 n) = (- int n) mod 4"
proof -
  have "(3 :: u32) = mask 2" by (simp add: mask_eq_exp_minus_1)
  then have "pad4 n = unat (take_bit 2 (- (of_nat n :: u32)))"
    by (simp add: pad4_def minus_eq_not_plus_1 take_bit_eq_mask)
  moreover have "- (of_nat n :: u32) = word_of_int (- int n)" by simp
  ultimately have "int (pad4 n) = uint (take_bit 2 (word_of_int (- int n) :: u32))"
    by (simp only: uint_nat)
  also have "\<dots> = ((- int n) mod 2 ^ 32) mod 2 ^ 2"
    by (subst unsigned_take_bit_eq, subst uint_word_of_int) (simp add: take_bit_eq_mod)
  also have "\<dots> = (- int n) mod 4"
    by (simp add: mod_mod_cancel)
  finally show ?thesis .
qed

lemma pad4_lt: "pad4 n < 4"
  using pad4_int [of n] pos_mod_bound [of 4 "- int n"] by linarith

lemma pad4_dvd: "4 dvd n + pad4 n"
proof -
  have "(int n + (- int n) mod 4) mod 4 = 0" by (simp add: mod_add_right_eq)
  then have "4 dvd int (n + pad4 n)" by (simp add: pad4_int dvd_eq_mod_eq_0)
  then show ?thesis by (metis int_dvd_int_iff of_nat_numeral)
qed

lemma pad4_least: "4 dvd n + k \<Longrightarrow> pad4 n \<le> k"
  using pad4_dvd [of n] pad4_lt [of n]
  by (metis add_le_cancel_left dvd_minus_self le_add_diff_inverse less_or_eq_imp_le
      linorder_not_less nat_dvd_not_less diff_add_inverse diff_diff_left dvd_diff_nat
      add_diff_cancel_left zero_less_diff less_imp_diff_less)

lemma pad4_eq: "pad4 n = (4 - n mod 4) mod 4"
proof -
  define r where "r = n mod 4"
  have "(r + pad4 n) mod 4 = 0" using pad4_dvd [of n] by (simp add: r_def mod_add_left_eq)
  moreover have "r = 0 \<or> r = 1 \<or> r = 2 \<or> r = 3" unfolding r_def by linarith
  moreover have "pad4 n = 0 \<or> pad4 n = 1 \<or> pad4 n = 2 \<or> pad4 n = 3"
    using pad4_lt [of n] by linarith
  ultimately have "pad4 n = (4 - r) mod 4" by (elim disjE) simp_all
  then show ?thesis by (simp add: r_def)
qed

section \<open>Machines that may fail\<close>

text \<open>
  \<open>run_steps\<close> feeds a list of events to a step function that may fail (\<open>None\<close>). In a \<open>safe_machine\<close>
  every good event succeeds where the invariant holds and keeps it, and so does every run of them.
\<close>

fun run_steps :: "('e \<Rightarrow> 's \<Rightarrow> 's option) \<Rightarrow> 'e list \<Rightarrow> 's \<Rightarrow> 's option" where
  "run_steps step [] s = Some s"
| "run_steps step (e # es) s = Option.bind (step e s) (run_steps step es)"

lemma run_steps_keeps:
  assumes "run_steps step es s = Some s'" "P s"
    and "\<And>e s s'. e \<in> set es \<Longrightarrow> P s \<Longrightarrow> step e s = Some s' \<Longrightarrow> P s'"
  shows "P s'"
  using assms
proof (induction es arbitrary: s)
  case (Cons e es)
  then obtain s1 where s1: "step e s = Some s1" "run_steps step es s1 = Some s'" by (auto simp: bind_eq_Some_conv)
  have "P s1" using Cons.prems(3) [of e s s1] Cons.prems(2) s1(1) by simp
  then show ?case using Cons.IH [OF s1(2)] Cons.prems(3) by (metis list.set_intros(2))
qed simp

locale safe_machine =
  fixes invar :: "'s \<Rightarrow> bool" and good :: "'e \<Rightarrow> bool" and step :: "'e \<Rightarrow> 's \<Rightarrow> 's option"
  assumes step_ok: "invar s \<Longrightarrow> good e \<Longrightarrow> \<exists>s'. step e s = Some s' \<and> invar s'"
begin

lemma run_ok: "invar s \<Longrightarrow> \<forall>e \<in> set es. good e \<Longrightarrow> \<exists>s'. run_steps step es s = Some s' \<and> invar s'"
proof (induction es arbitrary: s)
  case (Cons e es)
  from step_ok [OF Cons.prems(1), of e] Cons.prems(2) obtain s' where "step e s = Some s'" "invar s'" by auto
  with Cons.IH [of s'] Cons.prems(2) show ?case by simp
qed simp

lemma step_invar: "invar s \<Longrightarrow> good e \<Longrightarrow> step e s = Some s' \<Longrightarrow> invar s'"
  using step_ok [of s e] by auto

end

end
