(* ===== verification/Crc32.thy ===== *)
theory Crc32
  imports Crc32_Table
begin

unbundle bit_operations_syntax

text \<open>
  The slicing-by-4 CRC-32 of \<^verbatim>\<open>core/crc32.c\<close>, used for the frame check sequence of the
  PCAPdroid trailer. The table-driven routine is proved equal to the bit-serial definition
  of CRC-32 (reflected polynomial \<open>0xEDB88320\<close>): every table entry is checked, and the
  four-bytes-at-once step follows from the linearity of the shift register over XOR.
\<close>

section \<open>The routine of the source\<close>

definition crc_tbl :: "nat \<Rightarrow> u32 \<Rightarrow> u32" where
  "crc_tbl k i = Crc32Lookup ! k ! unat i"

text \<open>The standard byte-wise loop, for the remaining one to three bytes.\<close>

fun crc32_tail :: "byte list \<Rightarrow> u32 \<Rightarrow> u32" where
  "crc32_tail [] crc = crc"
| "crc32_tail (b # bs) crc =
     crc32_tail bs (drop_bit 8 crc XOR crc_tbl 0 ((crc AND 0xFF) XOR ucast b))"

text \<open>The main loop: four bytes at once, little-endian branch.\<close>

fun crc32_loop :: "byte list \<Rightarrow> u32 \<Rightarrow> u32" where
  "crc32_loop (b0 # b1 # b2 # b3 # rest) crc =
     (let one = le32 b0 b1 b2 b3 XOR crc in
      crc32_loop rest
        (crc_tbl 0 (drop_bit 24 one AND 0xFF) XOR crc_tbl 1 (drop_bit 16 one AND 0xFF) XOR
         crc_tbl 2 (drop_bit 8 one AND 0xFF) XOR crc_tbl 3 (one AND 0xFF)))"
| "crc32_loop rest crc = crc32_tail rest crc"

definition crc32 :: "byte list \<Rightarrow> u32 \<Rightarrow> u32" where
  "crc32 data crc = NOT (crc32_loop data (NOT crc))"

section \<open>The bit-serial reference\<close>

definition crc_bit :: "u32 \<Rightarrow> u32" where
  "crc_bit c = (if bit c 0 then drop_bit 1 c XOR 0xEDB88320 else drop_bit 1 c)"

fun crc_bits :: "nat \<Rightarrow> u32 \<Rightarrow> u32" where
  "crc_bits 0 c = c"
| "crc_bits (Suc n) c = crc_bits n (crc_bit c)"

fun crc32_serial :: "byte list \<Rightarrow> u32 \<Rightarrow> u32" where
  "crc32_serial [] c = c"
| "crc32_serial (b # bs) c = crc32_serial bs (crc_bits 8 (c XOR ucast b))"

definition crc32_spec :: "byte list \<Rightarrow> u32 \<Rightarrow> u32" where
  "crc32_spec data crc = NOT (crc32_serial data (NOT crc))"

section \<open>The shift register is linear and injective\<close>

lemma crc_bit_xor: "crc_bit (a XOR b) = crc_bit a XOR crc_bit b"
  unfolding crc_bit_def by (intro bit_word_eqI) (auto simp: bit_simps)

lemma crc_bits_xor: "crc_bits n (a XOR b) = crc_bits n a XOR crc_bits n b"
  by (induction n arbitrary: a b) (simp_all add: crc_bit_xor)

lemma crc_bits_0 [simp]: "crc_bits n 0 = 0"
  using crc_bits_xor [of n 0 0] by simp

lemma crc_bits_add: "crc_bits (m + n) c = crc_bits n (crc_bits m c)"
  by (induction m arbitrary: c) simp_all

lemma crc_bits_shift:
  assumes "\<And>i. i < n \<Longrightarrow> \<not> bit c i"
  shows "crc_bits n c = drop_bit n c"
  using assms
proof (induction n arbitrary: c)
  case (Suc n)
  have "crc_bit c = drop_bit 1 c" using Suc.prems [of 0] by (simp add: crc_bit_def)
  moreover have "crc_bits n (drop_bit 1 c) = drop_bit n (drop_bit 1 c)"
    by (rule Suc.IH) (use Suc.prems in \<open>simp add: bit_simps\<close>)
  ultimately show ?case by (simp add: drop_bit_drop_bit)
qed simp

lemma crc_bit_inj: "crc_bit a = 0 \<Longrightarrow> a = 0"
proof -
  assume z: "crc_bit a = 0"
  have nb: "\<not> bit a 0"
  proof
    assume "bit a 0"
    then have "bit (crc_bit a) 31" by (auto simp: crc_bit_def bit_simps dest: bit_imp_le_length)
    with z show False by simp
  qed
  with z have d: "drop_bit 1 a = 0" by (simp add: crc_bit_def)
  show "a = 0"
  proof (rule bit_word_eqI)
    fix n assume "n < LENGTH(32)"
    show "bit a n = bit 0 n"
    proof (cases n)
      case (Suc m)
      have "bit (drop_bit 1 a) m = bit a n" using Suc by (simp add: bit_simps)
      with d show ?thesis by simp
    qed (use nb in simp)
  qed
qed

lemma crc_bits_inj: "crc_bits n a = crc_bits n b \<longleftrightarrow> a = b"
proof
  assume "crc_bits n a = crc_bits n b"
  then have "crc_bits n (a XOR b) = 0" by (simp add: crc_bits_xor)
  moreover have "crc_bits n c = 0 \<Longrightarrow> c = 0" for c
    by (induction n arbitrary: c) (auto dest: crc_bit_inj)
  ultimately have "a XOR b = 0" by blast
  then show "a = b" by (simp add: xor_self_eq bit_eq_iff bit_simps)
qed simp

section \<open>Every table entry is right\<close>

text \<open>
  A row is the XOR span of its entries at the powers of two, and so is any linear function
  on bytes; so it is enough to compute eight entries of a row bit by bit.
\<close>

fun xor_span :: "u32 list \<Rightarrow> u32 list" where
  "xor_span [] = [0]"
| "xor_span (b # bs) = (let xs = xor_span bs in xs @ map (\<lambda>x. x XOR b) xs)"

lemma of_nat_add_exp:
  assumes "i < 2 ^ n" and "n < 32"
  shows "of_nat (i + 2 ^ n) = (of_nat i :: u32) XOR of_nat (2 ^ n)"
proof -
  have bi: "bit i j \<Longrightarrow> j < n" for j
    using assms(1) by (metis bit_take_bit_iff take_bit_nat_eq_self)
  have "(of_nat i :: u32) AND of_nat (2 ^ n) = 0"
    by (rule bit_word_eqI) (auto simp: bit_simps dest: bi)
  then have "(of_nat i :: u32) + of_nat (2 ^ n) = of_nat i OR of_nat (2 ^ n)"
    by (simp add: disjunctive_add_eq_or)
  also have "\<dots> = of_nat i XOR of_nat (2 ^ n)"
    by (rule bit_word_eqI) (auto simp: bit_simps dest: bi)
  finally show ?thesis by simp
qed

lemma upt_double: "[0..<m + m] = [0..<m] @ map (\<lambda>i. i + m) [0..<m]" for m :: nat
  using upt_add_eq_append [of 0 m m] map_add_upt [of m m] by simp

lemma xor_span_linear:
  assumes "n \<le> 32"
  shows "xor_span (map (\<lambda>j. crc_bits m (of_nat (2 ^ j))) (rev [0..<n])) =
         map (\<lambda>i. crc_bits m (of_nat i)) [0..<2 ^ n]"
  using assms
proof (induction n)
  case (Suc n)
  let ?f = "\<lambda>i. crc_bits m (of_nat i)" and ?b = "crc_bits m (of_nat (2 ^ n))"
  have "xor_span (map (\<lambda>j. crc_bits m (of_nat (2 ^ j))) (rev [0..<Suc n])) =
      map ?f [0..<2 ^ n] @ map (\<lambda>i. ?f i XOR ?b) [0..<2 ^ n]"
    using Suc by (simp add: Let_def del: of_nat_power)
  also have "map (\<lambda>i. ?f i XOR ?b) [0..<2 ^ n] = map ?f (map (\<lambda>i. i + 2 ^ n) [0..<2 ^ n])"
    using Suc.prems by (simp add: of_nat_add_exp crc_bits_xor del: of_nat_add of_nat_power)
  also have "map ?f [0..<2 ^ n] @ \<dots> = map ?f [0..<2 ^ n + 2 ^ n]"
    by (simp only: upt_double map_append)
  also have "(2 :: nat) ^ n + 2 ^ n = 2 ^ Suc n" by simp
  finally show ?case .
qed simp

lemma crc_bits_numeral: "crc_bits (numeral k) c = crc_bits (pred_numeral k) (crc_bit c)"
  by (simp add: numeral_eq_Suc)

definition crc_row :: "nat \<Rightarrow> u32 list" where
  "crc_row m = xor_span [crc_bits m 128, crc_bits m 64, crc_bits m 32, crc_bits m 16,
                         crc_bits m 8, crc_bits m 4, crc_bits m 2, crc_bits m 1]"

lemma crc_row_eq: "crc_row m = map (\<lambda>i. crc_bits m (of_nat i)) [0..<256]"
proof -
  have "rev [0..<8] = [7, 6, 5, 4, 3, 2, 1, 0 :: nat]" by (simp add: upt_rec)
  with xor_span_linear [of 8 m] show ?thesis by (simp add: crc_row_def)
qed

lemmas crc_row_simps = crc_row_def crc_bits_numeral crc_bit_def Let_def

lemma Crc32Lookup0_row: "Crc32Lookup0 = crc_row 8"
  by (simp add: Crc32Lookup0_def crc_row_simps)

lemma Crc32Lookup1_row: "Crc32Lookup1 = crc_row 16"
  by (simp add: Crc32Lookup1_def crc_row_simps)

lemma Crc32Lookup2_row: "Crc32Lookup2 = crc_row 24"
  by (simp add: Crc32Lookup2_def crc_row_simps)

lemma Crc32Lookup3_row: "Crc32Lookup3 = crc_row 32"
  by (simp add: Crc32Lookup3_def crc_row_simps)

lemma crc_tbl_eq:
  assumes "k < 4" and "unat i < 256"
  shows "crc_tbl k i = crc_bits (8 * (k + 1)) i"
proof -
  have "Crc32Lookup ! k = crc_row (8 * (k + 1))"
    using assms(1) by (auto simp: Crc32Lookup_def Crc32Lookup0_row Crc32Lookup1_row
        Crc32Lookup2_row Crc32Lookup3_row less_Suc_eq numeral_eq_Suc)
  then show ?thesis using assms(2) by (simp add: crc_tbl_def crc_row_eq del: mult_Suc_right)
qed

section \<open>Equivalence with the reference\<close>

lemma mask_255: "(0xFF :: u32) = mask 8"
  by (simp add: mask_eq_exp_minus_1)

lemma unat_and_255: "unat (w AND 0xFF :: u32) < 256"
  using word_and_le1 [of w "0xFF"] by (simp add: word_le_nat_alt)

lemma crc_byte_step:
  "drop_bit 8 c XOR crc_tbl 0 ((c AND 0xFF) XOR ucast b) = crc_bits 8 (c XOR ucast (b :: byte))"
proof -
  have eq: "(c AND 0xFF) XOR ucast b = (c XOR ucast b) AND 0xFF" (is "?l = ?r")
    unfolding mask_255 by (intro bit_word_eqI) (auto simp: bit_simps dest: bit_imp_le_length)
  have "crc_tbl 0 ?l = crc_bits 8 ?l"
    using crc_tbl_eq [of 0 ?l] unat_and_255 by (simp add: eq)
  moreover have "drop_bit 8 c = crc_bits 8 (c XOR (c AND 0xFF))"
  proof -
    have "crc_bits 8 (c XOR (c AND 0xFF)) = drop_bit 8 (c XOR (c AND 0xFF))"
      by (rule crc_bits_shift) (simp add: mask_255 bit_simps)
    also have "\<dots> = drop_bit 8 c"
      unfolding mask_255 by (intro bit_word_eqI) (auto simp: bit_simps)
    finally show ?thesis by simp
  qed
  ultimately show ?thesis by (simp add: ac_simps flip: crc_bits_xor)
qed

lemma crc32_tail_serial: "crc32_tail data c = crc32_serial data c"
  by (induction data arbitrary: c) (simp_all add: crc_byte_step)

text \<open>
  Feeding \<open>n\<close> bytes is shifting the register \<open>8 n\<close> times after XOR-ing the bytes in at their
  little-endian positions; the four table rows compute the four shifted bytes of the result.
\<close>

lemma crc_bits_push:
  "n + 8 \<le> 32 \<Longrightarrow> crc_bits n (push_bit n (ucast (b :: byte))) = (ucast b :: u32)"
proof -
  assume "n + 8 \<le> 32"
  then have "drop_bit n (push_bit n (ucast b :: u32)) = ucast b"
    by (intro bit_word_eqI) (auto simp: bit_simps dest: bit_imp_le_length)
  then show ?thesis by (subst crc_bits_shift) (auto simp: bit_simps)
qed

lemma crc32_serial_4:
  "crc32_serial [b0, b1, b2, b3] c = crc_bits 32 (le32 b0 b1 b2 b3 XOR c)"
proof -
  have or_xor: "le32 b0 b1 b2 b3 = ucast b0 XOR push_bit 8 (ucast b1) XOR
      push_bit 16 (ucast b2) XOR push_bit 24 (ucast b3)"
    unfolding le32_def by (intro bit_word_eqI) (auto simp: bit_simps dest: bit_imp_le_length)
  have 1: "crc_bits 8 (push_bit 8 (ucast b1) :: u32) = ucast b1"
    and 2: "crc_bits 16 (push_bit 16 (ucast b2) :: u32) = ucast b2"
    and 3: "crc_bits 24 (push_bit 24 (ucast b3) :: u32) = ucast b3"
    by (simp_all add: crc_bits_push)
  have s: "crc_bits 32 x = crc_bits 8 (crc_bits 24 x)"
    "crc_bits 24 x = crc_bits 8 (crc_bits 16 x)" "crc_bits 16 x = crc_bits 8 (crc_bits 8 x)" for x
    by (simp_all flip: crc_bits_add)
  have "crc_bits 32 (le32 b0 b1 b2 b3 XOR c) =
      crc_bits 32 (ucast b0 XOR c) XOR crc_bits 24 (ucast b1) XOR
      crc_bits 16 (ucast b2) XOR crc_bits 8 (ucast b3)"
    using 1 2 3 by (simp add: or_xor crc_bits_xor ac_simps s)
  also have "\<dots> = crc32_serial [b0, b1, b2, b3] c"
    by (simp add: crc_bits_xor ac_simps s)
  finally show ?thesis by simp
qed

lemma crc_word_step:
  "crc_tbl 0 (drop_bit 24 w AND 0xFF) XOR crc_tbl 1 (drop_bit 16 w AND 0xFF) XOR
   crc_tbl 2 (drop_bit 8 w AND 0xFF) XOR crc_tbl 3 (w AND 0xFF) = crc_bits 32 w"
proof -
  define b where "b j = (ucast (drop_bit j w) :: byte)" for j
  have bj: "drop_bit j w AND 0xFF = ucast (b j)" for j
    unfolding b_def mask_255 by (intro bit_word_eqI) (auto simp: bit_simps)
  have "le32 (b 0) (b 8) (b 16) (b 24) = w"
    using le32_put32 [of w] by (simp add: b_def)
  then have "crc_bits 32 w = crc32_serial [b 0, b 8, b 16, b 24] 0"
    by (simp only: crc32_serial_4 xor.right_neutral)
  also have "\<dots> = crc_bits 32 (ucast (b 0)) XOR crc_bits 24 (ucast (b 8)) XOR
      crc_bits 16 (ucast (b 16)) XOR crc_bits 8 (ucast (b 24))"
    by (simp add: crc_bits_xor xor.assoc flip: crc_bits_add)
  finally have c: "crc_bits 32 w = \<dots>" .
  have "crc_tbl k (ucast (b j)) = crc_bits (8 * (k + 1)) (ucast (b j))" if "k < 4" for k j
    using crc_tbl_eq [of k "ucast (b j)"] that unat_and_255 [of "drop_bit j w"] by (simp add: bj)
  from this [of 0] this [of 1] this [of 2] this [of 3] show ?thesis
    unfolding c using bj [of 0] by (simp add: bj ac_simps)
qed

lemma crc32_serial_append: "crc32_serial (a @ b) c = crc32_serial b (crc32_serial a c)"
  by (induction a arbitrary: c) simp_all

lemma crc32_loop_serial: "crc32_loop data c = crc32_serial data c"
proof (induction data c rule: crc32_loop.induct)
  case (1 b0 b1 b2 b3 rest crc)
  then show ?case
    using crc32_serial_4 [of b0 b1 b2 b3 crc] crc32_serial_append [of "[b0, b1, b2, b3]" rest crc]
    by (simp only: crc32_loop.simps Let_def crc_word_step append.simps)
qed (simp_all add: crc32_tail_serial)

lemma xor_cancel: "a XOR c = b XOR c \<longleftrightarrow> a = (b :: u32)"
  by (auto simp: bit_eq_iff bit_simps)

lemma crc32_serial_inj: "crc32_serial data c = crc32_serial data d \<longleftrightarrow> c = d"
  by (induction data arbitrary: c d) (simp_all add: crc_bits_inj xor_cancel)

lemma crc32_eq_serial: "crc32 data crc = NOT (crc32_serial data (NOT crc))"
  by (simp add: crc32_def crc32_loop_serial)

section \<open>Properties\<close>

text \<open>
  C9: the slicing-by-4 routine of crc32.c computes CRC-32 on every input and for every
  starting value: it agrees with the bit-serial shift register over the reflected polynomial
  0xEDB88320, for data of any length (the four-byte loop and the byte tail included).
\<close>

theorem crc32_correct: "crc32 data crc = crc32_spec data crc"
  by (simp add: crc32_eq_serial crc32_spec_def)

text \<open>
  C17: a previously calculated CRC can be passed as the starting value to extend it over new
  data, as the comment of crc32 says, although the slicing splits the data at other places.
\<close>

theorem crc32_extend: "crc32 (a @ b) crc = crc32 b (crc32 a crc)"
  by (simp add: crc32_eq_serial crc32_serial_append)

text \<open>
  C18: the frame check sequence detects every corruption confined to four consecutive bytes,
  wherever they are in the data.
\<close>

theorem crc32_detects_burst:
  assumes "[a0, a1, a2, a3] \<noteq> [b0, b1, b2, b3]"
  shows "crc32 (xs @ [a0, a1, a2, a3] @ ys) crc \<noteq> crc32 (xs @ [b0, b1, b2, b3] @ ys) crc"
proof
  assume "crc32 (xs @ [a0, a1, a2, a3] @ ys) crc = crc32 (xs @ [b0, b1, b2, b3] @ ys) crc"
  then have "crc32_serial [a0, a1, a2, a3] (crc32_serial xs (NOT crc)) =
      crc32_serial [b0, b1, b2, b3] (crc32_serial xs (NOT crc))"
    by (simp only: crc32_eq_serial crc32_serial_append crc32_serial_inj bit.compl_eq_compl_iff)
  then have "le32 a0 a1 a2 a3 = le32 b0 b1 b2 b3"
    by (simp only: crc32_serial_4 crc_bits_inj xor_cancel)
  with assms show False using le32_inj by blast
qed

theorem crc32_detects_burst_witness:
  "crc32 ([1] @ [2, 3, 4, 5] @ [6]) 0 \<noteq> crc32 ([1] @ [2, 3, 4, 7] @ [6]) 0"
  by (rule crc32_detects_burst) simp

end
