(* ===== verification/Zdtun_Pkt.thy ===== *)
theory Zdtun_Pkt
  imports Prelude
begin

unbundle bit_operations_syntax

text \<open>
  The packet vocabulary of zdtun (\<^verbatim>\<open>submodules/zdtun/zdtun.h\<close>) and its packet parser
  \<open>zdtun_parse_pkt\<close>, which every capture path runs on untrusted bytes. Ports and addresses
  are kept in network byte order, as loaded by the little-endian host.

  The parser is in the option monad: \<open>None\<close> is a read outside the packet buffer. The
  return code is \<open>Inl rv\<close> for a negative \<open>rv\<close> and \<open>Inr (pkt, id2ports)\<close> for success.
\<close>

section \<open>Types and constants\<close>

text \<open>The union \<open>zdtun_ip_t\<close>: 16 bytes, \<open>ip4\<close> its first four (the low bits, little-endian).\<close>

type_synonym zdtun_ip = "128 word"

definition ip4 :: "zdtun_ip \<Rightarrow> u32" where
  "ip4 a = ucast a"

text \<open>Assigning \<open>ip4\<close> in a zeroed union.\<close>

definition of_ip4 :: "u32 \<Rightarrow> zdtun_ip" where
  "of_ip4 a = ucast a"

record zdtun_5tuple =
  src_ip :: zdtun_ip
  dst_ip :: zdtun_ip
  src_port :: u16
  dst_port :: u16
  ipver :: u8
  ipproto :: u8

record zdtun_pkt =
  p_tuple :: zdtun_5tuple
  p_flags :: u8
  p_len :: u16
  p_ip_hdr_len :: u16
  p_l4_hdr_len :: u16
  p_l7_len :: u16
  p_buf :: "byte list"

datatype zdtun_conn_status =
    CONN_STATUS_NEW | CONN_STATUS_CONNECTING | CONN_STATUS_CONNECTED | CONN_STATUS_CLOSED
  | CONN_STATUS_ERROR | CONN_STATUS_SOCKET_ERROR | CONN_STATUS_CLIENT_ERROR
  | CONN_STATUS_RESET | CONN_STATUS_UNREACHABLE | CONN_STATUS_SOCKS5_ERROR

text \<open>The enumeration's numbering, on which the code compares (\<open>status >= CONN_STATUS_CLOSED\<close>).\<close>

fun status_num :: "zdtun_conn_status \<Rightarrow> nat" where
  "status_num CONN_STATUS_NEW = 0"
| "status_num CONN_STATUS_CONNECTING = 1"
| "status_num CONN_STATUS_CONNECTED = 2"
| "status_num CONN_STATUS_CLOSED = 3"
| "status_num CONN_STATUS_ERROR = 4"
| "status_num CONN_STATUS_SOCKET_ERROR = 5"
| "status_num CONN_STATUS_CLIENT_ERROR = 6"
| "status_num CONN_STATUS_RESET = 7"
| "status_num CONN_STATUS_UNREACHABLE = 8"
| "status_num CONN_STATUS_SOCKS5_ERROR = 9"

lemma status_num_inj [simp]: "status_num a = status_num b \<longleftrightarrow> a = b"
  by (cases a; cases b) simp_all

instantiation zdtun_conn_status :: linorder
begin

definition less_eq_zdtun_conn_status :: "zdtun_conn_status \<Rightarrow> zdtun_conn_status \<Rightarrow> bool" where
  "less_eq_zdtun_conn_status a b \<longleftrightarrow> status_num a \<le> status_num b"

definition less_zdtun_conn_status :: "zdtun_conn_status \<Rightarrow> zdtun_conn_status \<Rightarrow> bool" where
  "less_zdtun_conn_status a b \<longleftrightarrow> status_num a < status_num b"

instance
  by standard
    (auto simp: less_eq_zdtun_conn_status_def less_zdtun_conn_status_def)

end

lemmas status_order [simp] = less_eq_zdtun_conn_status_def less_zdtun_conn_status_def

abbreviation closed :: "zdtun_conn_status \<Rightarrow> bool" where
  "closed s \<equiv> CONN_STATUS_CLOSED \<le> s"

abbreviation IPPROTO_ICMP :: u8 where "IPPROTO_ICMP \<equiv> 1"
abbreviation IPPROTO_TCP :: u8 where "IPPROTO_TCP \<equiv> 6"
abbreviation IPPROTO_UDP :: u8 where "IPPROTO_UDP \<equiv> 17"
abbreviation IPPROTO_ICMPV6 :: u8 where "IPPROTO_ICMPV6 \<equiv> 58"

definition zdtun_proto2str :: "u8 \<Rightarrow> string" where
  "zdtun_proto2str proto =
     (if proto = IPPROTO_TCP then ''TCP'' else if proto = IPPROTO_UDP then ''UDP''
      else if proto = IPPROTO_ICMP then ''ICMP'' else ''Unknown'')"

abbreviation ZDTUN_PKT_IS_FRAGMENT :: u8 where "ZDTUN_PKT_IS_FRAGMENT \<equiv> 1"
abbreviation ZDTUN_PKT_IS_FIRST_FRAGMENT :: u8 where "ZDTUN_PKT_IS_FIRST_FRAGMENT \<equiv> 2"

definition has_flag :: "u8 \<Rightarrow> u8 \<Rightarrow> bool" where
  "has_flag flags f \<longleftrightarrow> flags AND f \<noteq> 0"

text \<open>\<open>tupleSwapPeers\<close> of \<^verbatim>\<open>common/utils.c\<close>.\<close>

definition tupleSwapPeers :: "zdtun_5tuple \<Rightarrow> zdtun_5tuple" where
  "tupleSwapPeers t = t\<lparr>src_ip := dst_ip t, dst_ip := src_ip t,
                       src_port := dst_port t, dst_port := src_port t\<rparr>"

lemma tupleSwapPeers_twice [simp]: "tupleSwapPeers (tupleSwapPeers t) = t"
  by (simp add: tupleSwapPeers_def)

lemma tupleSwapPeers_fields [simp]:
  "ipver (tupleSwapPeers t) = ipver t" "ipproto (tupleSwapPeers t) = ipproto t"
  by (simp_all add: tupleSwapPeers_def)

section \<open>The parser\<close>

text \<open>Ports of the first fragment by IP identification (\<open>id2ports[65536]\<close>).\<close>

type_synonym id2ports = "u16 \<Rightarrow> u16 \<times> u16"

text \<open>What the IP header yields; \<open>h_len\<close> is \<open>pkt_len\<close> after non-IP data is excluded.\<close>

record l3_hdr =
  h_src :: zdtun_ip
  h_dst :: zdtun_ip
  h_proto :: u8
  h_len :: nat
  h_hlen :: nat
  h_flags :: u8
  h_id :: u16
  h_frag :: u16

definition is_upper_layer :: "u8 \<Rightarrow> bool" where
  "is_upper_layer p \<longleftrightarrow> p = IPPROTO_TCP \<or> p = IPPROTO_UDP \<or> p = IPPROTO_ICMP \<or> p = IPPROTO_ICMPV6"

definition parse_ipv4 :: "byte list \<Rightarrow> nat \<Rightarrow> (int + l3_hdr) option" where
  "parse_ipv4 b pkt_len = do {
     b0 \<leftarrow> rd8 b 0;
     let iphdr_len = unat (b0 AND 0x0F) * 4;
     if pkt_len < iphdr_len then Some (Inl (-1)) else do {
       raw_len \<leftarrow> rd16 b 2;
       let tot_len = unat (ntohs raw_len);
       if tot_len < iphdr_len then Some (Inl (-1)) else do {
         saddr \<leftarrow> rd32 b 12;
         daddr \<leftarrow> rd32 b 16;
         proto \<leftarrow> rd8 b 9;
         frag_off \<leftarrow> rd16 b 6;
         ident \<leftarrow> rd16 b 4;
         let flags = (if frag_off AND htons 0x1FFF \<noteq> 0 then ZDTUN_PKT_IS_FRAGMENT
                      else if frag_off AND htons 0x2000 \<noteq> 0
                      then ZDTUN_PKT_IS_FRAGMENT OR ZDTUN_PKT_IS_FIRST_FRAGMENT
                      else 0);
         Some (Inr \<lparr>h_src = of_ip4 saddr, h_dst = of_ip4 daddr, h_proto = proto,
                    h_len = min pkt_len tot_len, h_hlen = iphdr_len, h_flags = flags,
                    h_id = ident, h_frag = frag_off\<rparr>) } } }"

definition parse_ipv6 :: "byte list \<Rightarrow> nat \<Rightarrow> (int + l3_hdr) option" where
  "parse_ipv6 b pkt_len =
     (if pkt_len < 40 then Some (Inl (-1)) else do {
        nexthdr \<leftarrow> rd8 b 6;
        if \<not> is_upper_layer nexthdr then Some (Inl (-1)) else do {
          raw_len \<leftarrow> rd16 b 4;
          let payload_len = unat (ntohs raw_len);
          saddr \<leftarrow> rd128 b 8;
          daddr \<leftarrow> rd128 b 24;
          Some (Inr \<lparr>h_src = saddr, h_dst = daddr,
                     h_proto = (if nexthdr \<noteq> IPPROTO_ICMPV6 then nexthdr else IPPROTO_ICMP),
                     h_len = min pkt_len (payload_len + 40), h_hlen = 40, h_flags = 0,
                     h_id = 0, h_frag = 0\<rparr>) } })"

text \<open>
  The L4 header of an unfragmented packet or of a first fragment: source port (or echo id),
  destination port, header length.
\<close>

definition is_echo_type :: "u8 \<Rightarrow> bool" where
  "is_echo_type ty \<longleftrightarrow> ty = 8 \<or> ty = 0 \<or> ty = 128 \<or> ty = 129"

definition parse_l4 :: "byte list \<Rightarrow> l3_hdr \<Rightarrow> (int + u16 \<times> u16 \<times> nat) option" where
  "parse_l4 b h =
     (if h_proto h = IPPROTO_TCP then
        (if h_len h < h_hlen h + 20 then Some (Inl (-1)) else do {
           off \<leftarrow> rd8 b (h_hlen h + 12);
           let tcp_header_len = unat (drop_bit 4 off) * 4;
           if h_len h < h_hlen h + tcp_header_len then Some (Inl (-1)) else do {
             sport \<leftarrow> rd16 b (h_hlen h);
             dport \<leftarrow> rd16 b (h_hlen h + 2);
             Some (Inr (sport, dport, tcp_header_len)) } })
      else if h_proto h = IPPROTO_UDP then
        (if h_len h < h_hlen h + 8 then Some (Inl (-1)) else do {
           sport \<leftarrow> rd16 b (h_hlen h);
           dport \<leftarrow> rd16 b (h_hlen h + 2);
           Some (Inr (sport, dport, 8)) })
      else if h_proto h = IPPROTO_ICMP then
        (if h_len h < h_hlen h + 8 then Some (Inl (-1)) else do {
           ty \<leftarrow> rd8 b (h_hlen h);
           if \<not> is_echo_type ty then Some (Inl (-2)) else do {
             echo_id \<leftarrow> rd16 b (h_hlen h + 4);
             Some (Inr (if ty = 8 \<or> ty = 128 then (echo_id, 0, 8) else (0, echo_id, 8))) } })
      else Some (Inl (-3)))"

definition make_pkt :: "byte list \<Rightarrow> u8 \<Rightarrow> l3_hdr \<Rightarrow> u16 \<times> u16 \<times> nat \<Rightarrow> zdtun_pkt" where
  "make_pkt b v h l4 = (case l4 of (sport, dport, l4_hdr_len) \<Rightarrow>
     \<lparr>p_tuple = \<lparr>src_ip = h_src h, dst_ip = h_dst h, src_port = sport, dst_port = dport,
                 ipver = v, ipproto = h_proto h\<rparr>,
      p_flags = h_flags h, p_len = of_nat (h_len h), p_ip_hdr_len = of_nat (h_hlen h),
      p_l4_hdr_len = of_nat l4_hdr_len,
      p_l7_len = of_nat (h_len h) - of_nat (h_hlen h) - of_nat l4_hdr_len,
      p_buf = b\<rparr>)"

definition zdtun_parse_pkt ::
    "id2ports \<Rightarrow> byte list \<Rightarrow> u16 \<Rightarrow> (int + zdtun_pkt \<times> id2ports) option" where
  "zdtun_parse_pkt ids b pkt_len =
     (if unat pkt_len < 20 then Some (Inl (-1)) else do {
        b0 \<leftarrow> rd8 b 0;
        let v = drop_bit 4 b0;
        if v \<noteq> 4 \<and> v \<noteq> 6 then Some (Inl (-1)) else do {
          l3 \<leftarrow> (if v = 4 then parse_ipv4 b (unat pkt_len) else parse_ipv6 b (unat pkt_len));
          case l3 of
            Inl rv \<Rightarrow> Some (Inl rv)
          | Inr h \<Rightarrow>
              if has_flag (h_flags h) ZDTUN_PKT_IS_FRAGMENT \<and>
                 \<not> has_flag (h_flags h) ZDTUN_PKT_IS_FIRST_FRAGMENT
              then Some (Inr (make_pkt b v h (fst (ids (h_id h)), snd (ids (h_id h)), 0),
                              if h_frag h AND htons 0x2000 = 0 then ids(h_id h := (0, 0)) else ids))
              else do {
                l4 \<leftarrow> parse_l4 b h;
                case l4 of
                  Inl rv \<Rightarrow> Some (Inl rv)
                | Inr (sport, dport, l4_hdr_len) \<Rightarrow>
                    Some (Inr (make_pkt b v h (sport, dport, l4_hdr_len),
                               if has_flag (h_flags h) ZDTUN_PKT_IS_FIRST_FRAGMENT
                               then ids(h_id h := (sport, dport)) else ids)) } } })"

section \<open>Lemmas\<close>

lemma unat_nibble: "unat (b AND 0x0F :: u8) < 16"
  using word_and_le1 [of b "0x0F"] by (simp add: word_le_nat_alt)

definition l3_ok :: "byte list \<Rightarrow> nat \<Rightarrow> l3_hdr \<Rightarrow> bool" where
  "l3_ok b n h \<longleftrightarrow> h_hlen h \<le> h_len h \<and> h_len h \<le> n"

lemma parse_ipv4_ok:
  "parse_ipv4 b n = Some (Inr h) \<Longrightarrow> l3_ok b n h"
  by (auto simp: parse_ipv4_def l3_ok_def Let_def split: bind_splits if_splits)

lemma parse_ipv6_ok:
  "parse_ipv6 b n = Some (Inr h) \<Longrightarrow> l3_ok b n h"
  by (auto simp: parse_ipv6_def l3_ok_def Let_def split: bind_splits if_splits)

lemma parse_ipv4_safe: "20 \<le> n \<Longrightarrow> n \<le> length b \<Longrightarrow> in_bounds (parse_ipv4 b n)"
  by (auto simp: parse_ipv4_def Let_def)

lemma parse_ipv6_safe: "n \<le> length b \<Longrightarrow> in_bounds (parse_ipv6 b n)"
  by (simp add: parse_ipv6_def Let_def)

lemma parse_l4_safe: "h_len h \<le> length b \<Longrightarrow> in_bounds (parse_l4 b h)"
  by (simp add: parse_l4_def Let_def)

lemma parse_l4_ok:
  "parse_l4 b h = Some (Inr (sp, dp, l)) \<Longrightarrow>
     h_hlen h + l \<le> h_len h \<and> h_proto h \<in> {IPPROTO_TCP, IPPROTO_UDP, IPPROTO_ICMP}"
  by (auto simp: parse_l4_def Let_def split: bind_splits if_splits)


text \<open>Inversion of a successful parse: the IP header, and whether it was a later fragment.\<close>

abbreviation later_fragment :: "u8 \<Rightarrow> bool" where
  "later_fragment flags \<equiv> has_flag flags ZDTUN_PKT_IS_FRAGMENT \<and>
     \<not> has_flag flags ZDTUN_PKT_IS_FIRST_FRAGMENT"

definition parse_l3 :: "byte list \<Rightarrow> u16 \<Rightarrow> l3_hdr \<Rightarrow> bool" where
  "parse_l3 b n h \<longleftrightarrow> drop_bit 4 (b ! 0) = 4 \<and> parse_ipv4 b (unat n) = Some (Inr h) \<or>
     drop_bit 4 (b ! 0) = 6 \<and> parse_ipv6 b (unat n) = Some (Inr h)"

lemma parse_l3_ok: "parse_l3 b n h \<Longrightarrow> l3_ok b (unat n) h"
  by (auto simp: parse_l3_def intro: parse_ipv4_ok parse_ipv6_ok)

definition parse_result :: "id2ports \<Rightarrow> byte list \<Rightarrow> l3_hdr \<Rightarrow> zdtun_pkt \<Rightarrow> id2ports \<Rightarrow> bool" where
  "parse_result ids b h p ids' \<longleftrightarrow>
     (if later_fragment (h_flags h)
      then p = make_pkt b (drop_bit 4 (b ! 0)) h (fst (ids (h_id h)), snd (ids (h_id h)), 0) \<and>
           ids' = (if h_frag h AND htons 0x2000 = 0 then ids(h_id h := (0, 0)) else ids)
      else \<exists>l4. parse_l4 b h = Some (Inr l4) \<and> p = make_pkt b (drop_bit 4 (b ! 0)) h l4 \<and>
           ids' = (if has_flag (h_flags h) ZDTUN_PKT_IS_FIRST_FRAGMENT
                   then ids(h_id h := (fst l4, fst (snd l4))) else ids))"

lemma zdtun_parse_pkt_l3:
  assumes "zdtun_parse_pkt ids b n = Some (Inr (p, ids'))"
  obtains h where "parse_l3 b n h"
    and "parse_result ids b h p ids'"
proof -
  from assms obtain h where l3: "parse_l3 b n h" and n: "\<not> unat n < 20" and b: "b \<noteq> []"
    by (auto simp: zdtun_parse_pkt_def parse_l3_def Let_def rd8_def split: bind_splits if_splits sum.splits)
  with assms n b have eq: "(if later_fragment (h_flags h)
      then Some (Inr (make_pkt b (drop_bit 4 (b ! 0)) h (fst (ids (h_id h)), snd (ids (h_id h)), 0),
             if h_frag h AND htons 0x2000 = 0 then ids(h_id h := (0, 0)) else ids))
      else parse_l4 b h \<bind> (\<lambda>l4. case l4 of Inl rv \<Rightarrow> Some (Inl rv)
         | Inr (sport, dport, l4_hdr_len) \<Rightarrow>
             Some (Inr (make_pkt b (drop_bit 4 (b ! 0)) h (sport, dport, l4_hdr_len),
               if has_flag (h_flags h) ZDTUN_PKT_IS_FIRST_FRAGMENT
               then ids(h_id h := (sport, dport)) else ids)))) = Some (Inr (p, ids'))"
    unfolding zdtun_parse_pkt_def parse_l3_def Let_def rd8_def
    by (elim disjE) (simp_all split del: if_split cong: if_cong)
  show ?thesis
  proof (cases "later_fragment (h_flags h)")
    case True
    with eq show ?thesis by (intro that [OF l3]) (simp add: parse_result_def)
  next
    case False
    with eq obtain l4 where "parse_l4 b h = Some (Inr l4)"
      and "p = make_pkt b (drop_bit 4 (b ! 0)) h l4"
      and "ids' = (if has_flag (h_flags h) ZDTUN_PKT_IS_FIRST_FRAGMENT
                   then ids(h_id h := (fst l4, fst (snd l4))) else ids)"
      by (cases "parse_l4 b h") (auto split: sum.split_asm prod.split_asm)
    with False show ?thesis by (intro that [OF l3]) (auto simp: parse_result_def)
  qed
qed

lemma zdtun_parse_pkt_cases:
  assumes "zdtun_parse_pkt ids b n = Some (Inr (p, ids'))"
  obtains h l4 where "l3_ok b (unat n) h" and "p = make_pkt b (drop_bit 4 (b ! 0)) h l4"
    and "h_hlen h + snd (snd l4) \<le> h_len h"
    and "later_fragment (h_flags h) \<or> h_proto h \<in> {IPPROTO_TCP, IPPROTO_UDP, IPPROTO_ICMP}"
    and "drop_bit 4 (b ! 0) \<in> {4, 6}"
proof -
  from assms obtain h where l3: "parse_l3 b n h"
    and c: "parse_result ids b h p ids'"
    by (rule zdtun_parse_pkt_l3)
  have v: "drop_bit 4 (b ! 0) \<in> {4, 6}" using l3 by (auto simp: parse_l3_def)
  show ?thesis
  proof (cases "later_fragment (h_flags h)")
    case True
    with c parse_l3_ok [OF l3] v show ?thesis
      by (intro that [of h "(fst (ids (h_id h)), snd (ids (h_id h)), 0)"]) (auto simp: l3_ok_def parse_result_def)
  next
    case False
    with c obtain sp dp k where l4: "parse_l4 b h = Some (Inr (sp, dp, k))"
      and p: "p = make_pkt b (drop_bit 4 (b ! 0)) h (sp, dp, k)" by (auto simp: parse_result_def)
    from that [OF parse_l3_ok [OF l3] p] parse_l4_ok [OF l4] v show ?thesis by simp
  qed
qed

lemma parse_ipv4_fields:
  "parse_ipv4 b n = Some (Inr h) \<Longrightarrow> rd16 b 4 = Some (h_id h) \<and> rd16 b 6 = Some (h_frag h)"
  by (auto simp: parse_ipv4_def Let_def split: bind_splits if_splits)

lemma parse_ipv6_flags: "parse_ipv6 b n = Some (Inr h) \<Longrightarrow> h_flags h = 0"
  by (auto simp: parse_ipv6_def Let_def split: bind_splits if_splits)

lemma has_flag_0 [simp]: "\<not> has_flag 0 f"
  by (simp add: has_flag_def)

lemma fragment_fields:
  assumes "parse_l3 b n h" and "has_flag (h_flags h) f"
  shows "rd16 b 4 = Some (h_id h) \<and> rd16 b 6 = Some (h_frag h)"
  using assms by (auto simp: parse_l3_def dest: parse_ipv4_fields parse_ipv6_flags)

lemma make_pkt_fields [simp]:
  "p_flags (make_pkt b v h l4) = h_flags h"
  "src_port (p_tuple (make_pkt b v h l4)) = fst l4"
  "dst_port (p_tuple (make_pkt b v h l4)) = fst (snd l4)"
  by (simp_all add: make_pkt_def split: prod.split)

text \<open>The effect of a packet on the fragment table, for a first and for a later fragment.\<close>

lemma first_fragment_records:
  assumes "zdtun_parse_pkt ids b n = Some (Inr (p, ids'))"
    and "has_flag (p_flags p) ZDTUN_PKT_IS_FIRST_FRAGMENT"
  obtains ident where "rd16 b 4 = Some ident"
    and "ids' = ids(ident := (src_port (p_tuple p), dst_port (p_tuple p)))"
  using assms(1)
proof (rule zdtun_parse_pkt_l3)
  fix h assume l3: "parse_l3 b n h"
    and c: "parse_result ids b h p ids'"
  then have f: "has_flag (h_flags h) ZDTUN_PKT_IS_FIRST_FRAGMENT"
    using assms(2) by (auto simp: parse_result_def split: if_splits)
  with c fragment_fields [OF l3 f] show ?thesis by (intro that [of "h_id h"]) (auto simp: parse_result_def)
qed

lemma later_fragment_ports:
  assumes "zdtun_parse_pkt ids b n = Some (Inr (p, ids'))" and "later_fragment (p_flags p)"
  obtains ident frag_off where "rd16 b 4 = Some ident" and "rd16 b 6 = Some frag_off"
    and "(src_port (p_tuple p), dst_port (p_tuple p)) = ids ident"
    and "ids' = (if frag_off AND htons 0x2000 = 0 then ids(ident := (0, 0)) else ids)"
  using assms(1)
proof (rule zdtun_parse_pkt_l3)
  fix h assume l3: "parse_l3 b n h"
    and c: "parse_result ids b h p ids'"
  then have f: "later_fragment (h_flags h)"
    using assms(2) by (auto simp: parse_result_def split: if_splits)
  with c fragment_fields [OF l3, of ZDTUN_PKT_IS_FRAGMENT] show ?thesis
    by (intro that [of "h_id h" "h_frag h"]) (simp_all add: parse_result_def)
qed

lemma zdtun_parse_pkt_bounds:
  assumes "unat pkt_len \<le> length b"
  shows "zdtun_parse_pkt ids b pkt_len \<noteq> None"
proof -
  have l4: "in_bounds (parse_l4 b h)" if "l3_ok b (unat pkt_len) h" for h
    using that assms by (intro parse_l4_safe) (simp add: l3_ok_def)
  have "in_bounds (zdtun_parse_pkt ids b pkt_len)"
    unfolding zdtun_parse_pkt_def Let_def using assms l4
    by (auto simp: parse_ipv4_safe parse_ipv6_safe split: sum.split dest: parse_ipv4_ok parse_ipv6_ok)
  then show ?thesis unfolding in_bounds_def .
qed

lemma zdtun_parse_pkt_lengths:
  assumes "zdtun_parse_pkt ids b pkt_len = Some (Inr (p, ids'))"
  shows "unat (p_ip_hdr_len p) + unat (p_l4_hdr_len p) + unat (p_l7_len p) = unat (p_len p) \<and>
    p_len p \<le> pkt_len \<and> ipver (p_tuple p) \<in> {4, 6} \<and>
    (has_flag (p_flags p) ZDTUN_PKT_IS_FRAGMENT \<and>
       \<not> has_flag (p_flags p) ZDTUN_PKT_IS_FIRST_FRAGMENT \<or>
     ipproto (p_tuple p) \<in> {IPPROTO_TCP, IPPROTO_UDP, IPPROTO_ICMP})"
proof -
  from assms obtain h l4 where ok: "l3_ok b (unat pkt_len) h"
    and p: "p = make_pkt b (drop_bit 4 (b ! 0)) h l4"
    and l: "h_hlen h + snd (snd l4) \<le> h_len h"
    and rest: "has_flag (h_flags h) ZDTUN_PKT_IS_FRAGMENT \<and>
        \<not> has_flag (h_flags h) ZDTUN_PKT_IS_FIRST_FRAGMENT \<or>
        h_proto h \<in> {IPPROTO_TCP, IPPROTO_UDP, IPPROTO_ICMP}" "drop_bit 4 (b ! 0) \<in> {4, 6}"
    by (rule zdtun_parse_pkt_cases)
  obtain sp dp k where l4: "l4 = (sp, dp, k)" by (cases l4)
  have le: "h_len h \<le> unat pkt_len" "h_hlen h + k \<le> h_len h"
    using ok l by (simp_all add: l4 l3_ok_def)
  then have small: "h_len h < 65536" "h_hlen h < 65536" "k < 65536"
    using unat_lt(2) [of pkt_len] by linarith+
  have len: "unat (p_len p) = h_len h" "unat (p_ip_hdr_len p) = h_hlen h"
      "unat (p_l4_hdr_len p) = k"
    using small by (simp_all add: p l4 make_pkt_def unat_of_nat_small)
  have "unat (p_l7_len p) = h_len h - h_hlen h - k"
    using small le by (simp add: p l4 make_pkt_def word_le_nat_alt unat_diff_nowrap unat_of_nat_small)
  with le len rest show ?thesis
    by (simp add: word_le_nat_alt) (simp add: p l4 make_pkt_def)
qed

text \<open>What the users of an accepted packet rely on.\<close>

lemma zdtun_parse_pkt_buf: "zdtun_parse_pkt ids b n = Some (Inr (p, ids')) \<Longrightarrow> p_buf p = b"
  by (erule zdtun_parse_pkt_cases) (simp add: make_pkt_def split: prod.split)

lemma parse_l4_tcp: "parse_l4 b h = Some (Inr l4) \<Longrightarrow> h_proto h = IPPROTO_TCP \<Longrightarrow> h_hlen h + 20 \<le> h_len h"
  by (auto simp: parse_l4_def Let_def split: bind_splits if_splits)

lemma zdtun_parse_pkt_tcp:
  assumes "zdtun_parse_pkt ids b n = Some (Inr (p, ids'))" "ipproto (p_tuple p) = IPPROTO_TCP"
    and "\<not> has_flag (p_flags p) ZDTUN_PKT_IS_FRAGMENT"
  shows "unat (p_ip_hdr_len p) + 20 \<le> unat n"
  using assms(1)
proof (rule zdtun_parse_pkt_l3)
  fix h assume l3: "parse_l3 b n h" and c: "parse_result ids b h p ids'"
  have f: "\<not> later_fragment (h_flags h)" using c assms(3) by (auto simp: parse_result_def split: if_splits)
  then obtain l4 where l4: "parse_l4 b h = Some (Inr l4)" "p = make_pkt b (drop_bit 4 (b ! 0)) h l4"
    using c by (auto simp: parse_result_def)
  have "h_hlen h + 20 \<le> h_len h" using parse_l4_tcp [OF l4(1)] assms(2) l4(2) by (simp add: make_pkt_def split: prod.splits)
  moreover have "h_len h \<le> unat n" using parse_l3_ok [OF l3] by (simp add: l3_ok_def)
  moreover have "p_ip_hdr_len p = of_nat (h_hlen h)" using l4(2) by (simp add: make_pkt_def split: prod.split)
  ultimately show ?thesis using unat_lt(2) [of n] by (simp add: unat_of_nat_small)
qed

text \<open>With a header length field of at least five words, an accepted packet is not empty.\<close>

lemma parse_l3_pos:
  assumes "parse_l3 b n h" "drop_bit 4 (b ! 0) = 4 \<longrightarrow> 5 \<le> unat (b ! 0 AND 0x0F)"
  shows "0 < h_len h"
  using assms by (auto simp: parse_l3_def parse_ipv4_def parse_ipv6_def Let_def rd8_def split: bind_splits if_splits)

lemma zdtun_parse_pkt_pos:
  assumes "zdtun_parse_pkt ids b n = Some (Inr (p, ids'))" "drop_bit 4 (b ! 0) = 4 \<longrightarrow> 5 \<le> unat (b ! 0 AND 0x0F)"
  shows "0 < unat (p_len p)"
  using assms(1)
proof (rule zdtun_parse_pkt_l3)
  fix h assume l3: "parse_l3 b n h" and c: "parse_result ids b h p ids'"
  have "p_len p = of_nat (h_len h)" using c by (auto simp: parse_result_def make_pkt_def split: if_splits prod.splits)
  moreover have "h_len h \<le> unat n" using parse_l3_ok [OF l3] by (simp add: l3_ok_def)
  ultimately show ?thesis using parse_l3_pos [OF l3 assms(2)] unat_lt(2) [of n] by (simp add: unat_of_nat_small)
qed

section \<open>Properties\<close>

text \<open>
  C3: the parser never reads outside the packet: for every buffer and every length that the
  buffer really has, the parse finishes (with a packet or an error code) without an
  out-of-bounds read, whatever the IP header length, TCP data offset and length fields say.
\<close>

theorem zdtun_parse_pkt_safe:
  assumes "unat pkt_len \<le> length b"
  shows "zdtun_parse_pkt ids b pkt_len \<noteq> None"
  using zdtun_parse_pkt_bounds [OF assms] .

theorem zdtun_parse_pkt_safe_witness:
  "zdtun_parse_pkt (\<lambda>_. (0, 0)) (0x4F # replicate 23 0) 24 \<noteq> None"
  by (rule zdtun_parse_pkt_safe) simp

text \<open>
  C12: the layout of an accepted packet: the IP header, L4 header and L7 payload lie one after
  the other inside the bytes that were passed, their 16-bit lengths do not wrap around, and the
  version is 4 or 6 and the protocol TCP, UDP or ICMP (unless it is a later fragment).
\<close>

theorem zdtun_parse_pkt_layout:
  assumes "zdtun_parse_pkt ids b pkt_len = Some (Inr (p, ids'))"
  shows "unat (p_ip_hdr_len p) + unat (p_l4_hdr_len p) + unat (p_l7_len p) = unat (p_len p) \<and>
    p_len p \<le> pkt_len \<and> ipver (p_tuple p) \<in> {4, 6} \<and>
    (has_flag (p_flags p) ZDTUN_PKT_IS_FRAGMENT \<and>
       \<not> has_flag (p_flags p) ZDTUN_PKT_IS_FIRST_FRAGMENT \<or>
     ipproto (p_tuple p) \<in> {IPPROTO_TCP, IPPROTO_UDP, IPPROTO_ICMP})"
  using zdtun_parse_pkt_lengths [OF assms] .

text \<open>A UDP/IPv4 packet from 10.0.0.1:1000 to 8.8.8.8:53 with one payload byte and two bytes of padding.\<close>

definition sample_udp :: "byte list" where
  "sample_udp = [0x45, 0, 0, 29, 0, 7, 0, 0, 64, 17, 0, 0, 10, 0, 0, 1, 8, 8, 8, 8,
                 0x03, 0xE8, 0, 53, 0, 9, 0, 0, 0xAA, 0, 0]"

lemma sample_udp_parse:
  "zdtun_parse_pkt (\<lambda>_. (0, 0)) sample_udp 31 =
     Some (Inr (make_pkt sample_udp 4
       \<lparr>h_src = 0x0100000A, h_dst = 0x08080808, h_proto = 17, h_len = 29, h_hlen = 20,
        h_flags = 0, h_id = 0x0700, h_frag = 0\<rparr> (0xE803, 0x3500, 8), \<lambda>_. (0, 0)))"
  by (simp add: zdtun_parse_pkt_def parse_ipv4_def parse_l4_def sample_udp_def rd16_def rd32_def
      rd8_def le16_def le32_def bswap16_def of_ip4_def has_flag_def Let_def)

theorem zdtun_parse_pkt_layout_witness:
  "\<exists>p ids'. zdtun_parse_pkt (\<lambda>_. (0, 0)) sample_udp 31 = Some (Inr (p, ids')) \<and>
     unat (p_ip_hdr_len p) + unat (p_l4_hdr_len p) + unat (p_l7_len p) = unat (p_len p) \<and>
     unat (p_l7_len p) = 1"
  using zdtun_parse_pkt_layout [OF sample_udp_parse] sample_udp_parse
  by (auto simp: make_pkt_def)

text \<open>
  C19: fragments are attributed to the connection of their first fragment: a later fragment with
  the same IP identification gets the ports of the first one, although it carries no L4 header,
  and the last fragment (no more-fragments bit) clears the entry, so that unrelated fragments
  that reuse the identification are not attributed to that connection.
\<close>

theorem fragment_ports_tracked:
  assumes "zdtun_parse_pkt ids b1 n1 = Some (Inr (p1, ids1))"
    and "has_flag (p_flags p1) ZDTUN_PKT_IS_FIRST_FRAGMENT"
    and "zdtun_parse_pkt ids1 b2 n2 = Some (Inr (p2, ids2))"
    and "has_flag (p_flags p2) ZDTUN_PKT_IS_FRAGMENT"
    and "\<not> has_flag (p_flags p2) ZDTUN_PKT_IS_FIRST_FRAGMENT"
    and "rd16 b2 4 = rd16 b1 4"
  shows "src_port (p_tuple p2) = src_port (p_tuple p1) \<and>
    dst_port (p_tuple p2) = dst_port (p_tuple p1) \<and>
    (\<exists>ident frag_off. rd16 b2 4 = Some ident \<and> rd16 b2 6 = Some frag_off \<and>
       ids2 ident = (if frag_off AND htons 0x2000 = 0 then (0, 0)
                     else (src_port (p_tuple p1), dst_port (p_tuple p1))))"
proof -
  from assms(1,2) obtain i where i: "rd16 b1 4 = Some i"
    "ids1 = ids(i := (src_port (p_tuple p1), dst_port (p_tuple p1)))"
    by (rule first_fragment_records)
  from assms(3) conjI [OF assms(4,5)] obtain j fo where j: "rd16 b2 4 = Some j" "rd16 b2 6 = Some fo"
    "(src_port (p_tuple p2), dst_port (p_tuple p2)) = ids1 j"
    "ids2 = (if fo AND htons 0x2000 = 0 then ids1(j := (0, 0)) else ids1)"
    by (rule later_fragment_ports)
  from i j assms(6) show ?thesis by auto
qed

definition sample_frag1 :: "byte list" where
  "sample_frag1 = [0x45, 0, 0, 28, 0, 7, 0x20, 0, 64, 17, 0, 0, 10, 0, 0, 1, 8, 8, 8, 8,
                   0x03, 0xE8, 0, 53, 0, 9, 0, 0]"

definition sample_frag2 :: "byte list" where
  "sample_frag2 = [0x45, 0, 0, 21, 0, 7, 0, 1, 64, 17, 0, 0, 10, 0, 0, 1, 8, 8, 8, 8, 0xAA]"

lemmas sample_frag_simps = zdtun_parse_pkt_def parse_ipv4_def parse_l4_def rd16_def rd32_def
  rd8_def le16_def le32_def bswap16_def of_ip4_def has_flag_def Let_def make_pkt_def

theorem fragment_ports_tracked_witness:
  "\<exists>p1 ids1 p2 ids2. zdtun_parse_pkt (\<lambda>_. (0, 0)) sample_frag1 28 = Some (Inr (p1, ids1)) \<and>
     zdtun_parse_pkt ids1 sample_frag2 21 = Some (Inr (p2, ids2)) \<and>
     src_port (p_tuple p2) = src_port (p_tuple p1) \<and> ids2 0x0700 = (0, 0)"
proof -
  obtain p1 ids1 where 1: "zdtun_parse_pkt (\<lambda>_. (0, 0)) sample_frag1 28 = Some (Inr (p1, ids1))"
    "has_flag (p_flags p1) ZDTUN_PKT_IS_FIRST_FRAGMENT"
    by (simp add: sample_frag1_def sample_frag_simps)
  obtain p2 ids2 where 2: "zdtun_parse_pkt ids1 sample_frag2 21 = Some (Inr (p2, ids2))"
    "has_flag (p_flags p2) ZDTUN_PKT_IS_FRAGMENT"
    "\<not> has_flag (p_flags p2) ZDTUN_PKT_IS_FIRST_FRAGMENT"
    by (simp add: sample_frag2_def sample_frag_simps)
  have 3: "rd16 sample_frag2 4 = rd16 sample_frag1 4" "rd16 sample_frag2 4 = Some 0x0700"
    "rd16 sample_frag2 6 = Some 0x0100"
    by (simp_all add: sample_frag1_def sample_frag2_def rd16_def rd8_def le16_def)
  show ?thesis using fragment_ports_tracked [OF 1 2 3(1)] 1 2 3 by (auto simp: bswap16_def)
qed

end
