(* ===== verification/Uthash.thy ===== *)
theory Uthash
  imports Prelude
begin

text \<open>
  The hash tables of the program (\<^verbatim>\<open>third_party/uthash.h\<close>), as far as its users see them:
  the application-order list, oldest entry first. \<open>HASH_ADD\<close> appends and does not look for an
  existing key, \<open>HASH_FIND\<close> returns an entry with the key, \<open>HASH_DELETE\<close> unlinks the entry it is
  given, \<open>HASH_ITER\<close> walks the list in insertion order and tolerates the deletion of the current
  entry. With several entries of one key, which one \<open>HASH_FIND\<close> returns depends on the bucket
  layout (a rehash may change it); \<open>ut_find\<close> takes the newest and the components keep keys
  unique, the only case in which their lemmas use it.

  The locale \<open>key_table\<close> is the contract the caches rely on.
\<close>

type_synonym ('k, 'v) ut_hash = "('k \<times> 'v) list"

definition ut_keys :: "('k, 'v) ut_hash \<Rightarrow> 'k list" where
  "ut_keys h = map fst h"

definition ut_find :: "'k \<Rightarrow> ('k, 'v) ut_hash \<Rightarrow> 'v option" where
  "ut_find k h = map_of (rev h) k"

definition ut_add :: "'k \<Rightarrow> 'v \<Rightarrow> ('k, 'v) ut_hash \<Rightarrow> ('k, 'v) ut_hash" where
  "ut_add k v h = h @ [(k, v)]"

text \<open>Unlinking the newest entry with a key (the one \<open>ut_find\<close> returns).\<close>

primrec drop_key :: "'k \<Rightarrow> ('k \<times> 'v) list \<Rightarrow> ('k \<times> 'v) list" where
  "drop_key k [] = []"
| "drop_key k (e # h) = (if fst e = k then h else e # drop_key k h)"

definition ut_del :: "'k \<Rightarrow> ('k, 'v) ut_hash \<Rightarrow> ('k, 'v) ut_hash" where
  "ut_del k h = rev (drop_key k (rev h))"

text \<open>Updating the entry that \<open>HASH_FIND\<close> returned in place.\<close>

primrec set_key :: "'k \<Rightarrow> 'v \<Rightarrow> ('k \<times> 'v) list \<Rightarrow> ('k \<times> 'v) list" where
  "set_key k v [] = []"
| "set_key k v (e # h) = (if fst e = k then (k, v) # h else e # set_key k v h)"

definition ut_upd :: "'k \<Rightarrow> 'v \<Rightarrow> ('k, 'v) ut_hash \<Rightarrow> ('k, 'v) ut_hash" where
  "ut_upd k v h = rev (set_key k v (rev h))"

lemma length_filter_neq:
  "distinct xs \<Longrightarrow> x \<in> set xs \<Longrightarrow> Suc (length (filter (\<lambda>y. y \<noteq> x) xs)) = length xs"
proof (induction xs)
  case (Cons a xs)
  then have "filter (\<lambda>y. y \<noteq> x) xs = xs" if "a = x"
    using that by (intro filter_True) auto
  with Cons show ?case by (cases "a = x") auto
qed simp

text \<open>\<open>HASH_COUNT(cache) > max_size\<close>: the count is unsigned, so the bound is converted.\<close>

definition exceeds :: "nat \<Rightarrow> int \<Rightarrow> bool" where
  "exceeds n max_size \<longleftrightarrow> unat (word_of_int max_size :: u32) < n"

section \<open>Contract\<close>

locale key_table =
  fixes find :: "'k \<Rightarrow> 'h \<Rightarrow> 'v option"
    and add :: "'k \<Rightarrow> 'v \<Rightarrow> 'h \<Rightarrow> 'h"
    and del :: "'k \<Rightarrow> 'h \<Rightarrow> 'h"
    and keys :: "'h \<Rightarrow> 'k list"
  assumes find_iff: "find k h \<noteq> None \<longleftrightarrow> k \<in> set (keys h)"
    and find_add: "find k' (add k v h) = (if k' = k then Some v else find k' h)"
    and keys_add: "keys (add k v h) = keys h @ [k]"
    and find_del: "distinct (keys h) \<Longrightarrow> find k' (del k h) = (if k' = k then None else find k' h)"
    and keys_del: "distinct (keys h) \<Longrightarrow> keys (del k h) = filter (\<lambda>k'. k' \<noteq> k) (keys h)"
begin

text \<open>The move-to-back step of the caches: delete the entry found and add it again.\<close>

lemma find_None_iff: "find k h = None \<longleftrightarrow> k \<notin> set (keys h)"
  using find_iff by blast

lemma refresh_find:
  "distinct (keys h) \<Longrightarrow> find k h = Some v \<Longrightarrow> find k' (add k v (del k h)) = find k' h"
  by (simp add: find_add find_del)

lemma refresh_keys:
  "distinct (keys h) \<Longrightarrow> keys (add k v (del k h)) = filter (\<lambda>k'. k' \<noteq> k) (keys h) @ [k]"
  by (simp add: keys_add keys_del)

lemma refresh_distinct: "distinct (keys h) \<Longrightarrow> distinct (keys (add k v (del k h)))"
  by (simp add: refresh_keys)

lemma refresh_length:
  "distinct (keys h) \<Longrightarrow> find k h = Some v \<Longrightarrow>
     length (keys (add k v (del k h))) = length (keys h)"
  using find_iff [of k h] by (simp add: refresh_keys length_filter_neq)

lemma add_distinct: "distinct (keys h) \<Longrightarrow> find k h = None \<Longrightarrow> distinct (keys (add k v h))"
  by (simp add: keys_add find_None_iff)

end

section \<open>The tables satisfy it\<close>

lemma drop_key_notin [simp]: "k \<notin> fst ` set h \<Longrightarrow> drop_key k h = h"
  by (induction h) auto

lemma drop_key_filter: "distinct (map fst h) \<Longrightarrow> drop_key k h = filter (\<lambda>e. fst e \<noteq> k) h"
proof (induction h)
  case (Cons e h)
  then show ?case by (auto simp: filter_id_conv)
qed simp

lemma ut_del_filter:
  assumes "distinct (ut_keys h)"
  shows "ut_del k h = filter (\<lambda>e. fst e \<noteq> k) h"
proof -
  have "distinct (map fst (rev h))" using assms by (simp add: ut_keys_def flip: rev_map)
  then show ?thesis by (simp add: ut_del_def drop_key_filter flip: rev_filter)
qed

lemma map_of_filter_key:
  "map_of (filter (\<lambda>e. fst e \<noteq> k) h) k' = (if k' = k then None else map_of h k')"
  by (induction h) auto

interpretation ut: key_table ut_find ut_add ut_del ut_keys
proof
  fix h :: "('a, 'b) ut_hash" and k k' v
  show "ut_find k h \<noteq> None \<longleftrightarrow> k \<in> set (ut_keys h)"
    by (simp add: ut_find_def ut_keys_def map_of_eq_None_iff del: not_None_eq)
  show "ut_find k' (ut_add k v h) = (if k' = k then Some v else ut_find k' h)"
    by (simp add: ut_find_def ut_add_def)
  show "ut_keys (ut_add k v h) = ut_keys h @ [k]"
    by (simp add: ut_keys_def ut_add_def)
  assume d: "distinct (ut_keys h)"
  then show "ut_find k' (ut_del k h) = (if k' = k then None else ut_find k' h)"
    by (simp add: ut_find_def ut_del_filter map_of_filter_key rev_filter)
  show "ut_keys (ut_del k h) = filter (\<lambda>k'. k' \<noteq> k) (ut_keys h)"
    using d by (simp add: ut_del_filter ut_keys_def filter_map comp_def)
qed

lemma ut_find_iff: "ut_find k h = Some v \<Longrightarrow> k \<in> set (ut_keys h)"
  using ut.find_iff [of k h] by auto

lemma ut_find_mem: "ut_find k h = Some v \<Longrightarrow> (k, v) \<in> set h"
  by (auto simp: ut_find_def dest: map_of_SomeD)

lemma ut_find_unique:
  "distinct (ut_keys h) \<Longrightarrow> (k, v) \<in> set h \<Longrightarrow> ut_find k h = Some v"
  by (simp add: ut_find_def ut_keys_def map_of_is_SomeI flip: rev_map)

lemma ut_keys_upd [simp]: "ut_keys (ut_upd k v h) = ut_keys h"
proof -
  have "map fst (set_key k v l) = map fst l" for l
    by (induction l) auto
  then show ?thesis by (simp add: ut_keys_def ut_upd_def rev_map [symmetric])
qed

lemma ut_find_upd:
  "ut_find k' (ut_upd k v h) =
     (if k' = k \<and> k \<in> set (ut_keys h) then Some v else ut_find k' h)"
proof -
  have "map_of (set_key k v l) k' =
      (if k' = k \<and> k \<in> set (map fst l) then Some v else map_of l k')" for l
    by (induction l) (auto, force)
  then show ?thesis by (simp add: ut_find_def ut_upd_def ut_keys_def)
qed

lemma ut_keys_tl: "ut_keys (tl h) = tl (ut_keys h)"
  by (simp add: ut_keys_def map_tl)

lemma ut_find_tl:
  assumes "distinct (ut_keys h)" "k \<in> set (ut_keys (tl h))"
  shows "ut_find k (tl h) = ut_find k h"
  using assms by (cases h) (auto simp: ut_find_def ut_keys_def map_add_def map_of_eq_None_iff
      simp flip: not_None_eq split: option.splits)

lemma length_ut [simp]:
  "length (ut_keys h) = length h" "length (ut_add k v h) = Suc (length h)"
  "length (ut_upd k v h) = length h"
  using ut_keys_upd [of k v h, THEN arg_cong [where f = length]]
  by (simp_all add: ut_keys_def ut_add_def)

lemma set_tl_subset: "set (tl xs) \<subseteq> set xs"
  by (cases xs) auto

lemma exceeds_pos [simp]:
  "0 \<le> m \<Longrightarrow> m < 2147483648 \<Longrightarrow> exceeds n m \<longleftrightarrow> m < int n"
  by (simp add: exceeds_def unat_eq_nat_uint uint_word_of_int) linarith

lemma ut_refresh_length:
  "distinct (ut_keys h) \<Longrightarrow> ut_find k h = Some v \<Longrightarrow> Suc (length (ut_del k h)) = length h"
  using ut.refresh_length [of h k v] by simp

lemma ut_refresh_set:
  "ut_find k h = Some v \<Longrightarrow> distinct (ut_keys h) \<Longrightarrow> set (ut_add k v (ut_del k h)) \<subseteq> set h"
  by (auto simp: ut_add_def ut_del_filter dest: ut_find_mem)

end
