(* ===== verification/Lru.thy ===== *)
theory Lru
  imports Prelude
begin

text \<open>
  The contract of a least-recently-used cache, shared by the UID cache of the capture daemon and
  the host-name cache of the capture core, and what a client gets from it: the working-set
  guarantee, that an entry stays cached as long as fewer than \<open>cap\<close> other keys are used after it.
\<close>

datatype ('k, 'v) lru_op = Find 'k | Use 'k 'v

fun op_key :: "('k, 'v) lru_op \<Rightarrow> 'k" where
  "op_key (Find k) = k"
| "op_key (Use k v) = k"

fun op_sets :: "'k \<Rightarrow> ('k, 'v) lru_op \<Rightarrow> bool" where
  "op_sets k (Find k') = False"
| "op_sets k (Use k' v) = (k' = k)"

text \<open>Dropping the oldest entry when the list is longer than the capacity.\<close>

definition trim :: "nat \<Rightarrow> 'a list \<Rightarrow> 'a list" where
  "trim n xs = (if n < length xs then tl xs else xs)"

lemma set_trim: "set (trim n xs) \<subseteq> set xs"
  by (cases xs) (auto simp: trim_def)

lemma distinct_trim: "distinct xs \<Longrightarrow> distinct (trim n xs)"
  by (simp add: trim_def distinct_tl)

locale lru_cache =
  fixes inv :: "'s \<Rightarrow> bool" and cap :: "'s \<Rightarrow> nat" and order :: "'s \<Rightarrow> 'k list"
    and val :: "'s \<Rightarrow> 'k \<Rightarrow> 'v option" and ok :: "'v \<Rightarrow> bool"
    and touch :: "'s \<Rightarrow> 'k \<Rightarrow> 's" and use :: "'s \<Rightarrow> 'k \<Rightarrow> 'v \<Rightarrow> 's"
  assumes distinct_order: "inv s \<Longrightarrow> distinct (order s)"
    and cap_pos: "inv s \<Longrightarrow> 0 < cap s"
    and val_order: "inv s \<Longrightarrow> val s k \<noteq> None \<longleftrightarrow> k \<in> set (order s)"
    and inv_touch: "inv s \<Longrightarrow> inv (touch s k)"
    and inv_use: "inv s \<Longrightarrow> ok v \<Longrightarrow> inv (use s k v)"
    and cap_touch: "cap (touch s k) = cap s"
    and cap_use: "cap (use s k v) = cap s"
    and order_touch: "inv s \<Longrightarrow> order (touch s k) =
          (if k \<in> set (order s) then filter (\<lambda>k'. k' \<noteq> k) (order s) @ [k] else order s)"
    and order_use: "inv s \<Longrightarrow> order (use s k v) = trim (cap s) (filter (\<lambda>k'. k' \<noteq> k) (order s) @ [k])"
    and val_touch: "inv s \<Longrightarrow> val (touch s k) k' = val s k'"
    and val_use: "inv s \<Longrightarrow> k' \<noteq> k \<Longrightarrow> k' \<in> set (order (use s k v)) \<Longrightarrow> val (use s k v) k' = val s k'"
begin

fun step :: "('k, 'v) lru_op \<Rightarrow> 's \<Rightarrow> 's" where
  "step (Find k) s = touch s k"
| "step (Use k v) s = use s k v"

definition run :: "('k, 'v) lru_op list \<Rightarrow> 's \<Rightarrow> 's" where
  "run ops s = fold step ops s"

definition op_ok :: "('k, 'v) lru_op \<Rightarrow> bool" where
  "op_ok a \<longleftrightarrow> (case a of Find k \<Rightarrow> True | Use k v \<Rightarrow> ok v)"

text \<open>\<open>k\<close> is cached and everything more recent than it is in \<open>T\<close>.\<close>

definition recent :: "'k \<Rightarrow> 'k set \<Rightarrow> 's \<Rightarrow> bool" where
  "recent k T s \<longleftrightarrow> (\<exists>xs ys. order s = xs @ k # ys \<and> set ys \<subseteq> T)"

lemma recent_move:
  assumes "order s = xs @ k # ys" "set ys \<subseteq> T" "k' \<in> insert k T"
  shows "\<exists>xs' ys'. filter (\<lambda>a. a \<noteq> k') (order s) @ [k'] = xs' @ k # ys' \<and> set ys' \<subseteq> T"
proof (cases "k' = k")
  case True
  then show ?thesis by (metis append_self_conv bot.extremum list.set(1) append.right_neutral)
next
  case False
  then have "filter (\<lambda>a. a \<noteq> k') (order s) @ [k'] =
      filter (\<lambda>a. a \<noteq> k') xs @ k # (filter (\<lambda>a. a \<noteq> k') ys @ [k'])"
    using assms(1) by simp
  moreover have "set (filter (\<lambda>a. a \<noteq> k') ys @ [k']) \<subseteq> T" using assms(2,3) False by auto
  ultimately show ?thesis by blast
qed

lemma recent_trim:
  assumes "distinct zs" "zs = xs @ k # ys" "set ys \<subseteq> T" "k \<notin> T" "finite T" "card T < n"
  shows "\<exists>xs' ys'. trim n zs = xs' @ k # ys' \<and> set ys' \<subseteq> T"
proof (cases "n < length zs \<and> xs = []")
  case True
  have "length ys = card (set ys)" using assms(1,2) by (simp add: distinct_card)
  also have "\<dots> \<le> card T" using assms(3,5) by (rule card_mono [rotated])
  finally have "length zs \<le> n" using True assms(2,6) by simp
  with True show ?thesis by simp
next
  case False
  then have "trim n zs = (if n < length zs then tl xs else xs) @ k # ys"
    using assms(2) by (cases xs) (auto simp: trim_def)
  with assms(3) show ?thesis by blast
qed

lemma recent_step:
  assumes "inv s" "recent k T s" "op_key a \<in> insert k T" "k \<notin> T" "finite T" "card T < cap s"
  shows "recent k T (step a s)"
proof -
  from assms(2) obtain xs ys where o: "order s = xs @ k # ys" "set ys \<subseteq> T"
    by (auto simp: recent_def)
  show ?thesis
  proof (cases a)
    case (Find k')
    with assms(1,3) o recent_move [OF o, of k'] show ?thesis by (auto simp: recent_def order_touch)
  next
    case (Use k' v)
    with assms(3) recent_move [OF o, of k'] obtain xs' ys' where
      z: "filter (\<lambda>a. a \<noteq> k') (order s) @ [k'] = xs' @ k # ys'" "set ys' \<subseteq> T" by auto
    have "distinct (filter (\<lambda>a. a \<noteq> k') (order s) @ [k'])"
      using distinct_order [OF assms(1)] by simp
    from recent_trim [OF this z assms(4,5,6)] Use assms(1) show ?thesis
      by (auto simp: recent_def order_use)
  qed
qed

lemma val_step:
  assumes "inv s" "recent k T (step a s)" "\<not> op_sets k a"
  shows "val (step a s) k = val s k"
  using assms by (cases a) (auto simp: recent_def val_touch val_use)

lemma inv_step: "inv s \<Longrightarrow> op_ok a \<Longrightarrow> inv (step a s)"
  by (cases a) (auto simp: op_ok_def inv_touch inv_use)

lemma cap_step: "cap (step a s) = cap s"
  by (cases a) (simp_all add: cap_touch cap_use)

lemma recent_run:
  assumes "inv s" "recent k T s" "\<forall>a \<in> set ops. op_ok a \<and> op_key a \<in> insert k T \<and> \<not> op_sets k a"
    "k \<notin> T" "finite T" "card T < cap s"
  shows "val (run ops s) k = val s k \<and> inv (run ops s)"
  using assms
proof (induction ops arbitrary: s)
  case (Cons a ops)
  have r: "recent k T (step a s)" using Cons.prems by (intro recent_step) auto
  have "val (run ops (step a s)) k = val (step a s) k \<and> inv (run ops (step a s))"
    using Cons.prems r by (intro Cons.IH) (auto simp: inv_step cap_step)
  moreover have "val (step a s) k = val s k" using Cons.prems r by (intro val_step) auto
  ultimately show ?case by (simp add: run_def)
qed (simp add: run_def)

text \<open>The working-set guarantee.\<close>

lemma working_set:
  assumes "inv s" "order s \<noteq> []" "last (order s) = k"
    and "\<forall>a \<in> set ops. op_ok a \<and> \<not> op_sets k a"
    and "card (op_key ` set ops - {k}) < cap s"
  shows "val (run ops s) k = val s k"
proof -
  let ?T = "op_key ` set ops - {k}"
  have "recent k ?T s"
    using assms(2,3) unfolding recent_def by (metis append_butlast_last_id empty_subsetI list.set(1))
  then show ?thesis
    using assms by (intro conjunct1 [OF recent_run [of s k ?T]]) auto
qed

end

end
