(* ===== verification/Uid_Lru.thy ===== *)
theory Uid_Lru
  imports Uthash Lru Zdtun_Pkt
begin

text \<open>
  The cache of connection owners of the capture daemon (\<^verbatim>\<open>common/uid_lru.c\<close>). The result of
  each \<open>pd_malloc\<close> is an argument. \<open>uid_lru_access\<close> is the daemon's use of it (find, and add
  what was resolved when the cache has no entry), the pattern that keeps its keys unique.
\<close>

record uid_lru =
  ul_max_size :: int
  ul_cache :: "(zdtun_5tuple, int) ut_hash"

definition uid_lru_init :: "bool \<Rightarrow> int \<Rightarrow> uid_lru option" where
  "uid_lru_init alloc max_size =
     (if alloc then Some \<lparr>ul_max_size = max_size, ul_cache = []\<rparr> else None)"

text \<open>Releasing the cache: the entries freed, in order, and what the table holds at the end.\<close>

fun uid_lru_destroy_loop ::
    "(zdtun_5tuple, int) ut_hash \<Rightarrow> (zdtun_5tuple \<times> int) list \<times> (zdtun_5tuple, int) ut_hash" where
  "uid_lru_destroy_loop [] = ([], [])"
| "uid_lru_destroy_loop (e # tmp) = (case uid_lru_destroy_loop tmp of (freed, h) \<Rightarrow> (e # freed, h))"

definition uid_lru_destroy :: "uid_lru \<Rightarrow> (zdtun_5tuple \<times> int) list" where
  "uid_lru_destroy lru = fst (uid_lru_destroy_loop (ul_cache lru))"

definition uid_lru_find_entry :: "uid_lru \<Rightarrow> zdtun_5tuple \<Rightarrow> int option \<times> uid_lru" where
  "uid_lru_find_entry lru tuple =
     (case ut_find tuple (ul_cache lru) of
        Some uid \<Rightarrow> (Some uid, lru\<lparr>ul_cache := ut_add tuple uid (ut_del tuple (ul_cache lru))\<rparr>)
      | None \<Rightarrow> (None, lru))"

definition uid_lru_add :: "bool \<Rightarrow> uid_lru \<Rightarrow> zdtun_5tuple \<Rightarrow> int \<Rightarrow> uid_lru" where
  "uid_lru_add alloc lru tuple uid =
     (if \<not> alloc then lru
      else let cache = ut_add tuple uid (ul_cache lru)
           in lru\<lparr>ul_cache := (if exceeds (length cache) (ul_max_size lru) then tl cache else cache)\<rparr>)"

definition uid_lru_find :: "uid_lru \<Rightarrow> zdtun_5tuple \<Rightarrow> int \<times> uid_lru" where
  "uid_lru_find lru tuple =
     (case uid_lru_find_entry lru tuple of
        (Some uid, lru') \<Rightarrow> (uid, lru')
      | (None, lru') \<Rightarrow> (-2, lru'))"

definition uid_lru_size :: "uid_lru \<Rightarrow> nat" where
  "uid_lru_size lru = length (ul_cache lru)"

definition uid_lru_access :: "uid_lru \<Rightarrow> zdtun_5tuple \<Rightarrow> int \<Rightarrow> uid_lru" where
  "uid_lru_access lru tuple resolved =
     (case uid_lru_find lru tuple of (uid, lru') \<Rightarrow>
        if uid = -2 then uid_lru_add True lru' tuple resolved else lru')"

section \<open>Invariant\<close>

definition uid_lru_inv :: "uid_lru \<Rightarrow> bool" where
  "uid_lru_inv lru \<longleftrightarrow> 0 < ul_max_size lru \<and> ul_max_size lru < 2 ^ 31 \<and>
     distinct (ut_keys (ul_cache lru)) \<and> int (length (ul_cache lru)) \<le> ul_max_size lru \<and>
     (\<forall>e \<in> set (ul_cache lru). snd e \<noteq> -2)"

lemma uid_find_entry_None [simp]:
  "ut_find t (ul_cache l) = None \<Longrightarrow> uid_lru_find_entry l t = (None, l)"
  by (simp add: uid_lru_find_entry_def)

lemma uid_find_entry_Some [simp]:
  "ut_find t (ul_cache l) = Some u \<Longrightarrow>
     uid_lru_find_entry l t = (Some u, l\<lparr>ul_cache := ut_add t u (ut_del t (ul_cache l))\<rparr>)"
  by (simp add: uid_lru_find_entry_def)

lemma uid_lru_init_inv: "0 < n \<Longrightarrow> n < 2 ^ 31 \<Longrightarrow> uid_lru_init True n = Some l \<Longrightarrow> uid_lru_inv l"
  by (auto simp: uid_lru_init_def uid_lru_inv_def ut_keys_def)

lemma uid_lru_find_inv: "uid_lru_inv l \<Longrightarrow> uid_lru_inv (snd (uid_lru_find l t))"
  using ut_refresh_set [of t "ul_cache l"] ut_refresh_length [of "ul_cache l" t]
  by (cases "ut_find t (ul_cache l)")
    (auto simp: uid_lru_find_def uid_lru_inv_def ut.refresh_distinct)

lemma uid_lru_add_inv:
  assumes "uid_lru_inv l" "ut_find t (ul_cache l) = None" "u \<noteq> -2"
  shows "uid_lru_inv (uid_lru_add True l t u)"
proof -
  have s: "set (ut_add t u (ul_cache l)) = insert (t, u) (set (ul_cache l))"
    by (simp add: ut_add_def)
  show ?thesis
    using assms ut.add_distinct [of "ul_cache l" t u] set_tl_subset [of "ut_add t u (ul_cache l)"]
    by (auto simp: uid_lru_inv_def uid_lru_add_def Let_def ut_keys_tl distinct_tl s)
qed

lemma uid_find_fst:
  "uid_lru_inv l \<Longrightarrow> fst (uid_lru_find l t) = -2 \<longleftrightarrow> ut_find t (ul_cache l) = None"
  by (cases "ut_find t (ul_cache l)") (auto simp: uid_lru_find_def uid_lru_inv_def dest!: ut_find_mem)

section \<open>The cache satisfies the LRU contract\<close>

lemma uid_access_cases:
  assumes "uid_lru_inv l"
  shows "uid_lru_access l t u =
    (case ut_find t (ul_cache l) of None \<Rightarrow> uid_lru_add True l t u
     | Some _ \<Rightarrow> snd (uid_lru_find l t))"
  using uid_find_fst [OF assms, of t]
  by (cases "ut_find t (ul_cache l)")
    (simp_all add: uid_lru_access_def case_prod_beta, simp_all add: uid_lru_find_def)

lemma ut_keys_uid_add:
  "uid_lru_inv l \<Longrightarrow> ut_keys (ul_cache (uid_lru_add True l t u)) =
     trim (nat (ul_max_size l)) (ut_keys (ul_cache l) @ [t])"
  by (auto simp: uid_lru_add_def uid_lru_inv_def Let_def trim_def ut_keys_tl ut.keys_add zless_nat_eq_int_zless nat_less_iff)

interpretation ul: lru_cache uid_lru_inv "\<lambda>l. nat (ul_max_size l)" "\<lambda>l. ut_keys (ul_cache l)"
  "\<lambda>l t. ut_find t (ul_cache l)" "\<lambda>u. u \<noteq> -2" "\<lambda>l t. snd (uid_lru_find l t)" uid_lru_access
proof
  fix s k k' v
  assume i: "uid_lru_inv s"
  then show "distinct (ut_keys (ul_cache s))" "0 < nat (ul_max_size s)"
    by (auto simp: uid_lru_inv_def)
  show "ut_find k (ul_cache s) \<noteq> None \<longleftrightarrow> k \<in> set (ut_keys (ul_cache s))"
    by (rule ut.find_iff)
  show "uid_lru_inv (snd (uid_lru_find s k))"
    using i by (rule uid_lru_find_inv)
  show "ut_keys (ul_cache (snd (uid_lru_find s k))) =
      (if k \<in> set (ut_keys (ul_cache s)) then filter (\<lambda>k'. k' \<noteq> k) (ut_keys (ul_cache s)) @ [k]
       else ut_keys (ul_cache s))"
    using i ut.find_iff [of k "ul_cache s"]
    by (cases "ut_find k (ul_cache s)") (auto simp: uid_lru_find_def uid_lru_inv_def ut.refresh_keys)
  show "ut_find k' (ul_cache (snd (uid_lru_find s k))) = ut_find k' (ul_cache s)"
    using i by (cases "ut_find k (ul_cache s)")
      (auto simp: uid_lru_find_def uid_lru_inv_def ut.refresh_find)
next
  fix s k and v :: int
  assume "uid_lru_inv s" "v \<noteq> -2"
  then show "uid_lru_inv (uid_lru_access s k v)"
    by (cases "ut_find k (ul_cache s)")
      (simp_all add: uid_access_cases uid_lru_add_inv uid_lru_find_inv)
next
  fix s k v
  show "nat (ul_max_size (snd (uid_lru_find s k))) = nat (ul_max_size s)"
    by (cases "ut_find k (ul_cache s)") (auto simp: uid_lru_find_def)
  then show "nat (ul_max_size (uid_lru_access s k v)) = nat (ul_max_size s)"
    by (auto simp: uid_lru_access_def uid_lru_add_def Let_def split: prod.split)
next
  fix s k v
  assume i: "uid_lru_inv s"
  show "ut_keys (ul_cache (uid_lru_access s k v)) =
      trim (nat (ul_max_size s)) (filter (\<lambda>k'. k' \<noteq> k) (ut_keys (ul_cache s)) @ [k])"
  proof (cases "ut_find k (ul_cache s)")
    case None
    then have "filter (\<lambda>k'. k' \<noteq> k) (ut_keys (ul_cache s)) = ut_keys (ul_cache s)"
      using ut.find_iff [of k "ul_cache s"] by (intro filter_True) auto
    with None i show ?thesis by (simp add: uid_access_cases ut_keys_uid_add)
  next
    case (Some u)
    then have "Suc (length (filter (\<lambda>k'. k' \<noteq> k) (ut_keys (ul_cache s)))) = length (ul_cache s)"
      using i ut_find_iff [OF Some] by (subst length_filter_neq) (auto simp: uid_lru_inv_def)
    with Some i show ?thesis
      by (simp add: uid_access_cases uid_lru_find_def ut.refresh_keys uid_lru_inv_def trim_def nat_less_iff)
  qed
next
  fix s k k' v
  assume "uid_lru_inv s" "k' \<noteq> k" "k' \<in> set (ut_keys (ul_cache (uid_lru_access s k v)))"
  then show "ut_find k' (ul_cache (uid_lru_access s k v)) = ut_find k' (ul_cache s)"
  proof (cases "ut_find k (ul_cache s)")
    case None
    let ?c = "ut_add k v (ul_cache s)"
    have "distinct (ut_keys ?c)" using \<open>uid_lru_inv s\<close> None
      by (intro ut.add_distinct) (simp_all add: uid_lru_inv_def)
    with None \<open>uid_lru_inv s\<close> \<open>k' \<noteq> k\<close> \<open>k' \<in> _\<close> show ?thesis
      by (auto simp: uid_access_cases uid_lru_add_def Let_def ut_find_tl ut.find_add)
  next
    case (Some u)
    with \<open>uid_lru_inv s\<close> show ?thesis
      by (simp add: uid_access_cases uid_lru_find_def uid_lru_inv_def ut.refresh_find)
  qed
qed

section \<open>Properties\<close>

definition uid_lru_step :: "(zdtun_5tuple, int) lru_op \<Rightarrow> uid_lru \<Rightarrow> uid_lru" where
  "uid_lru_step a lru = (case a of Find t \<Rightarrow> snd (uid_lru_find lru t) | Use t u \<Rightarrow> uid_lru_access lru t u)"

lemma uid_lru_run: "ul.run ops l = fold uid_lru_step ops l"
proof -
  have "ul.step a = uid_lru_step a" for a
    by (cases a) (simp_all add: uid_lru_step_def fun_eq_iff)
  then show ?thesis by (simp add: ul.run_def cong: fold_cong)
qed

text \<open>
  C20: the working-set guarantee of the owner cache: a connection that was just looked up or
  added keeps its UID, whatever lookups and additions follow, as long as they involve fewer
  than \<open>max_size\<close> other connections; the cache then still answers with that UID and keeps its
  invariant (unique keys, at most \<open>max_size\<close> entries).
\<close>

theorem uid_lru_working_set:
  assumes "uid_lru_inv lru" and "ut_keys (ul_cache lru) \<noteq> []" "last (ut_keys (ul_cache lru)) = t"
    and "ut_find t (ul_cache lru) = Some uid"
    and "\<forall>a \<in> set ops. (\<forall>k u. a = Use k u \<longrightarrow> k \<noteq> t \<and> u \<noteq> -2)"
    and "int (card (op_key ` set ops - {t})) < ul_max_size lru"
  shows "fst (uid_lru_find (fold uid_lru_step ops lru) t) = uid \<and>
    uid_lru_inv (fold uid_lru_step ops lru)"
proof -
  have ops: "\<forall>a \<in> set ops. ul.op_ok a \<and> \<not> op_sets t a"
    using assms(5) by (auto simp: ul.op_ok_def split: lru_op.split elim: op_sets.elims)
  then have "ut_find t (ul_cache (fold uid_lru_step ops lru)) = Some uid"
    using ul.working_set [OF assms(1-3) ops] assms(4,6) by (simp add: uid_lru_run zless_nat_eq_int_zless)
  moreover have "uid_lru_inv (fold uid_lru_step ops lru)"
    using assms(1) ops unfolding uid_lru_run [symmetric] ul.run_def
    by (induction ops arbitrary: lru) (auto intro: ul.inv_step)
  ultimately show ?thesis by (simp add: uid_lru_find_def)
qed

definition sample_tuple :: "u16 \<Rightarrow> zdtun_5tuple" where
  "sample_tuple p = \<lparr>src_ip = 1, dst_ip = 2, src_port = p, dst_port = 53, ipver = 4, ipproto = 17\<rparr>"

theorem uid_lru_working_set_witness:
  "fst (uid_lru_find (fold uid_lru_step [Use (sample_tuple 3) 30, Find (sample_tuple 3)]
     \<lparr>ul_max_size = 2, ul_cache = [(sample_tuple 1, 10), (sample_tuple 2, 20)]\<rparr>)
     (sample_tuple 2)) = 20"
proof -
  let ?l = "\<lparr>ul_max_size = 2, ul_cache = [(sample_tuple 1, 10), (sample_tuple 2, 20)]\<rparr>"
  have "uid_lru_inv ?l"
    by (simp add: uid_lru_inv_def ut_keys_def sample_tuple_def)
  from conjunct1 [OF uid_lru_working_set [OF this, where t = "sample_tuple 2" and uid = 20
      and ops = "[Use (sample_tuple 3) 30, Find (sample_tuple 3)]"]]
  show ?thesis by (simp add: ut_keys_def ut_find_def sample_tuple_def)
qed

end
