(* ===== verification/Ip_Lru.thy ===== *)
theory Ip_Lru
  imports Uthash Lru Zdtun_Pkt
begin

text \<open>
  The cache from server address to host name (\<^verbatim>\<open>core/ip_lru.c\<close>), filled from DNS replies and
  consulted for new connections. The results of \<open>pd_malloc\<close> and \<open>pd_strdup\<close> are arguments.
\<close>

record ip_lru =
  il_max_size :: int
  il_cache :: "(zdtun_ip, string) ut_hash"

definition ip_lru_init :: "bool \<Rightarrow> int \<Rightarrow> ip_lru option" where
  "ip_lru_init alloc max_size =
     (if alloc then Some \<lparr>il_max_size = max_size, il_cache = []\<rparr> else None)"

text \<open>The entries (and their strings) freed, in order, and what the table holds at the end.\<close>

fun ip_lru_destroy :: "(zdtun_ip, string) ut_hash \<Rightarrow> (zdtun_ip \<times> string) list \<times> (zdtun_ip, string) ut_hash" where
  "ip_lru_destroy [] = ([], [])"
| "ip_lru_destroy (e # tmp) = (case ip_lru_destroy tmp of (freed, h) \<Rightarrow> (e # freed, h))"

definition ip_lru_find_entry :: "ip_lru \<Rightarrow> zdtun_ip \<Rightarrow> string option \<times> ip_lru" where
  "ip_lru_find_entry lru ip =
     (case ut_find ip (il_cache lru) of
        Some host \<Rightarrow> (Some host, lru\<lparr>il_cache := ut_add ip host (ut_del ip (il_cache lru))\<rparr>)
      | None \<Rightarrow> (None, lru))"

definition ip_lru_add :: "bool \<Rightarrow> bool \<Rightarrow> ip_lru \<Rightarrow> zdtun_ip \<Rightarrow> string \<Rightarrow> ip_lru" where
  "ip_lru_add dup_ok alloc_ok lru ip hostname =
     (if \<not> dup_ok then lru
      else case ip_lru_find_entry lru ip of
        (Some _, lru') \<Rightarrow> lru'\<lparr>il_cache := ut_upd ip hostname (il_cache lru')\<rparr>
      | (None, lru') \<Rightarrow>
          if \<not> alloc_ok then lru'
          else let cache = ut_add ip hostname (il_cache lru')
               in lru'\<lparr>il_cache := (if exceeds (length cache) (il_max_size lru') then tl cache else cache)\<rparr>)"

definition ip_lru_find :: "bool \<Rightarrow> ip_lru \<Rightarrow> zdtun_ip \<Rightarrow> string option \<times> ip_lru" where
  "ip_lru_find dup_ok lru ip =
     (case ip_lru_find_entry lru ip of
        (Some host, lru') \<Rightarrow> (if dup_ok then Some host else None, lru')
      | (None, lru') \<Rightarrow> (None, lru'))"

definition ip_lru_size :: "ip_lru \<Rightarrow> nat" where
  "ip_lru_size lru = length (il_cache lru)"

section \<open>Invariant\<close>

definition ip_lru_inv :: "ip_lru \<Rightarrow> bool" where
  "ip_lru_inv lru \<longleftrightarrow> 0 < il_max_size lru \<and> il_max_size lru < 2 ^ 31 \<and>
     distinct (ut_keys (il_cache lru)) \<and> int (length (il_cache lru)) \<le> il_max_size lru"

lemma ip_find_entry_None [simp]:
  "ut_find t (il_cache l) = None \<Longrightarrow> ip_lru_find_entry l t = (None, l)"
  by (simp add: ip_lru_find_entry_def)

lemma ip_find_entry_Some [simp]:
  "ut_find t (il_cache l) = Some u \<Longrightarrow>
     ip_lru_find_entry l t = (Some u, l\<lparr>il_cache := ut_add t u (ut_del t (il_cache l))\<rparr>)"
  by (simp add: ip_lru_find_entry_def)

lemma ip_lru_init_inv [inv_intros]:
  "ip_lru_init alloc n = Some l \<Longrightarrow> 0 < n \<Longrightarrow> n < 2 ^ 31 \<Longrightarrow> ip_lru_inv l"
  by (auto simp: ip_lru_init_def ip_lru_inv_def ut_keys_def split: if_splits)

lemma ip_find_entry_inv [inv_intros]: "ip_lru_inv l \<Longrightarrow> ip_lru_inv (snd (ip_lru_find_entry l k))"
  using ut_refresh_length [of "il_cache l" k]
  by (cases "ut_find k (il_cache l)") (auto simp: ip_lru_inv_def ut.refresh_distinct)

lemma ip_lru_find_inv [inv_intros]: "ip_lru_inv l \<Longrightarrow> ip_lru_inv (snd (ip_lru_find d l k))"
  using ip_find_entry_inv [of l k]
  by (auto simp: ip_lru_find_def split: prod.split option.split)

lemma ip_lru_add_inv [inv_intros]:
  assumes "ip_lru_inv l"
  shows "ip_lru_inv (ip_lru_add d a l k v)"
proof (cases "ut_find k (il_cache l)")
  case None
  with assms ut.add_distinct [of "il_cache l" k v] show ?thesis
    by (auto simp: ip_lru_add_def ip_lru_inv_def Let_def ut_keys_tl distinct_tl)
next
  case (Some w)
  with assms ip_find_entry_inv [of l k] show ?thesis
    by (auto simp: ip_lru_add_def ip_lru_inv_def)
qed

section \<open>The cache satisfies the LRU contract\<close>

lemma ip_find_keys:
  assumes "ip_lru_inv s"
  shows "ut_keys (il_cache (snd (ip_lru_find_entry s k))) =
      (if k \<in> set (ut_keys (il_cache s)) then filter (\<lambda>k'. k' \<noteq> k) (ut_keys (il_cache s)) @ [k]
       else ut_keys (il_cache s))"
  using assms ut.find_iff [of k "il_cache s"]
  by (cases "ut_find k (il_cache s)") (auto simp: ip_lru_inv_def ut.refresh_keys)

lemma ip_find_find:
  "ip_lru_inv s \<Longrightarrow> ut_find k' (il_cache (snd (ip_lru_find_entry s k))) = ut_find k' (il_cache s)"
  by (cases "ut_find k (il_cache s)") (auto simp: ip_lru_inv_def ut.refresh_find)

lemma ip_lru_find_snd [simp]: "snd (ip_lru_find d l k) = snd (ip_lru_find_entry l k)"
  by (auto simp: ip_lru_find_def split: prod.split option.split)

lemma ip_find_max [simp]: "il_max_size (snd (ip_lru_find_entry l k)) = il_max_size l"
  by (auto simp: ip_lru_find_entry_def split: option.split)

lemma ip_add_keys:
  assumes i: "ip_lru_inv s"
  shows "ut_keys (il_cache (ip_lru_add True True s k v)) =
      trim (nat (il_max_size s)) (filter (\<lambda>k'. k' \<noteq> k) (ut_keys (il_cache s)) @ [k])"
proof (cases "ut_find k (il_cache s)")
  case None
  then have "filter (\<lambda>k'. k' \<noteq> k) (ut_keys (il_cache s)) = ut_keys (il_cache s)"
    using ut.find_iff [of k "il_cache s"] by (intro filter_True) auto
  with None i show ?thesis
    by (auto simp: ip_lru_add_def ip_lru_inv_def Let_def trim_def ut_keys_tl ut.keys_add nat_less_iff)
next
  case (Some u)
  then have "Suc (length (filter (\<lambda>k'. k' \<noteq> k) (ut_keys (il_cache s)))) = length (il_cache s)"
    using i ut_find_iff [OF Some] by (subst length_filter_neq) (auto simp: ip_lru_inv_def)
  with Some i show ?thesis
    by (simp add: ip_lru_add_def ut.refresh_keys ip_lru_inv_def trim_def nat_less_iff)
qed

lemma ip_add_find_other:
  assumes "ip_lru_inv s" "k' \<noteq> k" "k' \<in> set (ut_keys (il_cache (ip_lru_add True True s k v)))"
  shows "ut_find k' (il_cache (ip_lru_add True True s k v)) = ut_find k' (il_cache s)"
proof (cases "ut_find k (il_cache s)")
  case None
  have "distinct (ut_keys (ut_add k v (il_cache s)))" using assms(1) None
    by (intro ut.add_distinct) (simp_all add: ip_lru_inv_def)
  with None assms show ?thesis
    by (auto simp: ip_lru_add_def Let_def ut_find_tl ut.find_add)
next
  case (Some u)
  with assms show ?thesis
    by (simp add: ip_lru_add_def ip_lru_inv_def ut_find_upd ut.refresh_find)
qed

lemma ip_add_find_same:
  assumes "ip_lru_inv s"
  shows "ut_find k (il_cache (ip_lru_add True True s k v)) = Some v"
proof (cases "ut_find k (il_cache s)")
  case None
  have d: "distinct (ut_keys (ut_add k v (il_cache s)))" using assms None
    by (intro ut.add_distinct) (simp_all add: ip_lru_inv_def)
  have "k \<in> set (ut_keys (tl (ut_add k v (il_cache s))))" if "il_cache s \<noteq> []"
    using that by (cases "il_cache s") (simp_all add: ut_add_def ut_keys_def)
  with None assms show ?thesis
    by (cases "il_cache s = []")
      (auto simp: ip_lru_add_def Let_def ut_find_tl [OF d] ut.find_add ip_lru_inv_def)
next
  case (Some u)
  with assms show ?thesis
    by (simp add: ip_lru_add_def ut_find_upd ut.keys_add)
qed

interpretation il: lru_cache ip_lru_inv "\<lambda>l. nat (il_max_size l)" "\<lambda>l. ut_keys (il_cache l)"
  "\<lambda>l k. ut_find k (il_cache l)" "\<lambda>_. True" "\<lambda>l k. snd (ip_lru_find_entry l k)"
  "ip_lru_add True True"
proof
  fix s k v
  show "nat (il_max_size (ip_lru_add True True s k v)) = nat (il_max_size s)"
    using ip_find_max [of s k]
    by (auto simp: ip_lru_add_def Let_def simp del: ip_find_max split: prod.split option.split)
qed (simp_all add: ut.find_iff ip_find_find ip_find_keys ip_add_keys ip_add_find_other
      ip_find_entry_inv ip_lru_add_inv del: not_None_eq, simp_all add: ip_lru_inv_def)

section \<open>Properties\<close>

definition ip_lru_step :: "(zdtun_ip, string) lru_op \<Rightarrow> ip_lru \<Rightarrow> ip_lru" where
  "ip_lru_step a lru = (case a of Find k \<Rightarrow> snd (ip_lru_find True lru k) | Use k v \<Rightarrow> ip_lru_add True True lru k v)"

lemma ip_lru_run: "il.run ops l = fold ip_lru_step ops l"
proof -
  have "il.step a = ip_lru_step a" for a
    by (cases a) (simp_all add: ip_lru_step_def fun_eq_iff)
  then show ?thesis by (simp add: il.run_def cong: fold_cong)
qed

text \<open>
  C21: the host name cache returns the name stored last for an address, as long as fewer than
  \<open>max_size\<close> other addresses are added or looked up in between: after \<open>ip_lru_add\<close> (which
  replaces the name of a known address instead of adding a second entry) any sequence of
  lookups and additions for other addresses leaves the name in the cache.
\<close>

theorem ip_lru_add_find:
  assumes "ip_lru_inv lru" and "\<forall>a \<in> set ops. (\<forall>k h. a = Use k h \<longrightarrow> k \<noteq> ip)"
    and "int (card (op_key ` set ops - {ip})) < il_max_size lru"
  shows "fst (ip_lru_find True (fold ip_lru_step ops (ip_lru_add True True lru ip host)) ip) = Some host"
proof -
  let ?l = "ip_lru_add True True lru ip host"
  have cap: "nat (il_max_size ?l) = nat (il_max_size lru)" by (rule il.cap_use)
  have inv: "ip_lru_inv ?l" using assms(1) by (rule ip_lru_add_inv)
  have o: "ut_keys (il_cache ?l) \<noteq> []" "last (ut_keys (il_cache ?l)) = ip"
    using assms(1) ip_add_find_same [OF assms(1), THEN ut_find_iff, of ip host]
    by (auto simp: ip_add_keys trim_def intro!: trans [OF last_tl])
  have "\<forall>a \<in> set ops. il.op_ok a \<and> \<not> op_sets ip a"
    using assms(2) by (auto simp: il.op_ok_def split: lru_op.split elim: op_sets.elims)
  from il.working_set [OF inv o this] ip_add_find_same [OF assms(1)] assms(3)
  have "ut_find ip (il_cache (fold ip_lru_step ops ?l)) = Some host"
    by (simp add: ip_lru_run cap zless_nat_eq_int_zless)
  then show ?thesis by (simp add: ip_lru_find_def)
qed

theorem ip_lru_add_find_witness:
  "fst (ip_lru_find True (fold ip_lru_step [Find 7, Use 9 ''b'', Find 9]
     (ip_lru_add True True \<lparr>il_max_size = 3, il_cache = [(8, ''old''), (7, ''c''), (6, ''d'')]\<rparr> 8 ''a'')) 8)
   = Some ''a''"
  by (rule ip_lru_add_find) (simp_all add: ip_lru_inv_def ut_keys_def card_insert_if)

end
