(* ===== verification/Checksum.thy ===== *)
theory Checksum
  imports Prelude
begin

text \<open>
  The Internet checksum and the stream framing of the tunnel library
  (\<^verbatim>\<open>submodules/zdtun/utils.c\<close>): \<open>calc_checksum\<close> against the one's complement sum of
  RFC 1071, and \<open>con_send\<close>/\<open>con_recv\<close>, which move length-prefixed obfuscated records over a
  stream socket that delivers them in arbitrary chunks.
\<close>

section \<open>Checksum\<close>

text \<open>
  The two accumulation loops over the 16-bit words and the odd byte; the list holds the bytes
  still to be read (\<open>len\<close> of them).
\<close>

fun sum_loop :: "u32 \<Rightarrow> byte list \<Rightarrow> u32" where
  "sum_loop acc (b0 # b1 # buf) = sum_loop (acc + ucast (le16 b0 b1)) buf"
| "sum_loop acc [b] = acc + ucast b"
| "sum_loop acc [] = acc"

lemma fold_word: "unat ((s AND 0xFFFF) + drop_bit 16 s :: u32) = unat s mod 65536 + unat s div 65536"
proof -
  have m: "(0xFFFF :: u32) = mask 16" by (simp add: mask_eq_exp_minus_1)
  have a: "unat (s AND 0xFFFF) = unat s mod 65536"
    unfolding m by (subst take_bit_eq_mask [symmetric]) (simp add: take_bit_eq_mod unat_mod)
  have b: "unat (drop_bit 16 s) = unat s div 65536"
    by (simp add: drop_bit_eq_div unat_div)
  have "unat s div 65536 < 65536" using unat_lt(3) [of s] by simp
  moreover have "unat s mod 65536 < 65536" by simp
  ultimately have "unat (s AND 0xFFFF) + unat (drop_bit 16 s) < 2 ^ LENGTH(32)"
    unfolding a b by simp
  then show ?thesis by (simp add: unat_add_lem [THEN iffD1] a b)
qed

lemma drop16_zero: "drop_bit 16 (s :: u32) = 0 \<longleftrightarrow> unat s < 65536"
proof -
  have "unat (drop_bit 16 s) = unat s div 65536"
    by (simp add: drop_bit_eq_div unat_div)
  then show ?thesis by (metis div_eq_0_iff unat_eq_zero zero_neq_numeral)
qed

function fold_sum :: "u32 \<Rightarrow> u32" where
  "fold_sum acc = (if drop_bit 16 acc \<noteq> 0 then fold_sum ((acc AND 0xFFFF) + drop_bit 16 acc) else acc)"
  by pat_completeness auto
termination
proof (relation "measure unat")
  fix s :: u32 assume "drop_bit 16 s \<noteq> 0"
  then have "65536 \<le> unat s" by (simp add: drop16_zero)
  then have "1 \<le> unat s div 65536" by (simp add: Suc_le_eq div_greater_zero_iff)
  then have "unat s mod 65536 + unat s div 65536 < unat s"
    using div_mult_mod_eq [of "unat s" 65536] by linarith
  then show "((s AND 0xFFFF) + drop_bit 16 s, s) \<in> measure unat" by (simp add: fold_word)
qed simp

declare fold_sum.simps [simp del]

definition calc_checksum :: "u16 \<Rightarrow> byte list \<Rightarrow> u16 \<Rightarrow> u16 option" where
  "calc_checksum start buffer len =
     (if length buffer < unat len then None
      else Some (ucast (fold_sum (sum_loop (ucast start) (take (unat len) buffer)))))"

section \<open>Framing\<close>

text \<open>
  \<open>xor_encdec\<close>: \<open>key\<close> is a C string, \<open>y\<close> the position in it; reading past its terminator is
  \<open>None\<close> (only the empty key gets there).
\<close>

fun xor_loop :: "byte list \<Rightarrow> nat \<Rightarrow> byte list \<Rightarrow> byte list option" where
  "xor_loop key y [] = Some []"
| "xor_loop key y (d # data) = do {
     k \<leftarrow> rd8 (key @ [0]) y;
     nxt \<leftarrow> rd8 (key @ [0]) (y + 1);
     rest \<leftarrow> xor_loop key (if nxt = 0 then 0 else y + 1) data;
     Some ((d XOR k) # rest) }"

definition xor_encdec :: "byte list \<Rightarrow> byte list \<Rightarrow> byte list option" where
  "xor_encdec data key = xor_loop key 0 data"

text \<open>\<open>"?!?0QAxAW1e.^9KJdma(//n PQe["\<close>.\<close>

definition ENCODE_KEY :: "byte list" where
  "ENCODE_KEY = [0x3F, 0x21, 0x3F, 0x30, 0x51, 0x41, 0x78, 0x41, 0x57, 0x31, 0x65, 0x2E, 0x5E,
     0x39, 0x4B, 0x4A, 0x64, 0x6D, 0x61, 0x28, 0x2F, 0x2F, 0x6E, 0x20, 0x50, 0x51, 0x65, 0x5B]"

text \<open>The bytes \<open>con_send\<close> hands to the socket: the size in network order, then the data.\<close>

definition con_send :: "byte list \<Rightarrow> byte list option" where
  "con_send data = do {
     enc \<leftarrow> xor_encdec data ENCODE_KEY;
     Some (put32 (htonl (of_nat (length data))) @ enc) }"

text \<open>
  The socket as the receiver sees it: the chunks that successive \<open>recv\<close> calls can return (a
  call returns at most what it asks for and leaves the rest), an error, or the end of the
  stream (no chunk left). \<open>fatal\<close> ends the process: \<open>Inl\<close> with the message's number.
\<close>

datatype recv_event = Chunk "byte list" | RecvError

datatype fatal = Recv_Error2 | Recv_Error3 | Peer_Disconnected | Packet_Too_Big

fun recv_n :: "fatal \<Rightarrow> nat \<Rightarrow> recv_event list \<Rightarrow> fatal + byte list \<times> recv_event list" where
  "recv_n err 0 s = Inr ([], s)"
| "recv_n err (Suc n) [] = Inl Peer_Disconnected"
| "recv_n err (Suc n) (RecvError # s) = Inl err"
| "recv_n err (Suc n) (Chunk [] # s) = Inl Peer_Disconnected"
| "recv_n err (Suc n) (Chunk (b # c) # s) =
     (if length c \<le> n
      then case recv_n err (n - length c) s of
             Inl e \<Rightarrow> Inl e
           | Inr (got, s') \<Rightarrow> Inr ((b # c) @ got, s')
      else Inr (take (Suc n) (b # c), Chunk (drop (Suc n) (b # c)) # s))"

definition con_recv :: "nat \<Rightarrow> recv_event list \<Rightarrow> (fatal + byte list \<times> recv_event list) option" where
  "con_recv len s =
     (case recv_n Recv_Error2 4 s of
        Inl e \<Rightarrow> Some (Inl e)
      | Inr (hdr, s') \<Rightarrow> do {
          raw \<leftarrow> rd32 hdr 0;
          let size = unat (ntohl raw);
          if len < size then Some (Inl Packet_Too_Big)
          else case recv_n Recv_Error3 size s' of
                 Inl e \<Rightarrow> Some (Inl e)
               | Inr (data, s'') \<Rightarrow> do {
                   dec \<leftarrow> xor_encdec data ENCODE_KEY;
                   Some (Inr (dec, s'')) } })"

section \<open>Lemmas\<close>

text \<open>The mathematical sum: the words in memory order, the odd byte as the low half of a word.\<close>

fun word_sum :: "byte list \<Rightarrow> nat" where
  "word_sum (b0 # b1 # buf) = unat b0 + 256 * unat b1 + word_sum buf"
| "word_sum [b] = unat b"
| "word_sum [] = 0"

lemma unat_le16: "unat (le16 a b) = unat a + 256 * unat b"
proof -
  have "le16 a b = ucast a + push_bit 8 (ucast b)"
    unfolding le16_def by (rule disjunctive_add_eq_or [symmetric])
      (intro bit_word_eqI, simp add: bit_simps byte_bit_beyond)
  moreover have "unat (ucast a :: u16) = unat a"
    using unat_lt(1) [of a] by (simp add: unsigned_ucast_eq take_bit_nat_eq_self)
  moreover have "unat (push_bit 8 (ucast b) :: u16) = 256 * unat b"
    using unat_lt(1) [of b]
    by (subst unsigned_push_bit_eq) (simp add: unsigned_ucast_eq push_bit_eq_mult take_bit_nat_eq_self)
  moreover have "unat a + 256 * unat b < 65536" using unat_lt(1) [of a] unat_lt(1) [of b] by simp
  ultimately show ?thesis by (simp add: unat_word_ariths(1))
qed


lemma word_sum_le: "2 * word_sum b \<le> 65535 * (length b + 1)"
proof (induction b rule: word_sum.induct)
  case (1 b0 b1 b)
  have "unat b0 + 256 * unat b1 \<le> 65535"
    using unat_lt(1) [of b0] unat_lt(1) [of b1] by simp
  with 1 show ?case by simp
next
  case (2 b)
  then show ?case using unat_lt(1) [of b] by simp
qed simp

lemma sum_loop_eq:
  "unat s + word_sum b < 2 ^ 32 \<Longrightarrow> unat (sum_loop s b) = unat s + word_sum b"
proof (induction s b rule: sum_loop.induct)
  case (1 s b0 b1 b)
  have e: "unat (ucast (le16 b0 b1) :: u32) = unat b0 + 256 * unat b1"
    using unat_lt(1) [of b0] unat_lt(1) [of b1]
    by (simp add: unsigned_ucast_eq unat_le16 take_bit_nat_eq_self)
  have "unat (s + ucast (le16 b0 b1)) = unat s + unat b0 + 256 * unat b1"
    using 1(2) by (simp add: unat_word_ariths(1) e)
  with 1 show ?case by simp
next
  case (2 s b)
  have "unat (ucast b :: u32) = unat b"
    using unat_lt(1) [of b] by (simp add: unsigned_ucast_eq take_bit_nat_eq_self)
  with 2 show ?case by (simp add: unat_word_ariths(1))
qed simp

text \<open>The folded sum is the one's complement representative of the sum, with 0 only for 0.\<close>

definition ones_sum :: "nat \<Rightarrow> nat" where
  "ones_sum n = (if n = 0 then 0 else (n - 1) mod 65535 + 1)"

lemma ones_sum_small: "n < 65536 \<Longrightarrow> ones_sum n = n"
  by (simp add: ones_sum_def)

lemma ones_sum_fold: "ones_sum (n mod 65536 + n div 65536) = ones_sum n"
proof -
  let ?m = "n mod 65536 + n div 65536"
  have n: "n = ?m + 65535 * (n div 65536)" using div_mult_mod_eq [of n 65536] by linarith
  show ?thesis
  proof (cases "?m = 0")
    case True
    with n have "n = 0" by linarith
    then show ?thesis by simp
  next
    case False
    then have "n - 1 = (?m - 1) + 65535 * (n div 65536)" using n by linarith
    then have "(n - 1) mod 65535 = (?m - 1) mod 65535" by (metis mod_mult_self2)
    moreover have "n \<noteq> 0" using False n by linarith
    ultimately show ?thesis using False unfolding ones_sum_def by (simp only: if_False)
  qed
qed

lemma unat_fold_sum: "unat (fold_sum s) = ones_sum (unat s)"
proof (induction s rule: fold_sum.induct)
  case (1 s)
  show ?case
  proof (cases "drop_bit 16 s = 0")
    case True
    then show ?thesis by (simp add: fold_sum.simps [of s] drop16_zero ones_sum_small)
  next
    case False
    with 1 show ?thesis by (simp add: fold_sum.simps [of s] fold_word ones_sum_fold)
  qed
qed

lemma ones_sum_le: "ones_sum n \<le> 65535"
proof -
  have "(n - 1) mod 65535 < 65535" by simp
  then have "(n - 1) mod 65535 + 1 \<le> 65535" by linarith
  then show ?thesis unfolding ones_sum_def by (simp only: split: if_split) simp
qed

lemma calc_checksum_eq:
  assumes "unat len \<le> length buf"
  shows "\<exists>c. calc_checksum start buf len = Some c \<and>
    unat c = ones_sum (unat start + word_sum (take (unat len) buf))"
proof -
  let ?b = "take (unat len) buf"
  have "unat (ucast start :: u32) = unat start"
    using unat_lt(2) [of start] by (simp add: unsigned_ucast_eq take_bit_nat_eq_self)
  moreover have "unat start + word_sum ?b < 2 ^ 32"
    using word_sum_le [of ?b] unat_lt(2) [of start] unat_lt(2) [of len] assms by simp
  ultimately have s: "unat (sum_loop (ucast start) ?b) = unat start + word_sum ?b"
    using sum_loop_eq [of "ucast start" ?b] by simp
  have "unat (ucast (fold_sum (sum_loop (ucast start) ?b)) :: u16) =
      unat (fold_sum (sum_loop (ucast start) ?b))"
    using ones_sum_le [of "unat (sum_loop (ucast start) ?b)"]
    by (subst unsigned_ucast_eq) (simp add: unat_fold_sum take_bit_nat_eq_self)
  with assms show ?thesis by (simp add: calc_checksum_def unat_fold_sum s)
qed


lemma word_sum_append:
  "even (length a) \<Longrightarrow> word_sum (a @ b) = word_sum a + word_sum b"
  by (induction a rule: word_sum.induct) auto

lemma word_sum_put16: "word_sum (put16 w) = unat w"
  using unat_le16 [of "ucast w" "ucast (drop_bit 8 w)"] by (simp add: put16_def le16_put16)

lemma unat_not: "unat (NOT w :: u16) = 65535 - unat w"
proof -
  have "unat (NOT w) = unat (- 1 - w)" unfolding not_eq_complement by (subst minus_diff_commute) (rule refl)
  also have "\<dots> = unat (- 1 :: u16) - unat w" by (rule unat_sub) simp
  also have "unat (- 1 :: u16) = 65535" by (simp add: unsigned_minus_1_eq_mask mask_eq_exp_minus_1)
  finally show ?thesis .
qed

lemma ones_sum_add_complement: "ones_sum (n + (65535 - ones_sum n)) = 65535"
proof (cases "n = 0")
  case False
  define q where "q = (n - 1) div 65535"
  have n: "n = 65535 * q + ones_sum n"
    using False div_mult_mod_eq [of "n - 1" 65535] unfolding ones_sum_def q_def by simp
  have "n + (65535 - ones_sum n) = 65535 * q + 65535"
    using n ones_sum_le [of n] by linarith
  then show ?thesis by (simp add: ones_sum_def)
qed (simp add: ones_sum_def)

lemma xor_loop_total:
  assumes "key \<noteq> []" "0 \<notin> set key" "y < length key"
  shows "\<exists>enc. xor_loop key y data = Some enc \<and> length enc = length data \<and> xor_loop key y enc = Some data"
  using assms(3)
proof (induction data arbitrary: y)
  case (Cons d data)
  let ?nxt = "(key @ [0]) ! (y + 1)"
  have "?nxt = 0 \<longleftrightarrow> \<not> y + 1 < length key"
    using Cons.prems assms(2) by (auto simp: nth_append dest: nth_mem)
  then have "(if ?nxt = 0 then 0 else y + 1) < length key" using assms(1) by auto
  from Cons.IH [OF this] obtain enc where
    "xor_loop key (if ?nxt = 0 then 0 else y + 1) data = Some enc" "length enc = length data"
    "xor_loop key (if ?nxt = 0 then 0 else y + 1) enc = Some data" by blast
  with Cons.prems show ?case by (simp add: rd8_def xor.assoc)
qed simp

lemma xor_encdec_involution:
  "\<exists>enc. xor_encdec data ENCODE_KEY = Some enc \<and> length enc = length data \<and>
     xor_encdec enc ENCODE_KEY = Some data"
  unfolding xor_encdec_def by (rule xor_loop_total) (simp_all add: ENCODE_KEY_def)

definition stream :: "recv_event list \<Rightarrow> byte list" where
  "stream s = concat (map (\<lambda>e. case e of Chunk c \<Rightarrow> c | RecvError \<Rightarrow> []) s)"

definition live :: "recv_event list \<Rightarrow> bool" where
  "live s \<longleftrightarrow> (\<forall>e \<in> set s. \<exists>b c. e = Chunk (b # c))"

text \<open>Reading \<open>n\<close> bytes from a stream of non-empty chunks takes exactly the first \<open>n\<close> bytes.\<close>

lemma recv_n_live:
  "live s \<Longrightarrow> stream s = d @ r \<Longrightarrow> length d = n \<Longrightarrow>
     \<exists>s'. recv_n err n s = Inr (d, s') \<and> live s' \<and> stream s' = r"
proof (induction err n s arbitrary: d rule: recv_n.induct)
  case (5 err n b c s)
  then have d: "d @ r = (b # c) @ stream s" "live s" "length d = Suc n"
    by (auto simp: stream_def live_def)
  show ?case
  proof (cases "length c \<le> n")
    case True
    then obtain d' where d': "d = (b # c) @ d'" "length d' = n - length c"
      using d by (metis append_eq_append_conv_if append_take_drop_id length_Cons length_drop
          not_less_eq_eq diff_Suc_Suc append_eq_conv_conj)
    with d have "stream s = d' @ r" by simp
    from "5.IH" [OF True d(2) this d'(2)] True d'(1) show ?thesis by auto
  next
    case False
    then have "d = take (Suc n) (b # c)" "r = drop (Suc n) (b # c) @ stream s"
      using d by (simp_all add: append_eq_conv_conj)
    moreover obtain x y where "drop n c = x # y" using False by (cases "drop n c") auto
    ultimately show ?thesis using False d(2) by (auto simp: live_def stream_def)
  qed
qed (auto simp: live_def stream_def)

section \<open>Properties\<close>

text \<open>
  C22: the Internet checksum is right: filling a zero checksum field at an even offset with the
  complement of \<open>calc_checksum\<close> makes the checksum of the whole buffer all ones, which is how a
  receiver verifies it (RFC 1071). The additions never overflow 32 bits and the carry loop
  terminates, for every buffer of up to 65535 bytes and every start value.
\<close>

theorem calc_checksum_verifies:
  assumes "even (length pre)" and "length pre + 2 + length post \<le> 65535"
  shows "\<exists>c. calc_checksum start (pre @ [0, 0] @ post) (of_nat (length pre + 2 + length post)) = Some c \<and>
    calc_checksum start (pre @ put16 (NOT c) @ post) (of_nat (length pre + 2 + length post)) = Some 0xFFFF"
proof -
  let ?n = "of_nat (length pre + 2 + length post) :: u16"
  have n: "unat ?n = length pre + 2 + length post"
    using assms(2) by (simp only: unat_of_nat_small)
  let ?S = "unat start + word_sum pre + word_sum post"
  have sums: "unat start + word_sum (pre @ [0, 0] @ post) = ?S"
    using assms(1) by (simp add: word_sum_append)
  obtain c where c: "calc_checksum start (pre @ [0, 0] @ post) ?n = Some c" "unat c = ones_sum ?S"
    using calc_checksum_eq [of ?n "pre @ [0, 0] @ post" start, unfolded n] sums
    by (auto simp: add.assoc)
  have "unat start + word_sum (pre @ put16 (NOT c) @ post) = ?S + (65535 - ones_sum ?S)"
    using assms(1) by (simp add: word_sum_append word_sum_put16 unat_not c)
  with calc_checksum_eq [of ?n "pre @ put16 (NOT c) @ post" start, unfolded n]
  obtain c' where c': "calc_checksum start (pre @ put16 (NOT c) @ post) ?n = Some c'"
    and "unat c' = ones_sum (?S + (65535 - ones_sum ?S))" by auto
  then have "unat c' = 65535" by (simp only: ones_sum_add_complement)
  then have "c' = 0xFFFF" by (simp add: word_unat_eq_iff)
  with c c' show ?thesis by blast
qed

theorem calc_checksum_verifies_witness:
  "\<exists>c. calc_checksum 0 ([0x45, 0, 0, 0x1D] @ [0, 0] @ [8]) (of_nat 7) = Some c \<and>
    calc_checksum 0 ([0x45, 0, 0, 0x1D] @ put16 (NOT c) @ [8]) (of_nat 7) = Some 0xFFFF"
  using calc_checksum_verifies [of "[0x45, 0, 0, 0x1D]" "[8]" 0] by simp

text \<open>
  C23: framing round trip: whatever the chunks in which the socket delivers the bytes that
  \<open>con_send\<close> wrote (and whatever follows them in the stream), \<open>con_recv\<close> with a large enough
  buffer returns exactly the data sent, consumes exactly its bytes and never reaches one of its
  fatal exits.
\<close>

theorem con_roundtrip:
  assumes "length data < 2 ^ 32" and "length data \<le> len"
    and "con_send data = Some wire" and "live s" and "stream s = wire @ rest"
  shows "\<exists>s'. con_recv len s = Some (Inr (data, s')) \<and> live s' \<and> stream s' = rest"
proof -
  obtain enc where enc: "xor_encdec data ENCODE_KEY = Some enc" "length enc = length data"
    "xor_encdec enc ENCODE_KEY = Some data"
    using xor_encdec_involution by blast
  let ?h = "put32 (htonl (of_nat (length data)))"
  have "stream s = ?h @ (enc @ rest)" using assms(3,5) enc(1) by (simp add: con_send_def)
  from recv_n_live [OF assms(4) this] obtain s1 where
    s1: "recv_n Recv_Error2 4 s = Inr (?h, s1)" "live s1" "stream s1 = enc @ rest" by auto
  from recv_n_live [OF s1(2,3) enc(2)] obtain s2 where
    s2: "recv_n Recv_Error3 (length data) s1 = Inr (enc, s2)" "live s2" "stream s2 = rest" by blast
  have "rd32 ?h 0 = Some (htonl (of_nat (length data)))"
    using rd32_put32 [of "[]" _ "[]"] by simp
  moreover have "unat (of_nat (length data) :: u32) = length data"
    using assms(1) by (simp add: unat_of_nat_small)
  ultimately have "con_recv len s = Some (Inr (data, s2))"
    using assms(2) s1(1) s2(1) enc(3) by (simp add: con_recv_def)
  with s2 show ?thesis by blast
qed

theorem con_roundtrip_witness:
  "\<exists>wire s'. con_send [1, 2, 3] = Some wire \<and>
     con_recv 8 [Chunk (take 2 wire), Chunk (drop 2 wire)] = Some (Inr ([1, 2, 3], s'))"
proof -
  obtain wire where w: "con_send [1, 2, 3] = Some wire" "length wire = 7"
    using xor_encdec_involution [of "[1, 2, 3]"] by (auto simp: con_send_def)
  then obtain a b c w' where "wire = a # b # c # w'"
    by (cases wire; cases "tl wire"; cases "tl (tl wire)") auto
  with con_roundtrip [of "[1, 2, 3]" 8 wire "[Chunk (take 2 wire), Chunk (drop 2 wire)]" "[]"] w(1)
  show ?thesis by (auto simp: live_def stream_def)
qed

end
