(* ===== verification/Port_Map.thy ===== *)
theory Port_Map
  imports Zdtun_Pkt
begin

text \<open>
  Destination port redirection (\<^verbatim>\<open>core/port_map.c\<close>): one list of mappings per protocol, filled
  at start-up, searched for every new connection; a hit installs a DNAT target on the zdtun
  connection (\<open>zdtun_conn_dnat\<close>). The outcome of \<open>pd_realloc\<close> is an argument.
\<close>

record port_map_t =
  redirect_ip :: zdtun_ip
  pm_ipver :: int
  orig_port :: int
  redirect_port :: int

record mappings =
  map_tcp :: "port_map_t list"
  map_udp :: "port_map_t list"

text \<open>\<open>htons\<close> of an \<open>int\<close>: the argument is converted to 16 bits, the result widened again.\<close>

definition htons_int :: "int \<Rightarrow> int" where
  "htons_int p = uint (htons (word_of_int p))"

definition get_map_list :: "int \<Rightarrow> mappings \<Rightarrow> port_map_t list option" where
  "get_map_list proto m =
     (if proto = 6 then Some (map_tcp m) else if proto = 17 then Some (map_udp m) else None)"

definition set_map_list :: "int \<Rightarrow> port_map_t list \<Rightarrow> mappings \<Rightarrow> mappings" where
  "set_map_list proto l m = (if proto = 6 then m\<lparr>map_tcp := l\<rparr> else m\<lparr>map_udp := l\<rparr>)"

text \<open>When \<open>pd_realloc\<close> fails the list is dropped (its old memory is lost).\<close>

definition pd_add_port_map ::
    "bool \<Rightarrow> int \<Rightarrow> int \<Rightarrow> int \<Rightarrow> int \<Rightarrow> zdtun_ip \<Rightarrow> mappings \<Rightarrow> bool \<times> mappings" where
  "pd_add_port_map realloc_ok ver proto oport rport ip m =
     (case get_map_list proto m of
        None \<Rightarrow> (False, m)
      | Some items \<Rightarrow>
          if \<not> realloc_ok then (False, set_map_list proto [] m)
          else (True, set_map_list proto
                 (items @ [\<lparr>redirect_ip = ip, pm_ipver = ver, orig_port = htons_int oport,
                            redirect_port = htons_int rport\<rparr>]) m))"

text \<open>The DNAT target of a zdtun connection (\<open>proxy_t\<close>; \<open>uint16_t\<close> port, \<open>uint8_t\<close> version).\<close>

record dnat_proxy =
  dp_ip :: zdtun_ip
  dp_port :: u16
  dp_ipver :: u8

record dnat_conn =
  dc_tuple :: zdtun_5tuple
  dc_dnat :: "dnat_proxy option"

definition zdtun_conn_dnat :: "dnat_conn \<Rightarrow> zdtun_ip \<Rightarrow> u16 \<Rightarrow> u8 \<Rightarrow> dnat_conn" where
  "zdtun_conn_dnat conn ip port v = conn\<lparr>dc_dnat := Some \<lparr>dp_ip = ip, dp_port = port, dp_ipver = v\<rparr>\<rparr>"

fun check_loop :: "dnat_conn \<Rightarrow> port_map_t list \<Rightarrow> bool \<times> dnat_conn" where
  "check_loop conn [] = (False, conn)"
| "check_loop conn (mapping # items) =
     (if orig_port mapping = uint (dst_port (dc_tuple conn))
      then (True, zdtun_conn_dnat conn (redirect_ip mapping) (word_of_int (redirect_port mapping))
                    (word_of_int (pm_ipver mapping)))
      else check_loop conn items)"

definition pd_check_port_map :: "mappings \<Rightarrow> dnat_conn \<Rightarrow> bool \<times> dnat_conn" where
  "pd_check_port_map m conn =
     (case get_map_list (uint (ipproto (dc_tuple conn))) m of
        None \<Rightarrow> (False, conn)
      | Some items \<Rightarrow> check_loop conn items)"

definition clear_map_list :: "port_map_t list \<Rightarrow> port_map_t list" where
  "clear_map_list l = []"

definition pd_reset_port_map :: "mappings \<Rightarrow> mappings" where
  "pd_reset_port_map m = m\<lparr>map_tcp := clear_map_list (map_tcp m), map_udp := clear_map_list (map_udp m)\<rparr>"

section \<open>Lemmas\<close>

lemma check_loop_find:
  "check_loop conn items =
     (case find (\<lambda>mp. orig_port mp = uint (dst_port (dc_tuple conn))) items of
        None \<Rightarrow> (False, conn)
      | Some mp \<Rightarrow> (True, zdtun_conn_dnat conn (redirect_ip mp) (word_of_int (redirect_port mp))
                           (word_of_int (pm_ipver mp))))"
  by (induction items) auto

lemma find_append: "find P (xs @ ys) = (case find P xs of None \<Rightarrow> find P ys | Some x \<Rightarrow> Some x)"
  by (induction xs) auto

lemma htons_int_back [simp]: "word_of_int (htons_int p) = htons (word_of_int p)"
  by (simp add: htons_int_def)

lemma htons_int_eq: "htons_int p = uint w \<longleftrightarrow> word_of_int p = ntohs w"
proof -
  have "htons_int p = uint w \<longleftrightarrow> htons (word_of_int p) = w"
    by (simp add: htons_int_def word_uint_eq_iff)
  then show ?thesis using bswap16_eq_iff [of "word_of_int p" "ntohs w"] by simp
qed

lemma get_set_map_list:
  "get_map_list q m \<noteq> None \<Longrightarrow>
     get_map_list p (set_map_list q l m) = (if p = q then Some l else get_map_list p m)"
  by (auto simp: get_map_list_def set_map_list_def split: if_splits)

lemma check_reset: "pd_check_port_map (pd_reset_port_map m) conn = (False, conn)"
  by (simp add: pd_check_port_map_def pd_reset_port_map_def clear_map_list_def get_map_list_def)

section \<open>Properties\<close>


definition dns_conn :: dnat_conn where
  "dns_conn = \<lparr>dc_tuple = \<lparr>src_ip = 1, dst_ip = 2, src_port = 0xE803, dst_port = 0x3500, ipver = 4,
     ipproto = 17\<rparr>, dc_dnat = None\<rparr>"


end
