(* ===== verification/Io_Utils.thy ===== *)
theory Io_Utils
  imports Prelude Complex_Main
begin

text \<open>
  The helpers of \<^verbatim>\<open>common/utils.c\<close>: retrying reads and writes, log levels, human-readable
  sizes and hex dumps. A file descriptor is the sequence of results that successive system
  calls on it return; a loop that needs more results than the sequence has is still waiting
  in the kernel (\<open>None\<close>).
\<close>

section \<open>Retrying I/O\<close>

datatype errno = EINTR | OtherErr int

datatype io_res = IoErr errno | IoOk nat

text \<open>
  \<open>xwrite\<close>: the bytes the kernel accepted, with the return value. A \<open>write\<close> never accepts more
  than it is offered, hence the \<open>min\<close>.
\<close>

fun xwrite_loop :: "io_res list \<Rightarrow> byte list \<Rightarrow> byte list \<Rightarrow> (int \<times> byte list) option" where
  "xwrite_loop [] buf done = None"
| "xwrite_loop (IoErr e # rs) buf done =
     (if e = EINTR then (if buf = [] then Some (0, done) else xwrite_loop rs buf done)
      else Some (-1, done))"
| "xwrite_loop (IoOk n # rs) buf done =
     (let ret = min n (length buf); done' = done @ take ret buf; buf' = drop ret buf
      in if buf' \<noteq> [] \<and> ret \<noteq> 0 then xwrite_loop rs buf' done'
         else Some (if buf' \<noteq> [] then -1 else 0, done'))"

definition xwrite :: "io_res list \<Rightarrow> byte list \<Rightarrow> (int \<times> byte list) option" where
  "xwrite fd buf = xwrite_loop fd buf []"

text \<open>
  \<open>xread\<close>: each successful \<open>read\<close> returns a chunk, at most as long as was asked for; an empty
  chunk is the end of the file.
\<close>

datatype read_res = RdErr errno | RdOk "byte list"

fun xread_loop :: "read_res list \<Rightarrow> nat \<Rightarrow> byte list \<Rightarrow> (int \<times> byte list) option" where
  "xread_loop [] count sofar = None"
| "xread_loop (RdErr e # rs) count sofar =
     (if e = EINTR then (if length sofar = count then Some (int count, sofar) else xread_loop rs count sofar)
      else Some (-1, sofar))"
| "xread_loop (RdOk c # rs) count sofar =
     (let got = take (count - length sofar) c; sofar' = sofar @ got
      in if length sofar' \<noteq> count \<and> got \<noteq> [] then xread_loop rs count sofar'
         else if length sofar' \<noteq> count then Some (if got = [] then 0 else -1, sofar')
         else Some (int count, sofar'))"

definition xread :: "read_res list \<Rightarrow> nat \<Rightarrow> (int \<times> byte list) option" where
  "xread fd count = xread_loop fd count []"

section \<open>Log levels, sizes, dumps\<close>

definition loglvl2char :: "int \<Rightarrow> char" where
  "loglvl2char lvl = (if lvl = 3 then CHR ''D'' else if lvl = 4 then CHR ''I''
     else if lvl = 5 then CHR ''W'' else if lvl = 6 then CHR ''E''
     else if lvl = 7 then CHR ''F'' else CHR ''?'')"

text \<open>What \<open>log_android\<close> passes to the callback: nothing below the level.\<close>

definition log_android :: "int \<Rightarrow> bool \<Rightarrow> int \<Rightarrow> string \<Rightarrow> (int \<times> string) option" where
  "log_android loglevel has_callback lvl line =
     (if loglevel \<le> lvl \<and> has_callback then Some (lvl, take 1023 line) else None)"

definition suffixes :: "string list" where
  "suffixes = [''B'', ''KB'', ''MB'', ''GB'', ''TB'']"

fun human_loop :: "nat \<Rightarrow> nat \<Rightarrow> rat \<Rightarrow> nat \<times> rat" where
  "human_loop 0 i bytes = (i, bytes)"
| "human_loop (Suc n) i bytes = (if 1024 \<le> bytes then human_loop n (i + 1) (bytes / 1024) else (i, bytes))"

text \<open>\<open>humanSize\<close>: the value and suffix printed; \<open>None\<close> is a read past the suffix table.\<close>

definition humanSize :: "rat \<Rightarrow> (rat \<times> string) option" where
  "humanSize bytes = (case human_loop (length suffixes) 0 bytes of (i, b) \<Rightarrow>
     if i < length suffixes then Some (b, suffixes ! i) else None)"

text \<open>
  \<open>hexdump\<close>: the lines logged. \<open>out\<close> is the content of the line buffer (\<open>char out[64]\<close>) up to
  \<open>idx\<close>; \<open>None\<close> is a store past its end (the terminator needs a place too).
\<close>

definition hex :: string where "hex = ''0123456789abcdef''"

fun hex_digits :: "nat \<Rightarrow> nat \<Rightarrow> string" where
  "hex_digits 0 n = []"
| "hex_digits (Suc k) n = hex_digits k (n div 16) @ [hex ! (n mod 16)]"

fun hex_width :: "nat \<Rightarrow> nat \<Rightarrow> nat" where
  "hex_width 0 n = 0"
| "hex_width (Suc fuel) n = (if n < 16 then 1 else Suc (hex_width fuel (n div 16)))"

definition fmt_off :: "nat \<Rightarrow> string" where
  "fmt_off off = hex_digits (max 6 (hex_width 16 off)) off"

definition hex_byte :: "byte \<Rightarrow> string" where
  "hex_byte b = [CHR '' '', hex ! unat (drop_bit 4 b), hex ! unat (b AND 0x0F)]"

definition line_ok :: "string \<Rightarrow> string option" where
  "line_ok out = (if length out < 64 then Some out else None)"

fun hexdump_loop :: "nat \<Rightarrow> string \<Rightarrow> byte list \<Rightarrow> string list option" where
  "hexdump_loop off out [] =
     (if off mod 16 \<noteq> 0
      then do { l \<leftarrow> line_ok out; l2 \<leftarrow> line_ok (fmt_off off); Some [l, l2] }
      else do { l \<leftarrow> line_ok out; Some [l] })"
| "hexdump_loop off out (b # buf) =
     (if off mod 16 = 0
      then if 0 < off then do {
             l \<leftarrow> line_ok out;
             rest \<leftarrow> hexdump_loop (off + 1) (fmt_off off @ hex_byte b) buf;
             Some (l # rest) }
           else hexdump_loop (off + 1) (fmt_off off @ hex_byte b) buf
      else hexdump_loop (off + 1) (out @ hex_byte b) buf)"

definition hexdump :: "byte list \<Rightarrow> string list option" where
  "hexdump buf = hexdump_loop 0 [] buf"

section \<open>Lemmas\<close>

lemma xwrite_loop_sound:
  "xwrite_loop rs buf done = Some (rv, out) \<Longrightarrow>
     (\<exists>k. out = done @ take k buf) \<and> (rv = 0 \<longrightarrow> out = done @ buf) \<and> rv \<in> {0, -1}"
proof (induction rs buf "done" arbitrary: rv out rule: xwrite_loop.induct)
  case (3 n rs buf "done")
  let ?r = "min n (length buf)"
  show ?case
  proof (cases "drop ?r buf \<noteq> [] \<and> ?r \<noteq> 0")
    case True
    with "3.prems" have "xwrite_loop rs (drop ?r buf) (done @ take ?r buf) = Some (rv, out)"
      by (simp add: Let_def)
    from "3.IH" [OF refl refl refl True this] obtain k where
      "out = (done @ take ?r buf) @ take k (drop ?r buf)" "rv = 0 \<longrightarrow> out = done @ buf" "rv \<in> {0, -1}"
      by auto
    moreover have "take ?r buf @ take k (drop ?r buf) = take (?r + k) buf" by (simp add: take_add)
    ultimately show ?thesis by (metis append.assoc)
  next
    case False
    with "3.prems" show ?thesis
      by (auto simp: Let_def split: if_splits intro: exI [of _ "length buf"] exI [of _ "0 :: nat"])
  qed
qed (auto split: if_splits intro: exI [of _ "0 :: nat"])

text \<open>Progress: results that are not errors other than \<open>EINTR\<close> and not empty writes.\<close>

definition progress :: "io_res \<Rightarrow> bool" where
  "progress r \<longleftrightarrow> (case r of IoErr e \<Rightarrow> e = EINTR | IoOk n \<Rightarrow> 0 < n)"

lemma xwrite_loop_progress:
  "\<forall>r \<in> set rs. progress r \<Longrightarrow> length buf \<le> length (filter (\<lambda>r. r \<noteq> IoErr EINTR) rs) \<Longrightarrow> buf \<noteq> [] \<Longrightarrow>
     xwrite_loop rs buf done = Some (0, done @ buf)"
proof (induction rs buf "done" rule: xwrite_loop.induct)
  case (3 n rs buf "done")
  let ?r = "min n (length buf)"
  have r: "0 < ?r" using 3 by (auto simp: progress_def)
  show ?case
  proof (cases "drop ?r buf = []")
    case False
    with "3.prems" r have "xwrite_loop rs (drop ?r buf) (done @ take ?r buf) = Some (0, (done @ take ?r buf) @ drop ?r buf)"
      by (intro "3.IH") auto
    with False r show ?thesis by (simp add: Let_def)
  qed (auto simp: Let_def)
qed (auto simp: progress_def)

lemma xread_loop_sound:
  "xread_loop rs count sofar = Some (rv, out) \<Longrightarrow> length sofar < count \<Longrightarrow>
     (0 < rv \<longleftrightarrow> length out = count) \<and> (0 < rv \<longrightarrow> rv = int count) \<and> length out \<le> count"
proof (induction rs count sofar arbitrary: rv out rule: xread_loop.induct)
  case (2 e rs count sofar)
  then show ?case by (auto split: if_splits)
next
  case (3 c rs count sofar)
  show ?case
  proof (cases "length (sofar @ take (count - length sofar) c) \<noteq> count \<and> take (count - length sofar) c \<noteq> []")
    case True
    with "3.prems"(1) have "xread_loop rs count (sofar @ take (count - length sofar) c) = Some (rv, out)"
      by (simp add: Let_def)
    moreover have "length (sofar @ take (count - length sofar) c) < count"
      using True "3.prems"(2) by auto
    ultimately show ?thesis using "3.IH" [OF refl refl True] by auto
  next
    case False
    with "3.prems" show ?thesis by (auto simp: Let_def split: if_splits)
  qed
qed auto


lemma length_suffixes [simp]: "length suffixes = 5"
  by (simp add: suffixes_def)

lemma human_loop_bounds:
  "human_loop n i b = (j, c) \<Longrightarrow> i \<le> j \<and> j \<le> i + n \<and> c * 1024 ^ (j - i) = b \<and>
     (j < i + n \<longrightarrow> c < 1024) \<and> (i < j \<longrightarrow> 1 \<le> c)"
proof (induction n i b rule: human_loop.induct)
  case (2 n i b)
  show ?case
  proof (cases "1024 \<le> b")
    case True
    with 2 have ih: "i + 1 \<le> j" "j \<le> i + 1 + n" "c * 1024 ^ (j - (i + 1)) = b / 1024"
      "j < i + 1 + n \<longrightarrow> c < 1024" "i + 1 < j \<longrightarrow> 1 \<le> c" by auto
    have "(1024 :: rat) ^ (j - i) = 1024 * 1024 ^ (j - (i + 1))"
      using ih(1) by (metis Suc_diff_Suc Suc_eq_plus1 Suc_le_lessD power_Suc)
    then have "c * 1024 ^ (j - i) = b" using ih(3) by (simp add: field_simps)
    moreover have "1 \<le> c"
      using ih True by (cases "j = i + 1") auto
    ultimately show ?thesis using ih by auto
  qed (use 2 in auto)
qed auto

lemma hex_length [simp]: "length (hex_digits k n) = k" "length (hex_byte b) = 3"
  by (induction k arbitrary: n) (simp_all add: hex_byte_def)

lemma hex_width_le: "n < 16 ^ k \<Longrightarrow> 0 < k \<Longrightarrow> hex_width f n \<le> k"
proof (induction f n arbitrary: k rule: hex_width.induct)
  case (2 f n)
  then obtain k' where k: "k = Suc k'" by (cases k) auto
  then have "n div 16 < 16 ^ k'" using 2(2) by (simp add: less_mult_imp_div_less mult.commute)
  moreover have "0 < k'" if "\<not> n < 16" using that 2(2) k by (cases k') auto
  ultimately show ?case using 2(1) [of k'] k by auto
qed simp

lemma fmt_off_length: "off < 16 ^ 15 \<Longrightarrow> length (fmt_off off) \<le> 15"
  using hex_width_le [of off 15 16] by (simp add: fmt_off_def)

lemma hexdump_loop_ok:
  assumes "off + length buf < 16 ^ 15"
    and "length out \<le> 15 + 3 * (if off mod 16 = 0 \<and> 0 < off then 16 else off mod 16)"
  shows "hexdump_loop off out buf \<noteq> None"
  using assms
proof (induction off out buf rule: hexdump_loop.induct)
  case (1 off out)
  have "off mod 16 < 16" by simp
  then have "length out < 64" using 1(2) by (auto split: if_splits)
  moreover have "length (fmt_off off) < 64" using fmt_off_length [of off] 1(1) by simp
  ultimately show ?case by (simp add: line_ok_def)
next
  case (2 off out b buf)
  have new: "(if (off + 1) mod 16 = 0 \<and> 0 < off + 1 then 16 else (off + 1) mod 16) = off mod 16 + 1"
    by (simp add: mod_Suc)
  show ?case
  proof (cases "off mod 16 = 0")
    case True
    have l: "length (fmt_off off @ hex_byte b) \<le> 15 + 3 * (off mod 16 + 1)"
      using fmt_off_length [of off] 2(4) by simp
    have "length out < 64" using 2(5) True by (auto split: if_splits)
    with True 2(1,2,4) l new show ?thesis
      by (cases "off = 0") (auto simp: line_ok_def)
  next
    case False
    with 2(3,4,5) new show ?thesis by simp
  qed
qed

section \<open>Properties\<close>



text \<open>
  C26: \<open>xread\<close> reports a positive count exactly when the buffer was filled completely, never
  stores more than \<open>count\<close> bytes, and otherwise returns 0 (end of file, also in the middle
  of a record) or -1.
\<close>

theorem xread_fills:
  assumes "xread fd count = Some (rv, out)" and "0 < count"
  shows "(0 < rv \<longleftrightarrow> length out = count) \<and> (0 < rv \<longrightarrow> rv = int count) \<and> length out \<le> count"
  using xread_loop_sound [of fd count "[]" rv out] assms by (auto simp: xread_def)

theorem xread_fills_witness:
  "xread [RdOk [1, 2], RdErr EINTR, RdOk [3]] 3 = Some (3, [1, 2, 3]) \<and> length [1, 2, 3 :: byte] = 3"
  using xread_fills [of "[RdOk [1, 2], RdErr EINTR, RdOk [3]]" 3 3 "[1, 2, 3]"]
  by (simp add: xread_def Let_def)

text \<open>
  C28: \<open>humanSize\<close> reads past its table of five suffixes exactly for sizes of 1024 TB and more;
  below that the value printed with the suffix is the size, scaled into [1, 1024) (or a plain
  number of bytes).
\<close>

theorem humanSize_defined:
  assumes "0 \<le> bytes"
  shows "(humanSize bytes = None \<longleftrightarrow> 1024 ^ 5 \<le> bytes) \<and>
    (\<forall>v s. humanSize bytes = Some (v, s) \<longrightarrow>
       (\<exists>i < 5. s = suffixes ! i \<and> v * 1024 ^ i = bytes \<and> v < 1024 \<and> (0 < i \<longrightarrow> 1 \<le> v)))"
proof -
  obtain j c where jc: "human_loop 5 0 bytes = (j, c)" by force
  have b: "j \<le> 5" "c * 1024 ^ j = bytes" "j < 5 \<longrightarrow> c < 1024" "0 < j \<longrightarrow> 1 \<le> c"
    using human_loop_bounds [OF jc] by auto
  have "1024 ^ 5 \<le> bytes \<longleftrightarrow> j = 5"
  proof
    assume "j = 5"
    then have "1 * 1024 ^ 5 \<le> c * (1024 :: rat) ^ 5" using b by (intro mult_right_mono) auto
    then show "1024 ^ 5 \<le> bytes" using b(2) \<open>j = 5\<close> by simp
  next
    assume "1024 ^ 5 \<le> bytes"
    show "j = 5"
    proof (rule ccontr)
      assume "j \<noteq> 5"
      then have "j \<le> 4" "c < 1024" using b by auto
      then have "c * 1024 ^ j < 1024 * (1024 :: rat) ^ j" by simp
      also have "\<dots> \<le> 1024 * 1024 ^ 4" using \<open>j \<le> 4\<close> by (intro mult_left_mono power_increasing) auto
      finally show False using b(2) \<open>1024 ^ 5 \<le> bytes\<close> by simp
    qed
  qed
  then show ?thesis using jc b by (auto simp: humanSize_def)
qed

theorem humanSize_defined_witness:
  "humanSize (3 * 1024 ^ 2) = Some (3, ''MB'') \<and> humanSize (2 * 1024 ^ 5) = None"
  using humanSize_defined [of "2 * 1024 ^ 5"] by (simp add: humanSize_def) (simp add: suffixes_def eval_nat_numeral)

text \<open>
  C27: \<open>hexdump\<close> never writes past its 64-character line buffer, for every buffer below
  \<open>16 ^ 15\<close> bytes (every size an allocation can have).
\<close>

theorem hexdump_in_bounds:
  assumes "length buf < 16 ^ 15"
  shows "hexdump buf \<noteq> None"
  unfolding hexdump_def using assms by (intro hexdump_loop_ok) auto

theorem hexdump_in_bounds_witness:
  "\<exists>lines. hexdump (replicate 17 0xAB) = Some lines"
  using hexdump_in_bounds [of "replicate 17 0xAB"] by simp

end
