(* ===== verification/Pcap_Dump.thy ===== *)
theory Pcap_Dump
  imports Prelude Crc32
begin

text \<open>
  The packet dumper (\<^verbatim>\<open>core/pcap_dump.c\<close>): PCAP records (optionally with a bogus Ethernet header
  and the PCAPdroid trailer) and PCAPNG blocks are assembled in a fixed buffer and handed to the
  dump callback; TLS key log entries are collected in a second buffer and exported as decryption
  secrets blocks. The buffers are byte lists of their allocated size, written in place, so a
  store outside is \<open>None\<close> and bytes that no store covers keep their previous content. The
  results of the allocations, the clock and the application name are arguments; \<open>d_out\<close> records the
  callback's invocations. Sizes in bytes are \<open>nat\<close> (\<open>dump_size\<close> and \<open>max_dump_size\<close> are
  64-bit counters of bytes written).
\<close>

datatype pcap_dump_mode = PCAP_DUMP | PCAP_DUMP_WITH_TRAILER | PCAPNG_DUMP

datatype dump_event = Secrets "byte list" | Packets "byte list"

record pcap_dumper =
  d_mode :: pcap_dump_mode
  d_cb :: bool
  d_snaplen :: nat
  max_dump_size :: nat
  dump_size :: nat
  last_dump_ms :: nat
  d_buffer :: "byte list"
  buffer_idx :: nat
  keylog_buf :: "byte list option"
  keylog_idx :: nat
  d_out :: "dump_event list"

definition PCAP_BUFFER_SIZE :: nat where "PCAP_BUFFER_SIZE = 512 * 1024"
definition PCAP_BUFFER_ALMOST_FULL_SIZE :: nat where "PCAP_BUFFER_ALMOST_FULL_SIZE = 450 * 1024"
definition KEYLOG_BUFFER_HEADROOM :: nat where "KEYLOG_BUFFER_HEADROOM = 16"
definition KEYLOG_BUFFER_TAILROOM :: nat where "KEYLOG_BUFFER_TAILROOM = 8"
definition MAX_PCAP_DUMP_DELAY_MS :: nat where "MAX_PCAP_DUMP_DELAY_MS = 1000"

lemmas dump_consts = PCAP_BUFFER_SIZE_def PCAP_BUFFER_ALMOST_FULL_SIZE_def
  KEYLOG_BUFFER_HEADROOM_def KEYLOG_BUFFER_TAILROOM_def MAX_PCAP_DUMP_DELAY_MS_def

text \<open>
  \<open>pcap_new_dumper\<close>: the content of the fresh buffer is unspecified (\<open>junk\<close>); \<open>None\<close> as its
  argument is a failed allocation.
\<close>

definition pcap_new_dumper ::
    "bool \<Rightarrow> byte list option \<Rightarrow> bool \<Rightarrow> pcap_dump_mode \<Rightarrow> nat \<Rightarrow> nat \<Rightarrow> bool \<Rightarrow> pcap_dumper option" where
  "pcap_new_dumper calloc_ok junk mutex_ok mode snaplen max_size has_cb =
     (if \<not> calloc_ok then None
      else case junk of
        None \<Rightarrow> None
      | Some buf \<Rightarrow>
          if \<not> mutex_ok then None
          else Some \<lparr>d_mode = mode, d_cb = has_cb, d_snaplen = snaplen, max_dump_size = max_size,
                     dump_size = 0, last_dump_ms = 0, d_buffer = buf, buffer_idx = 0,
                     keylog_buf = None, keylog_idx = 0, d_out = []\<rparr>)"

section \<open>Export\<close>

definition emit :: "dump_event \<Rightarrow> pcap_dumper \<Rightarrow> pcap_dumper" where
  "emit ev d = (if d_cb d then d\<lparr>d_out := d_out d @ [ev]\<rparr> else d)"

definition export_keylog_buffer :: "pcap_dumper \<Rightarrow> pcap_dumper option" where
  "export_keylog_buffer d =
     (if keylog_idx d = 0 then Some d
      else let sec_len = keylog_idx d; padding = pad4 sec_len;
               block_size = 16 + sec_len + padding + 4
           in if 0 < max_dump_size d \<and> max_dump_size d \<le> dump_size d + block_size
              then Some (d\<lparr>keylog_idx := 0\<rparr>)
              else do {
                kb \<leftarrow> keylog_buf d;
                b1 \<leftarrow> wr kb 0 (put32 0x0000000A @ put32 (of_nat block_size) @ put32 0x544c534b
                               @ put32 (of_nat sec_len));
                b2 \<leftarrow> wr b1 (KEYLOG_BUFFER_HEADROOM + sec_len) (replicate padding 0);
                b3 \<leftarrow> wr b2 (KEYLOG_BUFFER_HEADROOM + sec_len + padding) (put32 (of_nat block_size));
                Some (emit (Secrets (take block_size b3))
                       (d\<lparr>keylog_buf := Some b3, dump_size := dump_size d + block_size,
                          keylog_idx := 0\<rparr>)) })"

definition export_buffer :: "nat \<Rightarrow> pcap_dumper \<Rightarrow> pcap_dumper option" where
  "export_buffer now_ms d0 = do {
     d \<leftarrow> export_keylog_buffer d0;
     if buffer_idx d = 0 then Some d
     else Some ((emit (Packets (take (buffer_idx d) (d_buffer d))) d)
                  \<lparr>buffer_idx := 0, last_dump_ms := now_ms\<rparr>) }"

definition pcap_destroy_dumper :: "nat \<Rightarrow> pcap_dumper \<Rightarrow> dump_event list option" where
  "pcap_destroy_dumper now_ms d = do { d' \<leftarrow> export_buffer now_ms d; Some (d_out d') }"

text \<open>\<open>now_ms - last_dump_ms\<close> is a 64-bit unsigned difference of a clock that only advances.\<close>

definition pcap_check_export :: "nat \<Rightarrow> pcap_dumper \<Rightarrow> (bool \<times> pcap_dumper) option" where
  "pcap_check_export now_ms d =
     (if 0 < buffer_idx d \<and> MAX_PCAP_DUMP_DELAY_MS \<le> now_ms - last_dump_ms d \<or>
         PCAP_BUFFER_ALMOST_FULL_SIZE < keylog_idx d
      then do { d' \<leftarrow> export_buffer now_ms d; Some (True, d') }
      else Some (False, d))"

definition pcap_get_dump_size :: "pcap_dumper \<Rightarrow> nat" where
  "pcap_get_dump_size d = dump_size d"

section \<open>Preambles\<close>

text \<open>\<open>strlen\<close> results are cut to 16 bits by \<open>pcapng_option\<close>'s argument.\<close>

record pcapng_opt =
  o_type :: u16
  o_length :: u16
  o_padding :: nat
  o_tot_length :: u16
  o_data :: "byte list"

definition pcapng_option :: "u16 \<Rightarrow> byte list \<Rightarrow> pcapng_opt" where
  "pcapng_option ty data =
     (let len = of_nat (length data) :: u16; padding = pad4 (unat len)
      in \<lparr>o_type = ty, o_length = len, o_padding = padding,
          o_tot_length = 4 + len + of_nat padding, o_data = data\<rparr>)"

text \<open>The bytes stored at the write position; the position advances by \<open>tot_length\<close>.\<close>

definition write_pcapng_opt :: "byte list \<Rightarrow> nat \<Rightarrow> pcapng_opt \<Rightarrow> (byte list \<times> nat) option" where
  "write_pcapng_opt buf i opt = do {
     b1 \<leftarrow> wr buf i (put16 (o_type opt) @ put16 (o_length opt) @ take (unat (o_length opt)) (o_data opt)
                     @ replicate (o_padding opt) 0);
     Some (b1, i + unat (o_tot_length opt)) }"

definition get_pcap_file_header :: "pcap_dumper \<Rightarrow> byte list" where
  "get_pcap_file_header d =
     put32 0xa1b2c3d4 @ put16 2 @ put16 4 @ put32 0 @ put32 0 @ put32 (of_nat (d_snaplen d)) @
     put32 (if d_mode d = PCAP_DUMP_WITH_TRAILER then 1 else 101)"

definition get_pcapng_preamble ::
    "byte list \<Rightarrow> byte list \<Rightarrow> byte list \<Rightarrow> (nat \<Rightarrow> byte list) \<Rightarrow> pcap_dumper \<Rightarrow> byte list option" where
  "get_pcapng_preamble pd_device pd_os pd_appver malloc d =
     (let shb_hw = pcapng_option 2 pd_device; shb_os = pcapng_option 3 pd_os;
          shb_app = pcapng_option 4 pd_appver;
          shb_length = 24 + unat (o_tot_length shb_hw) + unat (o_tot_length shb_os)
                       + unat (o_tot_length shb_app) + 4;
          idb_length = 16 + 4
      in do {
        b0 \<leftarrow> wr (malloc (shb_length + idb_length)) 0
               (put32 0x0A0D0D0A @ put32 (of_nat shb_length) @ put32 0x1a2b3c4d @ put16 1 @ put16 0
                @ put64 (- 1));
        (b1, p1) \<leftarrow> write_pcapng_opt b0 24 shb_hw;
        (b2, p2) \<leftarrow> write_pcapng_opt b1 p1 shb_os;
        (b3, p3) \<leftarrow> write_pcapng_opt b2 p2 shb_app;
        b4 \<leftarrow> wr b3 p3 (put32 (of_nat shb_length));
        wr b4 (p3 + 4) (put32 1 @ put32 20 @ put16 101 @ put16 0 @ put32 (of_nat (d_snaplen d)) @ put32 20) })"

definition pcap_get_preamble ::
    "byte list \<Rightarrow> byte list \<Rightarrow> byte list \<Rightarrow> (nat \<Rightarrow> byte list) \<Rightarrow> pcap_dumper \<Rightarrow> byte list option" where
  "pcap_get_preamble pd_device pd_os pd_appver malloc d =
     (if d_mode d = PCAPNG_DUMP then get_pcapng_preamble pd_device pd_os pd_appver malloc d
      else Some (get_pcap_file_header d))"

section \<open>Packet records\<close>

definition pcap_rec_size :: "pcap_dumper \<Rightarrow> nat \<Rightarrow> nat" where
  "pcap_rec_size d pkt_len0 =
     (let pkt_len = min pkt_len0 (d_snaplen d)
      in if d_mode d = PCAPNG_DUMP then 28 + 4 + pkt_len + pad4 pkt_len
         else let n = (if d_mode d = PCAP_DUMP_WITH_TRAILER
                       then let k = pkt_len + (32 + 14) in k + pad4 k else pkt_len)
              in n + 16)"

text \<open>A fixed-size C string field filled by \<open>memset\<close> and \<open>strncpy\<close>.\<close>

definition c_field :: "nat \<Rightarrow> byte list \<Rightarrow> byte list" where
  "c_field n s = take (n - 1) s @ replicate (n - length (take (n - 1) s)) 0"

text \<open>
  The frame of a PCAP record, written over the \<open>incl_len\<close> bytes the buffer holds there; returns
  \<open>orig_len\<close> and the frame.
\<close>

definition eth_header :: "byte \<Rightarrow> byte list" where
  "eth_header b0 = replicate 12 0 @ put16 (htons (if drop_bit 4 b0 = 4 then 0x0800 else 0x86DD))"

definition pcap_trailer :: "int \<Rightarrow> byte list \<Rightarrow> byte list" where
  "pcap_trailer uid appname = put32 (htonl 0x01072021) @ put32 (htonl (word_of_int uid)) @ c_field 20 appname @ put32 0"

definition pcap_frame ::
    "pcap_dump_mode \<Rightarrow> byte list \<Rightarrow> int \<Rightarrow> byte list \<Rightarrow> byte list \<Rightarrow> (nat \<times> byte list) option" where
  "pcap_frame mode pkt uid appname stale =
     (let incl_len = length stale; tr = (mode = PCAP_DUMP_WITH_TRAILER) in do {
        f1 \<leftarrow> (if tr then do { b0 \<leftarrow> rd8 pkt 0; wr stale 0 (eth_header b0) } else Some stale);
        let off1 = (if tr then 14 else 0);
        let payload_to_copy = min (length pkt) (incl_len - off1);
        f2 \<leftarrow> wr f1 off1 (take payload_to_copy pkt);
        let off2 = off1 + payload_to_copy;
        if tr \<and> 32 \<le> incl_len - off2
        then do {
          let padding = pad4 off2;
          f3 \<leftarrow> wr f2 off2 (replicate padding 0);
          f4 \<leftarrow> wr f3 (off2 + padding) (pcap_trailer uid appname);
          f5 \<leftarrow> wr f4 (off2 + padding + 28) (put32 (crc32 (take (incl_len - 4) f4) 0));
          Some (length pkt + off1 + padding + 32, f5) }
        else Some (length pkt + off1, f2) })"

definition dump_packet_pcap ::
    "pcap_dumper \<Rightarrow> byte list \<Rightarrow> u64 \<Rightarrow> u64 \<Rightarrow> int \<Rightarrow> byte list \<Rightarrow> nat \<Rightarrow> byte list option" where
  "dump_packet_pcap d pkt tv_sec tv_usec uid appname tot_rec_size =
     (let incl_len = tot_rec_size - 16; base = buffer_idx d + 16
      in if length (d_buffer d) < base + incl_len then None
         else do {
           (orig_len, frame) \<leftarrow> pcap_frame (d_mode d) pkt uid appname (take incl_len (drop base (d_buffer d)));
           b1 \<leftarrow> wr (d_buffer d) (buffer_idx d)
                  (put32 (ucast tv_sec) @ put32 (ucast tv_usec) @ put32 (of_nat incl_len) @ put32 (of_nat orig_len));
           wr b1 base frame })"

definition dump_packet_pcapng ::
    "pcap_dumper \<Rightarrow> byte list \<Rightarrow> u64 \<Rightarrow> u64 \<Rightarrow> nat \<Rightarrow> byte list option" where
  "dump_packet_pcapng d pkt tv_sec tv_usec tot_rec_size =
     (let now_usec = tv_sec * 1000000 + tv_usec;
          captured_len = min (length pkt) (d_snaplen d);
          padding = pad4 captured_len; i = buffer_idx d
      in do {
        b1 \<leftarrow> wr (d_buffer d) i
               (put32 0x00000006 @ put32 (of_nat tot_rec_size) @ put32 0
                @ put32 (ucast (drop_bit 32 now_usec)) @ put32 (ucast now_usec)
                @ put32 (of_nat captured_len) @ put32 (of_nat (length pkt)));
        b2 \<leftarrow> wr b1 (i + 28) (take captured_len pkt);
        b3 \<leftarrow> wr b2 (i + 28 + captured_len) (replicate padding 0);
        wr b3 (i + 28 + captured_len + padding) (put32 (of_nat tot_rec_size)) })"

text \<open>\<open>pcap_dump_packet\<close>; the buffer room is a difference of \<open>int\<close>s, hence the type \<open>int\<close>.\<close>

definition room :: "pcap_dumper \<Rightarrow> int" where
  "room d = int PCAP_BUFFER_SIZE - int (buffer_idx d)"

definition pcap_dump_packet ::
    "nat \<Rightarrow> byte list \<Rightarrow> pcap_dumper \<Rightarrow> byte list \<Rightarrow> u64 \<Rightarrow> u64 \<Rightarrow> int \<Rightarrow> (bool \<times> pcap_dumper) option" where
  "pcap_dump_packet now_ms appname d0 pkt tv_sec tv_usec uid =
     (let tot_rec_size = pcap_rec_size d0 (length pkt) in do {
        d \<leftarrow> (if room d0 \<le> int tot_rec_size then export_buffer now_ms d0 else Some d0);
        if room d \<le> int tot_rec_size then Some (False, d)
        else if 0 < max_dump_size d \<and> max_dump_size d \<le> dump_size d + tot_rec_size then Some (False, d)
        else do {
          b \<leftarrow> (if d_mode d = PCAPNG_DUMP then dump_packet_pcapng d pkt tv_sec tv_usec tot_rec_size
               else dump_packet_pcap d pkt tv_sec tv_usec uid appname tot_rec_size);
          (_, d') \<leftarrow> pcap_check_export now_ms
             (d\<lparr>d_buffer := b, buffer_idx := buffer_idx d + tot_rec_size,
                dump_size := dump_size d + tot_rec_size\<rparr>);
          Some (True, d') } })"

section \<open>Key log\<close>

text \<open>\<open>junk\<close> is the content of the key log buffer when it is allocated (\<open>None\<close>: failure).\<close>

definition pcap_dump_secret ::
    "byte list option \<Rightarrow> pcap_dumper \<Rightarrow> byte list \<Rightarrow> (bool \<times> pcap_dumper) option" where
  "pcap_dump_secret junk d0 sec_data =
     (case (case keylog_buf d0 of Some kb \<Rightarrow> Some kb | None \<Rightarrow> junk) of
        None \<Rightarrow> Some (False, d0)
      | Some kb \<Rightarrow>
          let d = d0\<lparr>keylog_buf := Some kb\<rparr>
          in if PCAP_BUFFER_SIZE \<le> keylog_idx d + (length sec_data + 1) then Some (False, d)
             else do {
               b1 \<leftarrow> wr kb (KEYLOG_BUFFER_HEADROOM + keylog_idx d) sec_data;
               b2 \<leftarrow> wr b1 (KEYLOG_BUFFER_HEADROOM + keylog_idx d + length sec_data) [0x0A];
               Some (True, d\<lparr>keylog_buf := Some b2, keylog_idx := keylog_idx d + length sec_data + 1\<rparr>) })"

section \<open>Record formats\<close>

text \<open>The bytes of each record, as the file formats define them.\<close>

definition epb_record :: "nat \<Rightarrow> byte list \<Rightarrow> u64 \<Rightarrow> byte list" where
  "epb_record snaplen pkt usec =
     (let data = take snaplen pkt; total = 32 + length data + pad4 (length data)
      in put32 6 @ put32 (of_nat total) @ put32 0 @ put32 (ucast (drop_bit 32 usec)) @ put32 (ucast usec)
         @ put32 (of_nat (length data)) @ put32 (of_nat (length pkt)) @ data
         @ replicate (pad4 (length data)) 0 @ put32 (of_nat total))"

definition rec_header :: "u64 \<Rightarrow> u64 \<Rightarrow> nat \<Rightarrow> nat \<Rightarrow> byte list" where
  "rec_header sec usec incl orig =
     put32 (ucast sec) @ put32 (ucast usec) @ put32 (of_nat incl) @ put32 (of_nat orig)"

definition trailer_body :: "byte list \<Rightarrow> int \<Rightarrow> byte list \<Rightarrow> byte list" where
  "trailer_body pkt uid appname =
     eth_header (hd pkt) @ pkt @ replicate (pad4 (14 + length pkt)) 0 @ put32 (htonl 0x01072021)
     @ put32 (htonl (word_of_int uid)) @ c_field 20 appname"

definition trailer_frame :: "byte list \<Rightarrow> int \<Rightarrow> byte list \<Rightarrow> byte list" where
  "trailer_frame pkt uid appname =
     trailer_body pkt uid appname @ put32 (crc32 (trailer_body pkt uid appname) 0)"

text \<open>A record; in trailer mode for packets within the snap length.\<close>

definition pcap_record :: "pcap_dump_mode \<Rightarrow> nat \<Rightarrow> byte list \<Rightarrow> u64 \<Rightarrow> u64 \<Rightarrow> int \<Rightarrow> byte list \<Rightarrow> byte list" where
  "pcap_record mode snaplen pkt sec usec uid appname =
     (case mode of
        PCAPNG_DUMP \<Rightarrow> epb_record snaplen pkt (sec * 1000000 + usec)
      | PCAP_DUMP \<Rightarrow> rec_header sec usec (length (take snaplen pkt)) (length pkt) @ take snaplen pkt
      | PCAP_DUMP_WITH_TRAILER \<Rightarrow>
          let f = trailer_frame pkt uid appname in rec_header sec usec (length f) (length f) @ f)"

section \<open>Lemmas\<close>

lemma wr_wr: "(wr b i x \<bind> (\<lambda>b1. wr b1 (i + length x) y)) = wr b i (x @ y)"
proof (cases "i + length x \<le> length b")
  case True
  then have "min (length b) i = i" "i - length b = 0" by simp_all
  with True show ?thesis by (simp add: wr_def ac_simps)
qed (simp add: wr_def)

lemma wr_wr': "wr b i x = Some b1 \<Longrightarrow> j = i + length x \<Longrightarrow> wr b1 j y = wr b i (x @ y)"
  using wr_wr [of b i x y] by simp

lemma wr_ex: "i + length bs \<le> length b \<Longrightarrow> \<exists>b'. wr b i bs = Some b' \<and> length b' = length b"
  by (simp add: wr_def)

lemma wr_at:
  "i = length a \<Longrightarrow> length bs \<le> length c \<Longrightarrow> wr (a @ c) i bs = Some (a @ bs @ drop (length bs) c)"
  by (simp add: wr_append)

lemma pad4_shift: "4 dvd k \<Longrightarrow> pad4 (n + k) = pad4 n"
proof -
  assume "4 dvd k"
  then have "4 dvd int k" by (metis int_dvd_int_iff of_nat_numeral)
  then have "(- int (n + k)) mod 4 = (- int n) mod 4" by (simp add: mod_eq_dvd_iff)
  then have "int (pad4 (n + k)) = int (pad4 n)" by (simp only: pad4_int)
  then show ?thesis by simp
qed

lemma wr_seq2: "j = length x \<Longrightarrow> (wr b 0 x \<bind> (\<lambda>b1. wr b1 j y)) = wr b 0 (x @ y)"
  using wr_wr [of b 0 x y] by simp

lemma wr_seq: "j = length x \<Longrightarrow> (wr b 0 x \<bind> (\<lambda>b1. wr b1 j y \<bind> f)) = (wr b 0 (x @ y) \<bind> f)"
  using wr_seq2 [of j x b y] by (metis bind_assoc)

lemma wr_take: "wr b i x = Some b' \<Longrightarrow> take (i + length x) b' = take i b @ x"
  by (auto simp: wr_def split: if_splits)

lemma length_c_field [simp]: "0 < n \<Longrightarrow> length (c_field n s) = n"
  by (simp add: c_field_def)

lemma length_eth [simp]: "length (eth_header b) = 14"
  by (simp add: eth_header_def)

lemma length_trailer [simp]: "length (pcap_trailer uid a) = 32"
  by (simp add: pcap_trailer_def)

lemma dump_packet_pcapng_eq:
  "dump_packet_pcapng d pkt sec usec (32 + min (length pkt) (d_snaplen d) + pad4 (min (length pkt) (d_snaplen d))) =
     wr (d_buffer d) (buffer_idx d) (epb_record (d_snaplen d) pkt (sec * 1000000 + usec))"
proof -
  have l: "min (length pkt) (d_snaplen d) = length (take (d_snaplen d) pkt)" by (simp add: min.commute)
  have t: "take (length (take (d_snaplen d) pkt)) pkt = take (d_snaplen d) pkt" by (simp add: min_def)
  have "(wr b i h \<bind> (\<lambda>b1. wr b1 (i + 28) x \<bind> (\<lambda>b2. wr b2 (i + 28 + length x) y \<bind>
      (\<lambda>b3. wr b3 (i + 28 + length x + length y) z)))) = wr b i (h @ x @ y @ z)"
    if "length h = 28" for b h x y z :: "byte list" and i
    using that by (auto simp: wr_def min_def ac_simps split: if_splits)
  from this [of "put32 6 @ put32 t @ put32 0 @ put32 u @ put32 v @ put32 w @ put32 z"
      "d_buffer d" "buffer_idx d" "take (d_snaplen d) pkt" "replicate p 0" "put32 t" for t u v w z p]
  show ?thesis unfolding dump_packet_pcapng_def epb_record_def Let_def l t by (simp add: add.assoc)
qed

text \<open>The frame fits its space, also when the packet exceeds the snap length.\<close>

lemma pad4_fits: "4 dvd m \<Longrightarrow> n \<le> m \<Longrightarrow> n + pad4 n \<le> m"
  using pad4_least [of n "m - n"] by simp

lemma pcap_frame_in_bounds:
  assumes "mode = PCAP_DUMP_WITH_TRAILER \<longrightarrow> pkt \<noteq> [] \<and> 4 dvd length stale \<and> 14 \<le> length stale"
  shows "\<exists>orig f. pcap_frame mode pkt uid appname stale = Some (orig, f) \<and> length f = length stale"
proof (cases "mode = PCAP_DUMP_WITH_TRAILER")
  case False
  then show ?thesis by (auto simp: pcap_frame_def Let_def wr_def)
next
  case True
  with assms have p: "pkt \<noteq> []" "4 dvd length stale" "14 \<le> length stale" by auto
  define n where "n = min (length pkt) (length stale - 14)"
  have n: "14 + n \<le> length stale" "length (take n pkt) = n" using p by (simp_all add: n_def)
  obtain f1 where f1: "wr stale 0 (eth_header (pkt ! 0)) = Some f1" "length f1 = length stale"
    using p by (simp add: wr_def)
  obtain f2 where f2: "wr f1 14 (take n pkt) = Some f2" "length f2 = length stale"
    using f1 n wr_ex [of 14 "take n pkt" f1] by auto
  show ?thesis
  proof (cases "32 \<le> length stale - (14 + n)")
    case False
    with True p f1 f2 show ?thesis
      by (simp add: pcap_frame_def Let_def n_def [symmetric])
  next
    case tr: True
    have "4 dvd length stale - 32" using p by simp
    then have fit: "14 + n + pad4 (14 + n) + 32 \<le> length stale"
      using pad4_fits [of "length stale - 32" "14 + n"] tr by linarith
    obtain f3 where f3: "wr f2 (14 + n) (replicate (pad4 (14 + n)) 0) = Some f3" "length f3 = length stale"
      using f2 fit wr_ex [of "14 + n" "replicate (pad4 (14 + n)) 0" f2] by auto
    obtain f4 where f4: "wr f3 (14 + n + pad4 (14 + n)) (pcap_trailer uid appname) = Some f4" "length f4 = length stale"
      using f3 fit wr_ex [of "14 + n + pad4 (14 + n)" "pcap_trailer uid appname" f3] by auto
    obtain f5 where f5: "wr f4 (14 + n + pad4 (14 + n) + 28) (put32 (crc32 (take (length stale - 4) f4) 0)) = Some f5"
      "length f5 = length stale"
      using f4 fit wr_ex [of "14 + n + pad4 (14 + n) + 28" "put32 (crc32 (take (length stale - 4) f4) 0)" f4]
      by auto
    show ?thesis using True tr p f1 f2 f3 f4 f5
      by (simp add: pcap_frame_def Let_def n_def [symmetric])
  qed
qed

lemma pcap_frame_trailer:
  assumes "pkt \<noteq> []" "length stale = length pkt + 46 + pad4 (length pkt + 46)"
  shows "pcap_frame PCAP_DUMP_WITH_TRAILER pkt uid appname stale =
    Some (length stale, trailer_frame pkt uid appname)"
proof -
  let ?n = "length pkt" and ?p = "pad4 (14 + length pkt)"
  let ?t0 = "put32 (htonl 0x01072021) @ put32 (htonl (word_of_int uid)) @ c_field 20 appname"
  have p46: "pad4 (length pkt + 46) = ?p"
    using pad4_shift [of 32 "14 + length pkt"] by (simp add: add.commute)
  have len: "length stale = 14 + ?n + ?p + 32" using assms(2) p46 by simp
  have w1: "wr stale 0 (eth_header (pkt ! 0)) = Some (eth_header (hd pkt) @ drop 14 stale)"
    using len assms(1) by (simp add: wr_def hd_conv_nth)
  have w2: "wr (eth_header (hd pkt) @ drop 14 stale) 14 pkt =
      Some ((eth_header (hd pkt) @ pkt) @ drop (14 + ?n) stale)"
    using len wr_append [of pkt "drop 14 stale" "eth_header (hd pkt)"] by (simp add: add.commute)
  have w3: "wr ((eth_header (hd pkt) @ pkt) @ drop (14 + ?n) stale) (14 + ?n) (replicate ?p 0) =
      Some ((eth_header (hd pkt) @ pkt @ replicate ?p 0) @ drop (14 + ?n + ?p) stale)"
    using len wr_append [of "replicate ?p 0" "drop (14 + ?n) stale" "eth_header (hd pkt) @ pkt"]
    by (simp add: add.commute)
  have w4: "wr ((eth_header (hd pkt) @ pkt @ replicate ?p 0) @ drop (14 + ?n + ?p) stale) (14 + ?n + ?p)
      (pcap_trailer uid appname) = Some (trailer_body pkt uid appname @ put32 0)"
    using len wr_append [of "pcap_trailer uid appname" "drop (14 + ?n + ?p) stale"
        "eth_header (hd pkt) @ pkt @ replicate ?p 0"]
    by (simp add: trailer_body_def pcap_trailer_def add.assoc)
  have lb: "length (trailer_body pkt uid appname) = length stale - 4"
    using len by (simp add: trailer_body_def)
  have w5: "wr (trailer_body pkt uid appname @ put32 0) (14 + ?n + ?p + 28) (put32 c) =
      Some (trailer_body pkt uid appname @ put32 c)" for c
    using len lb by (simp add: wr_def)
  show ?thesis
    using len assms(1) lb
    by (simp add: pcap_frame_def Let_def w1 w2 [simplified] w3 [simplified] w4 [simplified] w5 [simplified]
        trailer_frame_def rd8_def)
qed

lemma pcap_frame_plain:
  "mode = PCAP_DUMP \<Longrightarrow> length stale \<le> length pkt \<Longrightarrow>
     pcap_frame mode pkt uid appname stale = Some (length pkt, take (length stale) pkt)"
  by (simp add: pcap_frame_def Let_def wr_def)

lemma dump_packet_pcap_eq:
  assumes "pcap_frame (d_mode d) pkt uid appname (take (n - 16) (drop (buffer_idx d + 16) (d_buffer d))) =
      Some (orig, frame)" "length frame = n - 16" "buffer_idx d + n \<le> length (d_buffer d)" "16 \<le> n"
  shows "dump_packet_pcap d pkt sec usec uid appname n =
    wr (d_buffer d) (buffer_idx d) (rec_header sec usec (n - 16) orig @ frame)"
proof -
  have "length (rec_header sec usec (n - 16) orig) = 16" by (simp add: rec_header_def)
  with wr_wr [of "d_buffer d" "buffer_idx d" "rec_header sec usec (n - 16) orig" frame] assms show ?thesis
    by (simp add: dump_packet_pcap_def Let_def rec_header_def)
qed

section \<open>Invariant\<close>

definition out_bytes :: "pcap_dumper \<Rightarrow> nat" where
  "out_bytes d = sum_list (map (\<lambda>e. case e of Secrets b \<Rightarrow> length b | Packets b \<Rightarrow> length b) (d_out d))"

definition dumper_inv :: "pcap_dumper \<Rightarrow> bool" where
  "dumper_inv d \<longleftrightarrow> length (d_buffer d) = PCAP_BUFFER_SIZE \<and> buffer_idx d \<le> PCAP_BUFFER_SIZE \<and>
     (d_mode d \<noteq> PCAP_DUMP \<longrightarrow> 4 dvd buffer_idx d) \<and>
     keylog_idx d < PCAP_BUFFER_SIZE \<and>
     (0 < keylog_idx d \<longrightarrow> keylog_buf d \<noteq> None) \<and>
     (\<forall>kb. keylog_buf d = Some kb \<longrightarrow>
        length kb = KEYLOG_BUFFER_HEADROOM + PCAP_BUFFER_SIZE + KEYLOG_BUFFER_TAILROOM) \<and>
     (d_cb d \<longrightarrow> dump_size d = out_bytes d + buffer_idx d) \<and>
     (0 < max_dump_size d \<longrightarrow> dump_size d < max_dump_size d)"

text \<open>The packet bytes produced so far: those exported and those still in the buffer.\<close>

definition packet_stream :: "pcap_dumper \<Rightarrow> byte list" where
  "packet_stream d = concat (map (\<lambda>e. case e of Packets b \<Rightarrow> b | Secrets b \<Rightarrow> []) (d_out d)) @
     take (buffer_idx d) (d_buffer d)"

text \<open>The decryption secrets block.\<close>

definition dsb_block :: "byte list \<Rightarrow> byte list" where
  "dsb_block secrets =
     (let n = length secrets; total = 20 + n + pad4 n
      in put32 0x0A @ put32 (of_nat total) @ put32 0x544c534b @ put32 (of_nat n) @ secrets
         @ replicate (pad4 n) 0 @ put32 (of_nat total))"

definition keylog :: "pcap_dumper \<Rightarrow> byte list" where
  "keylog d = (case keylog_buf d of None \<Rightarrow> [] | Some kb \<Rightarrow> take (keylog_idx d) (drop KEYLOG_BUFFER_HEADROOM kb))"

lemma length_dsb [simp]: "length (dsb_block s) = 20 + length s + pad4 (length s)"
  by (simp add: dsb_block_def Let_def)

definition dump_config :: "pcap_dumper \<Rightarrow> pcap_dump_mode \<times> bool \<times> nat \<times> nat" where
  "dump_config d = (d_mode d, d_cb d, d_snaplen d, max_dump_size d)"

text \<open>What exporting the key log does to the dumper; \<open>kb\<close> is the buffer with the block in it.\<close>

definition keylog_exported :: "byte list \<Rightarrow> pcap_dumper \<Rightarrow> pcap_dumper" where
  "keylog_exported kb d = (if keylog_idx d = 0 then d
    else if 0 < max_dump_size d \<and> max_dump_size d \<le> dump_size d + length (dsb_block (keylog d))
    then d\<lparr>keylog_idx := 0\<rparr>
    else emit (Secrets (dsb_block (keylog d)))
      (d\<lparr>keylog_buf := Some kb, dump_size := dump_size d + length (dsb_block (keylog d)), keylog_idx := 0\<rparr>))"

lemma export_keylog_spec:
  assumes "dumper_inv d"
  obtains kb where "export_keylog_buffer d = Some (keylog_exported kb d)"
    and "(0 < keylog_idx d \<longrightarrow> length kb = KEYLOG_BUFFER_HEADROOM + PCAP_BUFFER_SIZE + KEYLOG_BUFFER_TAILROOM)"
proof (cases "keylog_idx d = 0")
  case False
  let ?n = "keylog_idx d"
  from assms False obtain kb where kb: "keylog_buf d = Some kb" "?n < PCAP_BUFFER_SIZE"
    and len: "length kb = 16 + PCAP_BUFFER_SIZE + 8"
    by (auto simp: dumper_inv_def dump_consts)
  let ?p = "pad4 ?n" and ?t = "20 + ?n + pad4 ?n"
  have p: "?p < 4" by (rule pad4_lt)
  define H where "H = put32 0x0A @ put32 (of_nat ?t) @ put32 0x544c534b @ put32 (of_nat ?n)"
  have H: "length H = 16" by (simp add: H_def)
  have kl: "keylog d = take ?n (drop 16 kb)" "length (keylog d) = ?n"
    using kb len by (simp_all add: keylog_def dump_consts)
  have w1: "wr kb 0 H = Some (H @ keylog d @ drop (16 + ?n) kb)"
    using len kl(1) H by (simp add: wr_def) (metis add.commute append_take_drop_id drop_drop)
  have w2: "wr (H @ keylog d @ drop (16 + ?n) kb) (16 + ?n) (replicate ?p 0) =
      Some (H @ keylog d @ replicate ?p 0 @ drop (16 + ?n + ?p) kb)"
    using len kl(2) kb p H wr_at [of "16 + ?n" "H @ keylog d" "replicate ?p 0" "drop (16 + ?n) kb"]
    by (simp add: add.commute)
  have w3: "wr (H @ keylog d @ replicate ?p 0 @ drop (16 + ?n + ?p) kb) (16 + ?n + ?p) w =
      Some (H @ keylog d @ replicate ?p 0 @ w @ drop ?t kb)" if "length w = 4" for w
    using that len kl(2) kb p H
      wr_at [of "16 + ?n + ?p" "H @ keylog d @ replicate ?p 0" w "drop (16 + ?n + ?p) kb"]
    by (simp add: add.commute add.left_commute)
  define B where "B = H @ keylog d @ replicate ?p 0 @ put32 (of_nat ?t) @ drop ?t kb"
  have B: "take ?t B = dsb_block (keylog d)" "length B = 16 + PCAP_BUFFER_SIZE + 8"
    using H kl(2) len kb p by (simp_all add: B_def dsb_block_def Let_def) (simp add: H_def)
  have e: "export_keylog_buffer d = Some (
      if 0 < max_dump_size d \<and> max_dump_size d \<le> dump_size d + ?t then d\<lparr>keylog_idx := 0\<rparr>
      else emit (Secrets (take ?t B)) (d\<lparr>keylog_buf := Some B, dump_size := dump_size d + ?t, keylog_idx := 0\<rparr>))"
    using False kb(1) w1 [unfolded H_def] w2 [unfolded H_def] w3 [unfolded H_def, of "put32 (of_nat ?t)"]
    by (simp add: export_keylog_buffer_def Let_def KEYLOG_BUFFER_HEADROOM_def B_def H_def ac_simps)
  show ?thesis
    by (rule that [of B]) (use e B False kl(2) in \<open>simp_all add: dump_consts keylog_exported_def ac_simps\<close>)
next
  case True
  then show ?thesis by (intro that) (simp_all add: export_keylog_buffer_def keylog_exported_def)
qed

lemma emit_simps [simp]:
  "d_mode (emit e d) = d_mode d" "d_cb (emit e d) = d_cb d" "d_snaplen (emit e d) = d_snaplen d"
  "max_dump_size (emit e d) = max_dump_size d" "dump_size (emit e d) = dump_size d"
  "d_buffer (emit e d) = d_buffer d" "buffer_idx (emit e d) = buffer_idx d"
  "keylog_buf (emit e d) = keylog_buf d" "keylog_idx (emit e d) = keylog_idx d"
  "d_out (emit e d) = (if d_cb d then d_out d @ [e] else d_out d)"
  by (simp_all add: emit_def)

lemma export_keylog_inv:
  assumes "dumper_inv d"
  obtains d' where "export_keylog_buffer d = Some d'" "dumper_inv d'" "dump_config d' = dump_config d"
    "buffer_idx d' = buffer_idx d" "d_buffer d' = d_buffer d" "packet_stream d' = packet_stream d"
    "keylog_idx d' = 0"
proof -
  from assms obtain kb where e: "export_keylog_buffer d = Some (keylog_exported kb d)"
    and kb: "0 < keylog_idx d \<longrightarrow> length kb = KEYLOG_BUFFER_HEADROOM + PCAP_BUFFER_SIZE + KEYLOG_BUFFER_TAILROOM"
    by (rule export_keylog_spec)
  consider "keylog_idx d = 0"
    | "0 < keylog_idx d" "0 < max_dump_size d" "max_dump_size d \<le> dump_size d + length (dsb_block (keylog d))"
    | "0 < keylog_idx d" "0 < max_dump_size d \<longrightarrow> dump_size d + length (dsb_block (keylog d)) < max_dump_size d"
    by linarith
  then show ?thesis
  proof cases
    case 1
    with e assms show ?thesis by (intro that [of d]) (simp_all add: keylog_exported_def)
  next
    case 2
    with e have "export_keylog_buffer d = Some (d\<lparr>keylog_idx := 0\<rparr>)"
      by (simp add: keylog_exported_def del: length_dsb)
    moreover have "dumper_inv (d\<lparr>keylog_idx := 0\<rparr>)"
      using assms by (simp add: dumper_inv_def out_bytes_def PCAP_BUFFER_SIZE_def)
    ultimately show ?thesis
      by (intro that [of "d\<lparr>keylog_idx := 0\<rparr>"]) (simp_all add: dump_config_def packet_stream_def)
  next
    case 3
    let ?d = "emit (Secrets (dsb_block (keylog d))) (d\<lparr>keylog_buf := Some kb,
        dump_size := dump_size d + length (dsb_block (keylog d)), keylog_idx := 0\<rparr>)"
    from 3 e have "export_keylog_buffer d = Some ?d"
      by (auto simp: keylog_exported_def simp del: length_dsb)
    moreover have "dumper_inv ?d"
      using assms 3 kb by (simp add: dumper_inv_def out_bytes_def PCAP_BUFFER_SIZE_def del: length_dsb)
    ultimately show ?thesis
      by (intro that [of ?d]) (simp_all add: dump_config_def packet_stream_def)
  qed
qed

lemma export_buffer_inv:
  assumes "dumper_inv d"
  obtains d' where "export_buffer now d = Some d'" "dumper_inv d'" "dump_config d' = dump_config d"
    "buffer_idx d' = 0" "d_cb d \<longrightarrow> packet_stream d' = packet_stream d" "keylog_idx d' = 0"
proof -
  from assms obtain d1 where d1: "export_keylog_buffer d = Some d1" "dumper_inv d1"
    "dump_config d1 = dump_config d" "buffer_idx d1 = buffer_idx d" "d_buffer d1 = d_buffer d"
    "packet_stream d1 = packet_stream d" "keylog_idx d1 = 0"
    by (rule export_keylog_inv)
  let ?d = "if buffer_idx d1 = 0 then d1 else (emit (Packets (take (buffer_idx d1) (d_buffer d1))) d1)
                  \<lparr>buffer_idx := 0, last_dump_ms := now\<rparr>"
  have "dumper_inv ?d" using d1(2) by (auto simp: dumper_inv_def out_bytes_def)
  moreover have "d_cb d1 = d_cb d" using d1(3) by (simp add: dump_config_def)
  then have "d_cb d \<longrightarrow> packet_stream ?d = packet_stream d" using d1(6) by (auto simp: packet_stream_def)
  moreover have "dump_config ?d = dump_config d" using d1(3) by (simp add: dump_config_def)
  ultimately show ?thesis using d1 by (intro that [of ?d]) (auto simp: export_buffer_def)
qed

lemma check_export_inv:
  assumes "dumper_inv d"
  obtains b d' where "pcap_check_export now d = Some (b, d')" "dumper_inv d'" "dump_config d' = dump_config d"
    "d_cb d \<longrightarrow> packet_stream d' = packet_stream d"
proof (cases "0 < buffer_idx d \<and> MAX_PCAP_DUMP_DELAY_MS \<le> now - last_dump_ms d \<or>
         PCAP_BUFFER_ALMOST_FULL_SIZE < keylog_idx d")
  case True
  from assms obtain d' where "export_buffer now d = Some d'" "dumper_inv d'" "dump_config d' = dump_config d"
    "buffer_idx d' = 0" "d_cb d \<longrightarrow> packet_stream d' = packet_stream d" "keylog_idx d' = 0"
    by (rule export_buffer_inv)
  with True show ?thesis by (intro that [of True d']) (auto simp: pcap_check_export_def)
next
  case False
  with assms show ?thesis by (intro that [of False d]) (auto simp: pcap_check_export_def)
qed

section \<open>One packet\<close>

definition fits :: "pcap_dumper \<Rightarrow> byte list \<Rightarrow> bool" where
  "fits d pkt \<longleftrightarrow> (d_mode d = PCAP_DUMP_WITH_TRAILER \<longrightarrow> length pkt \<le> d_snaplen d)"

lemma length_trailer_frame [simp]:
  "length (trailer_frame pkt uid a) = 46 + length pkt + pad4 (14 + length pkt)"
  by (simp add: trailer_frame_def trailer_body_def)

lemma pad46: "pad4 (n + 46) = pad4 (14 + n)"
  using pad4_shift [of 32 "14 + n"] by (simp add: add.commute)

lemma length_rec_header [simp]: "length (rec_header a b c e) = 16"
  by (simp add: rec_header_def)

lemma length_epb [simp]:
  "length (epb_record n pkt u) = 32 + length (take n pkt) + pad4 (length (take n pkt))"
  by (simp add: epb_record_def Let_def)

lemma length_pcap_record:
  "fits d pkt \<Longrightarrow> length (pcap_record (d_mode d) (d_snaplen d) pkt sec usec uid a) = pcap_rec_size d (length pkt)"
  by (auto simp: fits_def pcap_record_def pcap_rec_size_def Let_def pad46 min.commute
      split: pcap_dump_mode.split)

lemma rec_size_align: "d_mode d \<noteq> PCAP_DUMP \<Longrightarrow> 4 dvd pcap_rec_size d n"
proof -
  let ?m = "min n (d_snaplen d)"
  have "4 dvd (32 :: nat)" "4 dvd (16 :: nat)" by simp_all
  then have "4 dvd 32 + (?m + pad4 ?m)" "4 dvd (?m + 46 + pad4 (?m + 46)) + 16"
    by (simp_all only: dvd_add pad4_dvd)
  then show "4 dvd pcap_rec_size d n" if "d_mode d \<noteq> PCAP_DUMP"
    using that by (cases "d_mode d") (auto simp: pcap_rec_size_def Let_def add.assoc)
qed

lemma rec_size_le: "pcap_rec_size d n \<le> d_snaplen d + 65"
  using pad4_lt [of "min n (d_snaplen d)"] pad4_lt [of "min n (d_snaplen d) + 46"]
  by (auto simp: pcap_rec_size_def Let_def)

text \<open>The write into a buffer with room for the record.\<close>

lemma write_packet:
  assumes i: "dumper_inv d" and r: "int (pcap_rec_size d (length pkt)) < room d"
    and p: "pkt \<noteq> []" and s: "0 < d_snaplen d"
  obtains b where "(if d_mode d = PCAPNG_DUMP then dump_packet_pcapng d pkt sec usec (pcap_rec_size d (length pkt))
      else dump_packet_pcap d pkt sec usec uid a (pcap_rec_size d (length pkt))) = Some b"
    and "length b = PCAP_BUFFER_SIZE"
    and "fits d pkt \<longrightarrow> take (buffer_idx d + pcap_rec_size d (length pkt)) b =
           take (buffer_idx d) (d_buffer d) @ pcap_record (d_mode d) (d_snaplen d) pkt sec usec uid a"
proof -
  let ?n = "pcap_rec_size d (length pkt)" and ?m = "min (length pkt) (d_snaplen d)"
  let ?w = "if d_mode d = PCAPNG_DUMP then dump_packet_pcapng d pkt sec usec ?n
      else dump_packet_pcap d pkt sec usec uid a ?n"
  have fit: "buffer_idx d + ?n \<le> length (d_buffer d)" "length (d_buffer d) = PCAP_BUFFER_SIZE"
    using i r by (auto simp: dumper_inv_def room_def)
  have "\<exists>rec. ?w = wr (d_buffer d) (buffer_idx d) rec \<and> length rec = ?n \<and>
      (fits d pkt \<longrightarrow> rec = pcap_record (d_mode d) (d_snaplen d) pkt sec usec uid a)"
  proof (cases "d_mode d = PCAPNG_DUMP")
    case True
    then have "?n = 32 + ?m + pad4 ?m" by (simp add: pcap_rec_size_def Let_def)
    with True show ?thesis
      by (intro exI [of _ "epb_record (d_snaplen d) pkt (sec * 1000000 + usec)"])
        (simp add: dump_packet_pcapng_eq pcap_record_def min.commute)
  next
    case False
    let ?st = "take (?n - 16) (drop (buffer_idx d + 16) (d_buffer d))"
    have n: "16 \<le> ?n" using False by (simp add: pcap_rec_size_def Let_def)
    have lst: "length ?st = ?n - 16" using fit by simp
    have al: "4 dvd ?n - 16 \<and> 14 \<le> ?n - 16" if "d_mode d = PCAP_DUMP_WITH_TRAILER"
    proof
      show "4 dvd ?n - 16" using that rec_size_align [of d "length pkt"] by (intro dvd_diff_nat) simp_all
      show "14 \<le> ?n - 16" using that by (simp add: pcap_rec_size_def Let_def)
    qed
    obtain orig f where f: "pcap_frame (d_mode d) pkt uid a ?st = Some (orig, f)" "length f = ?n - 16"
      using pcap_frame_in_bounds [of "d_mode d" pkt ?st uid a, unfolded lst] p al by blast
    have "rec_header sec usec (?n - 16) orig @ f = pcap_record (d_mode d) (d_snaplen d) pkt sec usec uid a"
      if "fits d pkt"
    proof (cases "d_mode d")
      case PCAP_DUMP
      then have "?n - 16 = ?m" by (simp add: pcap_rec_size_def Let_def)
      with PCAP_DUMP f lst pcap_frame_plain [of "d_mode d" ?st pkt uid a] show ?thesis
        by (auto simp: pcap_record_def min_def)
    next
      case PCAP_DUMP_WITH_TRAILER
      with that have "?n - 16 = length pkt + 46 + pad4 (length pkt + 46)"
        by (simp add: pcap_rec_size_def fits_def Let_def)
      with PCAP_DUMP_WITH_TRAILER f lst p pcap_frame_trailer [of pkt ?st uid a] show ?thesis
        by (simp add: pcap_record_def Let_def pad46 add.commute)
    qed (use False in simp)
    with False dump_packet_pcap_eq [OF f fit(1) n, of sec usec] n f(2) show ?thesis
      by (intro exI [of _ "rec_header sec usec (?n - 16) orig @ f"]) simp
  qed
  then obtain rec where rec: "?w = wr (d_buffer d) (buffer_idx d) rec" "length rec = ?n"
    "fits d pkt \<longrightarrow> rec = pcap_record (d_mode d) (d_snaplen d) pkt sec usec uid a" by blast
  from wr_ex [of "buffer_idx d" rec "d_buffer d"] fit rec(2) obtain b where
    b: "wr (d_buffer d) (buffer_idx d) rec = Some b" "length b = PCAP_BUFFER_SIZE" by auto
  with rec wr_take [OF b(1)] show ?thesis by (intro that [of b]) auto
qed

lemma stored_packet_inv:
  assumes "dumper_inv d" "length b = PCAP_BUFFER_SIZE" "int n < room d"
    "d_mode d \<noteq> PCAP_DUMP \<longrightarrow> 4 dvd n" "0 < max_dump_size d \<longrightarrow> dump_size d + n < max_dump_size d"
  shows "dumper_inv (d\<lparr>d_buffer := b, buffer_idx := buffer_idx d + n, dump_size := dump_size d + n\<rparr>)"
  using assms by (auto simp: dumper_inv_def out_bytes_def room_def dvd_add)

text \<open>What \<open>pcap_dump_packet\<close> does: the record is appended to the packet stream, or the dump stops.\<close>

lemma pcap_dump_packet_spec:
  assumes "dumper_inv d" "pkt \<noteq> []" "0 < d_snaplen d"
  obtains ok d' where "pcap_dump_packet now a d pkt sec usec uid = Some (ok, d')" and "dumper_inv d'"
    and "dump_config d' = dump_config d"
    and "max_dump_size d = 0 \<and> d_snaplen d \<le> 65535 \<longrightarrow> ok"
    and "d_cb d \<and> fits d pkt \<longrightarrow> packet_stream d' = packet_stream d @
           (if ok then pcap_record (d_mode d) (d_snaplen d) pkt sec usec uid a else [])"
proof -
  let ?n = "pcap_rec_size d (length pkt)"
  obtain d1 where d1: "(if room d \<le> int ?n then export_buffer now d else Some d) = Some d1" "dumper_inv d1"
    "dump_config d1 = dump_config d" "d_cb d \<longrightarrow> packet_stream d1 = packet_stream d"
    "room d \<le> int ?n \<longrightarrow> buffer_idx d1 = 0" "\<not> room d \<le> int ?n \<longrightarrow> d1 = d"
  proof (cases "room d \<le> int ?n")
    case True
    from assms(1) show ?thesis by (rule export_buffer_inv [of d now]) (use True that in auto)
  next
    case False
    then show ?thesis using assms(1) by (intro that [of d]) auto
  qed
  then have c: "d_mode d1 = d_mode d" "d_snaplen d1 = d_snaplen d" "d_cb d1 = d_cb d"
    "max_dump_size d1 = max_dump_size d" by (auto simp: dump_config_def)
  have n: "pcap_rec_size d1 (length pkt) = ?n" "fits d1 pkt = fits d pkt"
    using c by (simp_all add: pcap_rec_size_def fits_def Let_def)
  show ?thesis
  proof (cases "room d1 \<le> int ?n \<or> 0 < max_dump_size d1 \<and> max_dump_size d1 \<le> dump_size d1 + ?n")
    case True
    moreover have "\<not> (max_dump_size d = 0 \<and> d_snaplen d \<le> 65535)"
      using calculation d1(5,6) rec_size_le [of d "length pkt"] c
      by (cases "room d \<le> int ?n") (auto simp: room_def PCAP_BUFFER_SIZE_def)
    ultimately show ?thesis using d1 by (intro that [of False d1]) (auto simp: pcap_dump_packet_def Let_def)
  next
    case False
    then have r: "int (pcap_rec_size d1 (length pkt)) < room d1" by (simp add: n)
    obtain b where b: "(if d_mode d1 = PCAPNG_DUMP then dump_packet_pcapng d1 pkt sec usec ?n
        else dump_packet_pcap d1 pkt sec usec uid a ?n) = Some b" "length b = PCAP_BUFFER_SIZE"
      "fits d pkt \<longrightarrow> take (buffer_idx d1 + ?n) b =
         take (buffer_idx d1) (d_buffer d1) @ pcap_record (d_mode d) (d_snaplen d) pkt sec usec uid a"
      using write_packet [OF d1(2) r assms(2), of sec usec uid a] assms(3) unfolding n c by blast
    let ?d2 = "d1\<lparr>d_buffer := b, buffer_idx := buffer_idx d1 + ?n, dump_size := dump_size d1 + ?n\<rparr>"
    have i2: "dumper_inv ?d2"
      using d1(2) b(2) r False rec_size_align [of d "length pkt"] by (intro stored_packet_inv) (auto simp: n c)
    from i2 obtain x d3 where d3: "pcap_check_export now ?d2 = Some (x, d3)" "dumper_inv d3"
      "dump_config d3 = dump_config ?d2" "d_cb ?d2 \<longrightarrow> packet_stream d3 = packet_stream ?d2"
      by (rule check_export_inv)
    have "dump_config d3 = dump_config d" using d3(3) d1(3) by (simp add: dump_config_def)
    moreover have "d_cb d \<and> fits d pkt \<longrightarrow> packet_stream d3 =
        packet_stream d @ pcap_record (d_mode d) (d_snaplen d) pkt sec usec uid a"
      using d3(4) d1(4) b(3) c by (auto simp: packet_stream_def)
    moreover have "pcap_dump_packet now a d pkt sec usec uid = Some (True, d3)"
      using False d1(1) b(1) d3(1) by (simp add: pcap_dump_packet_def Let_def)
    ultimately show ?thesis using d3(2) by (intro that [of True d3]) auto
  qed
qed

section \<open>Properties\<close>

record pkt_in =
  in_now :: nat
  in_app :: "byte list"
  in_pkt :: "byte list"
  in_sec :: u64
  in_usec :: u64
  in_uid :: int

text \<open>A capture session: packets are dumped until the dumper says to stop; the number dumped.\<close>

fun dump_packets :: "pcap_dumper \<Rightarrow> pkt_in list \<Rightarrow> (nat \<times> pcap_dumper) option" where
  "dump_packets d [] = Some (0, d)"
| "dump_packets d (p # ps) = do {
     (ok, d1) \<leftarrow> pcap_dump_packet (in_now p) (in_app p) d (in_pkt p) (in_sec p) (in_usec p) (in_uid p);
     if ok then do { (k, d2) \<leftarrow> dump_packets d1 ps; Some (k + 1, d2) } else Some (0, d1) }"

definition record_of :: "pcap_dump_mode \<Rightarrow> nat \<Rightarrow> pkt_in \<Rightarrow> byte list" where
  "record_of mode snaplen p = pcap_record mode snaplen (in_pkt p) (in_sec p) (in_usec p) (in_uid p) (in_app p)"

definition good_pkt :: "pcap_dump_mode \<Rightarrow> nat \<Rightarrow> pkt_in \<Rightarrow> bool" where
  "good_pkt mode snaplen p \<longleftrightarrow> in_pkt p \<noteq> [] \<and>
     (mode = PCAP_DUMP_WITH_TRAILER \<longrightarrow> length (in_pkt p) \<le> snaplen)"

lemma dump_packets_spec:
  assumes "dumper_inv d" "d_cb d" "0 < d_snaplen d" "\<forall>p \<in> set ps. good_pkt (d_mode d) (d_snaplen d) p"
  shows "\<exists>k d'. dump_packets d ps = Some (k, d') \<and> k \<le> length ps \<and> dumper_inv d' \<and>
    dump_config d' = dump_config d \<and>
    packet_stream d' = packet_stream d @ concat (map (record_of (d_mode d) (d_snaplen d)) (take k ps)) \<and>
    (max_dump_size d = 0 \<and> d_snaplen d \<le> 65535 \<longrightarrow> k = length ps)"
  using assms
proof (induction ps arbitrary: d)
  case (Cons p ps)
  have g: "in_pkt p \<noteq> []" "fits d (in_pkt p)" using Cons.prems(4) by (auto simp: good_pkt_def fits_def)
  obtain ok d1 where d1: "pcap_dump_packet (in_now p) (in_app p) d (in_pkt p) (in_sec p) (in_usec p) (in_uid p) = Some (ok, d1)"
    "dumper_inv d1" "dump_config d1 = dump_config d" "max_dump_size d = 0 \<and> d_snaplen d \<le> 65535 \<longrightarrow> ok"
    "packet_stream d1 = packet_stream d @ (if ok then record_of (d_mode d) (d_snaplen d) p else [])"
    using pcap_dump_packet_spec [OF Cons.prems(1) g(1) Cons.prems(3),
        of "in_now p" "in_app p" "in_sec p" "in_usec p" "in_uid p"] g(2) Cons.prems(2)
    unfolding record_of_def by metis
  have c: "d_mode d1 = d_mode d" "d_snaplen d1 = d_snaplen d" "d_cb d1 = d_cb d" "max_dump_size d1 = max_dump_size d"
    using d1(3) by (auto simp: dump_config_def)
  show ?case
  proof (cases ok)
    case False
    with d1 show ?thesis by auto
  next
    case True
    have "\<exists>k d'. dump_packets d1 ps = Some (k, d') \<and> k \<le> length ps \<and> dumper_inv d' \<and>
      dump_config d' = dump_config d1 \<and>
      packet_stream d' = packet_stream d1 @ concat (map (record_of (d_mode d1) (d_snaplen d1)) (take k ps)) \<and>
      (max_dump_size d1 = 0 \<and> d_snaplen d1 \<le> 65535 \<longrightarrow> k = length ps)"
      using Cons.prems d1(2) c by (intro Cons.IH) auto
    with True d1 c show ?thesis by auto
  qed
qed auto


definition sample_in :: pkt_in where
  "sample_in = \<lparr>in_now = 5, in_app = [0x61], in_pkt = [0x45, 1, 2], in_sec = 1, in_usec = 2, in_uid = 1000\<rparr>"


text \<open>A reader of enhanced packet blocks: packet data, original length, time stamp, rest.\<close>

definition read_epb :: "byte list \<Rightarrow> (byte list \<times> nat \<times> u64 \<times> byte list) option" where
  "read_epb s = do {
     ty \<leftarrow> rd32 s 0; total \<leftarrow> rd32 s 4; hi \<leftarrow> rd32 s 12; lo \<leftarrow> rd32 s 16;
     cap \<leftarrow> rd32 s 20; orig \<leftarrow> rd32 s 24;
     let n = unat cap;
     total2 \<leftarrow> rd32 s (unat total - 4);
     if ty = 6 \<and> total2 = total \<and> unat total = 32 + n + pad4 n
     then Some (take n (drop 28 s), unat orig, push_bit 32 (ucast hi) OR ucast lo, drop (unat total) s)
     else None }"

lemma rd32_at: "i = length a \<Longrightarrow> rd32 (a @ put32 w @ b) i = Some w"
  by (simp add: rd32_put32)

lemma u64_halves: "push_bit 32 (ucast (ucast (drop_bit 32 w) :: u32)) OR ucast (ucast w :: u32) = (w :: u64)"
  by (intro bit_word_eqI) (auto simp: bit_simps)






lemma pcapng_option_fields:
  assumes "length s \<le> 65528"
  shows "unat (o_tot_length (pcapng_option ty s)) = 4 + length s + pad4 (length s) \<and>
    o_padding (pcapng_option ty s) = pad4 (length s) \<and> unat (o_length (pcapng_option ty s)) = length s \<and>
    o_data (pcapng_option ty s) = s \<and> o_type (pcapng_option ty s) = ty"
proof -
  have p: "pad4 (length s) < 4" by (rule pad4_lt)
  have l: "unat (of_nat (length s) :: u16) = length s" using assms by (intro unat_of_nat_small(2)) simp
  have "4 + of_nat (length s) + of_nat (pad4 (length s)) = (of_nat (4 + length s + pad4 (length s)) :: u16)" by simp
  moreover have "unat (of_nat (4 + length s + pad4 (length s)) :: u16) = 4 + length s + pad4 (length s)"
    using assms p by (intro unat_of_nat_small(2)) simp
  ultimately show ?thesis using l by (simp add: pcapng_option_def Let_def)
qed

text \<open>An option as the format defines it: type, length, value, padding.\<close>

definition opt_bytes :: "u16 \<Rightarrow> byte list \<Rightarrow> byte list" where
  "opt_bytes ty s = put16 ty @ put16 (of_nat (length s)) @ s @ replicate (pad4 (length s)) 0"

lemma length_opt_bytes: "length (opt_bytes ty s) = 4 + length s + pad4 (length s)"
  by (simp add: opt_bytes_def)

lemma write_pcapng_opt_eq:
  assumes "length s \<le> 65528"
  shows "write_pcapng_opt b i (pcapng_option ty s) =
    (wr b i (opt_bytes ty s) \<bind> (\<lambda>b1. Some (b1, i + length (opt_bytes ty s))))"
proof -
  have "o_length (pcapng_option ty s) = of_nat (length s)" by (simp add: pcapng_option_def Let_def)
  with pcapng_option_fields [OF assms, of ty] show ?thesis
    by (simp add: write_pcapng_opt_def length_opt_bytes) (simp add: opt_bytes_def)
qed

text \<open>
  C31: the PCAPNG preamble fills its allocation exactly: for device, system and version strings of
  up to 65528 bytes, no store leaves the allocated block whatever it contained, and the result
  is a section header block (with the three options) and an interface description block whose
  leading and trailing length fields give their sizes, each a multiple of four.
\<close>

theorem pcapng_preamble_exact:
  assumes "length dev \<le> 65528" "length os \<le> 65528" "length app \<le> 65528"
    and "\<And>n. length (malloc n) = n"
  shows "get_pcapng_preamble dev os app malloc d =
    (let opts = opt_bytes 2 dev @ opt_bytes 3 os @ opt_bytes 4 app; n = 28 + length opts
     in Some (put32 0x0A0D0D0A @ put32 (of_nat n) @ put32 0x1a2b3c4d @ put16 1 @ put16 0 @ put64 (- 1) @ opts
         @ put32 (of_nat n) @ put32 1 @ put32 20 @ put16 101 @ put16 0 @ put32 (of_nat (d_snaplen d)) @ put32 20)) \<and>
    4 dvd length (opt_bytes 2 dev @ opt_bytes 3 os @ opt_bytes 4 app)"
proof -
  define opts where "opts = opt_bytes 2 dev @ opt_bytes 3 os @ opt_bytes 4 app"
  let ?n = "28 + length opts"
  define S where "S = put32 0x0A0D0D0A @ put32 (of_nat ?n) @ put32 0x1a2b3c4d @ put16 1 @ put16 0 @ put64 (- 1)"
  define T where "T = put32 (of_nat ?n)"
  define I where "I = put32 1 @ put32 20 @ put16 101 @ put16 0 @ put32 (of_nat (d_snaplen d)) @ put32 20"
  have len: "24 + unat (o_tot_length (pcapng_option 2 dev)) + unat (o_tot_length (pcapng_option 3 os))
      + unat (o_tot_length (pcapng_option 4 app)) + 4 = ?n"
    using assms(1-3) by (simp add: pcapng_option_fields opts_def opt_bytes_def)
  have l: "length S = 24" "length T = 4" "length I = 20" by (simp_all add: S_def T_def I_def)
  let ?m = "malloc (?n + (16 + 4))"
  have chain: "get_pcapng_preamble dev os app malloc d =
      (wr ?m 0 S \<bind> (\<lambda>b0. wr b0 (0 + length S) (opt_bytes 2 dev) \<bind>
       (\<lambda>b1. wr b1 (0 + length (S @ opt_bytes 2 dev)) (opt_bytes 3 os) \<bind>
       (\<lambda>b2. wr b2 (0 + length (S @ opt_bytes 2 dev @ opt_bytes 3 os)) (opt_bytes 4 app) \<bind>
       (\<lambda>b3. wr b3 (0 + length (S @ opts)) T \<bind>
       (\<lambda>b4. wr b4 (0 + length (S @ opts @ T)) I))))))"
    unfolding get_pcapng_preamble_def Let_def len
    using assms(1-3) l by (simp add: write_pcapng_opt_eq S_def T_def I_def opts_def add.assoc cong: option.case_cong)
  have "\<dots> = wr ?m 0 (S @ opts @ T @ I)"
    by (simp add: wr_seq wr_seq2 opts_def add.assoc)
  also have "\<dots> = Some (S @ opts @ T @ I)" using assms(4) l by (simp add: wr_def)
  finally have "get_pcapng_preamble dev os app malloc d = Some (S @ opts @ T @ I)" using chain by simp
  moreover have "4 dvd length (opt_bytes ty s)" for ty s
    using dvd_add [of 4 4 "length s + pad4 (length s)"] pad4_dvd [of "length s"]
    by (simp add: length_opt_bytes add.assoc)
  then have "4 dvd length opts" by (simp add: opts_def dvd_add)
  ultimately show ?thesis by (simp add: S_def T_def I_def opts_def Let_def)
qed

theorem pcapng_preamble_exact_witness:
  "\<exists>b. get_pcapng_preamble [0x41] [] [0x42, 0x43] (\<lambda>n. replicate n 0xFF)
     (the (pcap_new_dumper True (Some []) True PCAPNG_DUMP 9 0 True)) = Some b"
  using pcapng_preamble_exact [of "[0x41]" "[]" "[0x42, 0x43]" "\<lambda>n. replicate n 0xFF"
      "the (pcap_new_dumper True (Some []) True PCAPNG_DUMP 9 0 True)"] by (simp add: Let_def)

text \<open>
  In trailer mode a packet a little longer than the snap length is copied past it, no trailer
  follows, and the rest of the record keeps whatever the buffer held before.
\<close>

lemma trailer_stale_bytes:
  "pcap_frame PCAP_DUMP_WITH_TRAILER (replicate 30 0x45) 0 [] (replicate 68 1) =
     Some (44, eth_header 0x45 @ replicate 30 0x45 @ replicate 24 1)"
  by (simp add: pcap_frame_def Let_def wr_def rd8_def)

end
