(* ===== verification/Cstr.thy ===== *)
theory Cstr
  imports Prelude
begin

text \<open>
  C strings and the string functions of libc that the sources use. A C string is its characters
  without the terminator; \<open>c_str\<close> cuts a character array at the first terminator.
\<close>

definition c_str :: "string \<Rightarrow> string" where
  "c_str s = takeWhile (\<lambda>c. c \<noteq> CHR 0x00) s"

definition starts_with :: "string \<Rightarrow> string \<Rightarrow> bool" where
  "starts_with pre s \<longleftrightarrow> take (length pre) s = pre"

fun strchr :: "char \<Rightarrow> string \<Rightarrow> nat option" where
  "strchr c [] = None"
| "strchr c (x # xs) = (if x = c then Some 0 else map_option Suc (strchr c xs))"

fun memrchr :: "char \<Rightarrow> string \<Rightarrow> nat option" where
  "memrchr c [] = None"
| "memrchr c (x # xs) = (case memrchr c xs of Some i \<Rightarrow> Some (Suc i)
                         | None \<Rightarrow> if x = c then Some 0 else None)"

definition strcspn :: "string \<Rightarrow> char list \<Rightarrow> nat" where
  "strcspn s reject = length (takeWhile (\<lambda>c. c \<notin> set reject) s)"

definition is_space :: "char \<Rightarrow> bool" where
  "is_space c \<longleftrightarrow> c = CHR '' '' \<or> c \<in> {CHR 0x09, CHR 0x0A, CHR 0x0B, CHR 0x0C, CHR 0x0D}"

definition is_digit :: "char \<Rightarrow> bool" where
  "is_digit c \<longleftrightarrow> 48 \<le> (of_char c :: nat) \<and> (of_char c :: nat) \<le> 57"

definition digit_val :: "char \<Rightarrow> int" where
  "digit_val c = of_char c - 48"

definition digits_val :: "string \<Rightarrow> int" where
  "digits_val ds = foldl (\<lambda>acc c. acc * 10 + digit_val c) 0 ds"

text \<open>
  \<open>atoi\<close>: white space, an optional sign, decimal digits; the value is a saturated \<open>long\<close> (64 bits)
  cut to an \<open>int\<close>.
\<close>

definition to_int32 :: "int \<Rightarrow> int" where
  "to_int32 v = signed_take_bit 31 v"

definition atoi :: "string \<Rightarrow> int" where
  "atoi s =
     (let s1 = dropWhile is_space s;
          neg = (s1 \<noteq> [] \<and> hd s1 = CHR ''-'');
          s2 = (if s1 \<noteq> [] \<and> (hd s1 = CHR ''-'' \<or> hd s1 = CHR ''+'') then tl s1 else s1);
          v = digits_val (takeWhile is_digit s2);
          w = (if neg then max (- (2 ^ 63)) (- v) else min (2 ^ 63 - 1) v)
      in to_int32 w)"

lemma strchr_None [simp]: "strchr c s = None \<longleftrightarrow> c \<notin> set s"
  by (induction s) auto

lemma memrchr_None: "memrchr c s = None \<longleftrightarrow> c \<notin> set s"
  by (induction s) (auto split: option.splits)

lemma memrchr_Some:
  "memrchr c s = Some i \<longleftrightarrow> (\<exists>a b. s = a @ c # b \<and> length a = i \<and> c \<notin> set b)"
proof (induction s arbitrary: i)
  case (Cons x s)
  show ?case
  proof (cases "memrchr c s")
    case None
    then have n: "c \<notin> set s" by (simp add: memrchr_None)
    have "x # s = a @ c # b \<longleftrightarrow> a = [] \<and> x = c \<and> b = s" for a b
      using n by (cases a) auto
    then show ?thesis using n by (cases "x = c") (auto simp: None)
  next
    case (Some j)
    then obtain a b where ab: "s = a @ c # b" "length a = j" "c \<notin> set b" using Cons by blast
    have "\<exists>a' b'. x # s = a' @ c # b' \<and> length a' = i \<and> c \<notin> set b'" if "i = Suc j"
      using ab that by (intro exI [of _ "x # a"] exI [of _ b]) simp
    moreover have "i = Suc j" if h: "x # s = a' @ c # b'" "length a' = i" "c \<notin> set b'" for a' b'
    proof -
      have "a' \<noteq> []" using h ab by auto
      then obtain a'' where "s = a'' @ c # b'" "a' = x # a''" using h(1) by (auto simp: Cons_eq_append_conv)
      then show ?thesis using Cons [of "length a''"] Some h by auto
    qed
    ultimately show ?thesis using Some by auto
  qed
qed simp

end
