(* ===== verification/Blacklist.thy ===== *)
theory Blacklist
  imports Cstr Uthash Zdtun_Pkt
begin

text \<open>
  Blacklists of domains, addresses and application UIDs (\<^verbatim>\<open>core/blacklist.c\<close>), used for the
  firewall, malware detection and the decryption list. The prefix tree and the address parser
  come from nDPI: they are the fields of \<open>ndpi_ops\<close>, an argument of the operations that call
  them. Allocation results are Boolean arguments, files and Java lists are their contents.
\<close>

text \<open>\<open>pt_insert\<close> returns \<open>ndpi_ptree_insert\<close>'s code; \<open>ip_parse\<close> the version (or -1) and address.\<close>

record 'pt ndpi_ops =
  pt_create :: "'pt option"
  pt_insert :: "'pt \<Rightarrow> zdtun_ip \<Rightarrow> u8 \<Rightarrow> int \<times> 'pt"
  pt_match :: "'pt \<Rightarrow> zdtun_ip \<Rightarrow> bool"
  ip_parse :: "string \<Rightarrow> int \<times> zdtun_ip"

datatype blacklist_type = DOMAIN_BLACKLIST | IP_BLACKLIST | UID_BLACKLIST

record blacklists_stats =
  num_lists :: int
  num_domains :: int
  num_ips :: int
  num_apps :: int
  num_failed :: int

record 'pt blacklist =
  bl_domains :: "(string, unit) ut_hash"
  bl_uids :: "(int, unit) ut_hash"
  bl_ptree :: 'pt
  bl_stats :: blacklists_stats

definition EADDRINUSE :: int where "EADDRINUSE = 98"
definition ENOMEM :: int where "ENOMEM = 12"
definition EINVAL :: int where "EINVAL = 22"

lemmas errno_defs = EADDRINUSE_def ENOMEM_def EINVAL_def

definition blacklist_init :: "'pt ndpi_ops \<Rightarrow> bool \<Rightarrow> 'pt blacklist option" where
  "blacklist_init nd alloc =
     (if \<not> alloc then None
      else case pt_create nd of
        None \<Rightarrow> None
      | Some t \<Rightarrow> Some \<lparr>bl_domains = [], bl_uids = [], bl_ptree = t,
          bl_stats = \<lparr>num_lists = 0, num_domains = 0, num_ips = 0, num_apps = 0, num_failed = 0\<rparr>\<rparr>)"

section \<open>Matching\<close>

definition strip_www :: "string \<Rightarrow> string" where
  "strip_www d = (if starts_with ''www.'' d then drop 4 d else d)"

text \<open>The offset of the second-level domain in the string (0: the string itself).\<close>

definition get_second_level_domain :: "string \<Rightarrow> nat" where
  "get_second_level_domain domain =
     (case memrchr (CHR ''.'') domain of
        None \<Rightarrow> 0
      | Some dot \<Rightarrow>
          if dot = 0 then 0
          else case memrchr (CHR ''.'') (take dot domain) of
                 None \<Rightarrow> 0
               | Some dot2 \<Rightarrow> dot2 + 1)"

definition blacklist_match_domain :: "('pt, 'z) blacklist_scheme \<Rightarrow> string \<Rightarrow> bool" where
  "blacklist_match_domain bl domain0 =
     (let domain = strip_www domain0
      in if ut_find domain (bl_domains bl) \<noteq> None then True
         else let off = get_second_level_domain domain
              in if off \<noteq> 0 then ut_find (drop off domain) (bl_domains bl) \<noteq> None else False)"

definition blacklist_match_uid :: "('pt, 'z) blacklist_scheme \<Rightarrow> int \<Rightarrow> bool" where
  "blacklist_match_uid bl uid \<longleftrightarrow> ut_find uid (bl_uids bl) \<noteq> None"

definition blacklist_match_ip :: "'pt ndpi_ops \<Rightarrow> 'pt blacklist \<Rightarrow> zdtun_ip \<Rightarrow> int \<Rightarrow> bool" where
  "blacklist_match_ip nd bl ip v =
     pt_match nd (bl_ptree bl) (if v = 4 then of_ip4 (ip4 ip) else ip)"

text \<open>\<open>zdtun_parse_ip\<close> is the argument \<open>parse\<close>.\<close>

definition blacklist_match_ipstr ::
    "'pt ndpi_ops \<Rightarrow> (string \<Rightarrow> int \<times> zdtun_ip) \<Rightarrow> 'pt blacklist \<Rightarrow> string \<Rightarrow> bool" where
  "blacklist_match_ipstr nd parse bl ip_str =
     (case parse ip_str of (v, parsed) \<Rightarrow> if v < 0 then False else blacklist_match_ip nd bl parsed v)"

section \<open>Adding rules\<close>

definition blacklist_add_domain :: "bool \<Rightarrow> bool \<Rightarrow> 'pt blacklist \<Rightarrow> string \<Rightarrow> int \<times> 'pt blacklist" where
  "blacklist_add_domain malloc_ok dup_ok bl domain0 =
     (let domain = strip_www domain0
      in if blacklist_match_domain bl domain then (- EADDRINUSE, bl)
         else if \<not> malloc_ok then (- ENOMEM, bl)
         else if \<not> dup_ok then (- ENOMEM, bl)
         else (0, bl\<lparr>bl_domains := ut_add domain () (bl_domains bl),
                     bl_stats := (bl_stats bl)\<lparr>num_domains := num_domains (bl_stats bl) + 1\<rparr>\<rparr>))"

definition blacklist_add_ip :: "'pt ndpi_ops \<Rightarrow> 'pt blacklist \<Rightarrow> zdtun_ip \<Rightarrow> u8 \<Rightarrow> int \<times> 'pt blacklist" where
  "blacklist_add_ip nd bl addr bits =
     (case pt_insert nd (bl_ptree bl) addr bits of (rv, t) \<Rightarrow>
        if rv \<noteq> 0 then (if rv = -2 then - EADDRINUSE else - EINVAL, bl\<lparr>bl_ptree := t\<rparr>)
        else (0, bl\<lparr>bl_ptree := t, bl_stats := (bl_stats bl)\<lparr>num_ips := num_ips (bl_stats bl) + 1\<rparr>\<rparr>))"

definition blacklist_add_ipstr :: "'pt ndpi_ops \<Rightarrow> 'pt blacklist \<Rightarrow> string \<Rightarrow> int \<times> 'pt blacklist" where
  "blacklist_add_ipstr nd bl ip =
     (case ip_parse nd ip of (v, addr) \<Rightarrow>
        if v \<noteq> 4 \<and> v \<noteq> 6 then (- EINVAL, bl)
        else blacklist_add_ip nd bl addr (if v = 4 then 32 else 128))"

definition blacklist_add_uid :: "bool \<Rightarrow> 'pt blacklist \<Rightarrow> int \<Rightarrow> int \<times> 'pt blacklist" where
  "blacklist_add_uid malloc_ok bl uid =
     (if blacklist_match_uid bl uid then (- EADDRINUSE, bl)
      else if \<not> malloc_ok then (- ENOMEM, bl)
      else (0, bl\<lparr>bl_uids := ut_add uid () (bl_uids bl),
                  bl_stats := (bl_stats bl)\<lparr>num_apps := num_apps (bl_stats bl) + 1\<rparr>\<rparr>))"

section \<open>Files\<close>

text \<open>\<open>fgets\<close> with a buffer of \<open>n + 1\<close> bytes: a line with its newline, or a part of a long one.\<close>

fun fgets :: "nat \<Rightarrow> string \<Rightarrow> string \<times> string" where
  "fgets 0 f = ([], f)"
| "fgets (Suc n) [] = ([], [])"
| "fgets (Suc n) (c # f) = (if c = CHR 0x0A then ([c], f)
                             else case fgets n f of (l, r) \<Rightarrow> (c # l, r))"

lemma fgets_shorter: "fgets n f = (l, r) \<Longrightarrow> length f = length l + length r"
  by (induction n f arbitrary: l r rule: fgets.induct) (auto split: if_splits prod.splits)

function file_items :: "string \<Rightarrow> string list" where
  "file_items f = (case fgets 255 f of (l, r) \<Rightarrow> if l = [] then [] else l # file_items r)"
  by pat_completeness auto
termination
  by (relation "measure length") (auto dest!: fgets_shorter [OF sym] simp flip: length_greater_0_conv)

declare file_items.simps [simp del]

record load_counts =
  n_ok :: int
  n_fail :: int
  n_dup :: int

definition max_file_rules :: int where "max_file_rules = 500000"

text \<open>
  The body of the loop of \<open>blacklist_load_file\<close> for one \<open>fgets\<close> result. \<open>ip_addr.ipv4\<close> is in
  network order. Memory allocation is taken to succeed.
\<close>

definition bump :: "int \<Rightarrow> load_counts \<Rightarrow> load_counts" where
  "bump rv c = (if rv = 0 then c\<lparr>n_ok := n_ok c + 1\<rparr>
                else if rv = - EADDRINUSE then c\<lparr>n_dup := n_dup c + 1\<rparr>
                else c\<lparr>n_fail := n_fail c + 1\<rparr>)"

definition skip_line :: "string \<Rightarrow> bool" where
  "skip_line item \<longleftrightarrow> item = [] \<or> hd item = CHR 0x00 \<or> hd item = CHR ''#'' \<or> hd item = CHR 0x0A"

definition load_item ::
    "'pt ndpi_ops \<Rightarrow> blacklist_type \<Rightarrow> string \<Rightarrow> 'pt blacklist \<times> load_counts \<Rightarrow> 'pt blacklist \<times> load_counts" where
  "load_item nd btype raw st = (case st of (bl, c) \<Rightarrow>
     if skip_line raw then (bl, c)
     else let line = take (strcspn (c_str raw) [CHR 0x0D, CHR 0x0A]) (c_str raw);
              slash = strchr (CHR ''/'') line;
              buffer = (case slash of Some i \<Rightarrow> take i line | None \<Rightarrow> line);
              ipver = fst (ip_parse nd buffer); addr = snd (ip_parse nd buffer);
              is_ip = (ipver = 4 \<or> ipver = 6)
          in if max_file_rules \<le> n_ok c then (bl, c\<lparr>n_fail := n_fail c + 1\<rparr>)
             else if btype = IP_BLACKLIST then
               (if \<not> is_ip then (bl, c\<lparr>n_fail := n_fail c + 1\<rparr>)
                else let bits = (case slash of Some i \<Rightarrow> atoi (drop (i + 1) line)
                                 | None \<Rightarrow> if ipver = 4 then 32 else 128)
                     in if ipver = 4 \<and> bits = 32 \<and>
                           (ip4 addr = 0 \<or> ip4 addr = 0xFFFFFFFF \<or> ip4 addr = 0x7F000001)
                        then (bl, c)
                        else case blacklist_add_ip nd bl addr (word_of_int bits) of
                               (rv, bl') \<Rightarrow> (bl', bump rv c))
             else
               (if is_ip then (bl, c\<lparr>n_fail := n_fail c + 1\<rparr>)
                else case blacklist_add_domain True True bl buffer of (rv, bl') \<Rightarrow> (bl', bump rv c)))"

text \<open>\<open>content\<close> is \<open>None\<close> when the file cannot be opened. Returns the code and (rules, failed).\<close>

definition blacklist_load_file ::
    "'pt ndpi_ops \<Rightarrow> blacklist_type \<Rightarrow> string option \<Rightarrow> 'pt blacklist \<Rightarrow> int \<times> (int \<times> int) \<times> 'pt blacklist" where
  "blacklist_load_file nd btype content bl =
     (case content of
        None \<Rightarrow> (-1, (0, 0), bl)
      | Some f \<Rightarrow>
          (case fold (load_item nd btype) (file_items f) (bl, \<lparr>n_ok = 0, n_fail = 0, n_dup = 0\<rparr>) of
             (bl', c) \<Rightarrow>
               (0, (n_ok c, n_fail c),
                bl'\<lparr>bl_stats := (bl_stats bl')\<lparr>num_lists := num_lists (bl_stats bl') + 1,
                                               num_failed := num_failed (bl_stats bl') + n_fail c\<rparr>\<rparr>)))"

text \<open>Lists from the Java side: \<open>None\<close> is a null element.\<close>

definition add_of_type :: "'pt ndpi_ops \<Rightarrow> blacklist_type \<Rightarrow> 'pt blacklist \<Rightarrow> string \<Rightarrow> int \<times> 'pt blacklist" where
  "add_of_type nd tp bl val =
     (case tp of
        IP_BLACKLIST \<Rightarrow> blacklist_add_ipstr nd bl val
      | DOMAIN_BLACKLIST \<Rightarrow> blacklist_add_domain True True bl val
      | UID_BLACKLIST \<Rightarrow> blacklist_add_uid True bl (atoi val))"

fun bl_load_list_of_type ::
    "'pt ndpi_ops \<Rightarrow> blacklist_type \<Rightarrow> 'pt blacklist \<Rightarrow> int \<Rightarrow> string option list \<Rightarrow> int \<times> 'pt blacklist" where
  "bl_load_list_of_type nd tp bl num_loaded [] = (num_loaded, bl)"
| "bl_load_list_of_type nd tp bl num_loaded (None # items) = bl_load_list_of_type nd tp bl num_loaded items"
| "bl_load_list_of_type nd tp bl num_loaded (Some val # items) =
     (case add_of_type nd tp bl val of (rv, bl') \<Rightarrow>
        if rv = 0 then bl_load_list_of_type nd tp bl' (num_loaded + 1) items
        else if rv \<noteq> - EADDRINUSE then (-1, bl')
        else bl_load_list_of_type nd tp bl' num_loaded items)"

definition blacklist_load_list_descriptor ::
    "'pt ndpi_ops \<Rightarrow> string option list \<Rightarrow> string option list \<Rightarrow> string option list \<Rightarrow> 'pt blacklist
     \<Rightarrow> int \<times> 'pt blacklist" where
  "blacklist_load_list_descriptor nd apps hosts ips bl =
     (let (num_apps, bl1) = bl_load_list_of_type nd UID_BLACKLIST bl 0 apps;
          (num_domains, bl2) = bl_load_list_of_type nd DOMAIN_BLACKLIST bl1 0 hosts;
          (num_ips, bl3) = bl_load_list_of_type nd IP_BLACKLIST bl2 0 ips
      in if num_apps = -1 \<or> num_ips = -1 \<or> num_domains = -1 then (-1, bl3) else (0, bl3))"

definition blacklist_get_stats :: "'pt blacklist \<Rightarrow> blacklists_stats" where
  "blacklist_get_stats bl = bl_stats bl"

text \<open>\<open>blacklist_destroy\<close>: the keys freed from both tables, and the tree.\<close>

fun bl_free_all :: "('k, 'v) ut_hash \<Rightarrow> 'k list" where
  "bl_free_all [] = []"
| "bl_free_all ((k, _) # tmp) = k # bl_free_all tmp"

definition blacklist_destroy :: "'pt blacklist \<Rightarrow> string list \<times> int list \<times> 'pt" where
  "blacklist_destroy bl = (bl_free_all (bl_domains bl), bl_free_all (bl_uids bl), bl_ptree bl)"

section \<open>Domain labels\<close>

text \<open>The reference reading of a name: its labels between the dots, and the last two of them.\<close>

fun labels :: "string \<Rightarrow> string list" where
  "labels [] = [[]]"
| "labels (c # s) = (if c = CHR ''.'' then [] # labels s
                     else case labels s of l # ls \<Rightarrow> (c # l) # ls | [] \<Rightarrow> [[c]])"

fun join :: "string list \<Rightarrow> string" where
  "join [] = []"
| "join [l] = l"
| "join (l # ls) = l @ CHR ''.'' # join ls"

definition last_two :: "'a list \<Rightarrow> 'a list" where
  "last_two xs = drop (length xs - 2) xs"

definition sld :: "string \<Rightarrow> string" where
  "sld d = join (last_two (labels d))"

lemma labels_ne [simp]: "labels s \<noteq> []"
  by (induction s) (auto split: list.splits)

lemma labels_plain: "CHR ''.'' \<notin> set s \<Longrightarrow> labels s = [s]"
  by (induction s) auto

lemma labels_append: "labels (a @ CHR ''.'' # b) = labels a @ labels b"
  by (induction a) (auto split: list.splits)

lemma labels_dotless: "l \<in> set (labels s) \<Longrightarrow> CHR ''.'' \<notin> set l"
  by (induction s arbitrary: l) (auto split: if_splits list.splits)

lemma join_labels: "join (labels s) = s"
proof (induction s)
  case (Cons c s)
  obtain l ls where "labels s = l # ls" by (cases "labels s") auto
  with Cons show ?case by (cases ls) auto
qed simp

lemma labels_join: "ls \<noteq> [] \<Longrightarrow> \<forall>l \<in> set ls. CHR ''.'' \<notin> set l \<Longrightarrow> labels (join ls) = ls"
  by (induction ls rule: join.induct) (auto simp: labels_plain labels_append)

lemma last_two_idem: "last_two (last_two xs) = last_two xs"
  by (simp add: last_two_def)

lemma last_two_ne [simp]: "last_two xs = [] \<longleftrightarrow> xs = []"
  by (cases xs) (auto simp: last_two_def)

lemma sld_idem: "sld (sld d) = sld d"
proof -
  have "set (last_two (labels d)) \<subseteq> set (labels d)" by (simp add: last_two_def set_drop_subset)
  then have "labels (sld d) = last_two (labels d)" unfolding sld_def
    by (intro labels_join) (auto dest: labels_dotless)
  then show ?thesis by (simp add: sld_def last_two_idem)
qed

text \<open>The C scan for the second-level domain computes the last two labels.\<close>

lemma second_level_domain_sld: "drop (get_second_level_domain d) d = sld d"
proof (cases "memrchr (CHR ''.'') d")
  case None
  then have "labels d = [d]" by (simp add: labels_plain memrchr_None)
  with None show ?thesis by (simp add: get_second_level_domain_def sld_def last_two_def)
next
  case (Some i)
  then obtain a b where d: "d = a @ CHR ''.'' # b" "length a = i" "CHR ''.'' \<notin> set b"
    unfolding memrchr_Some by blast
  then have l: "labels d = labels a @ [b]" by (simp add: labels_append labels_plain)
  show ?thesis
  proof (cases "memrchr (CHR ''.'') a")
    case None
    then have "labels a = [a]" by (simp add: labels_plain memrchr_None)
    with Some None d l show ?thesis
      by (simp add: get_second_level_domain_def sld_def last_two_def)
  next
    case (Some j)
    then obtain a1 a2 where a: "a = a1 @ CHR ''.'' # a2" "length a1 = j" "CHR ''.'' \<notin> set a2"
      unfolding memrchr_Some by blast
    then have "labels d = labels a1 @ [a2, b]" using l by (simp add: labels_append labels_plain)
    then have "sld d = a2 @ CHR ''.'' # b" by (simp add: sld_def last_two_def)
    moreover have "get_second_level_domain d = j + 1"
    proof -
      have "take i d = a" "i \<noteq> 0" using d a by auto
      with \<open>memrchr _ d = _\<close> Some show ?thesis by (simp add: get_second_level_domain_def)
    qed
    ultimately show ?thesis using d a by simp
  qed
qed

lemma match_domain_iff:
  "blacklist_match_domain bl d \<longleftrightarrow>
     strip_www d \<in> set (ut_keys (bl_domains bl)) \<or> sld (strip_www d) \<in> set (ut_keys (bl_domains bl))"
proof -
  let ?s = "strip_www d"
  have "drop (get_second_level_domain ?s) ?s = sld ?s" by (rule second_level_domain_sld)
  moreover from this have "?s = sld ?s" if "get_second_level_domain ?s = 0" using that by simp
  ultimately show ?thesis
    by (auto simp: blacklist_match_domain_def Let_def ut.find_iff simp del: not_None_eq)
qed

section \<open>Properties\<close>

definition add_domains :: "string list \<Rightarrow> 'pt blacklist \<Rightarrow> 'pt blacklist" where
  "add_domains ds bl = fold (\<lambda>d bl. snd (blacklist_add_domain True True bl d)) ds bl"

text \<open>Rules whose name starts with \<open>www.www.\<close> are outside the guarantee.\<close>

definition plain_rule :: "string \<Rightarrow> bool" where
  "plain_rule d \<longleftrightarrow> strip_www (strip_www d) = strip_www d"

definition rules_inv :: "string set \<Rightarrow> 'pt blacklist \<Rightarrow> bool" where
  "rules_inv R bl \<longleftrightarrow> set (ut_keys (bl_domains bl)) \<subseteq> strip_www ` R \<and>
     (\<forall>d \<in> R. strip_www d \<in> set (ut_keys (bl_domains bl)) \<or> sld (strip_www d) \<in> set (ut_keys (bl_domains bl))) \<and>
     distinct (ut_keys (bl_domains bl)) \<and> num_domains (bl_stats bl) = int (length (bl_domains bl))"

lemma add_domain_inv:
  assumes "rules_inv R bl" "plain_rule d"
  shows "rules_inv (insert d R) (snd (blacklist_add_domain True True bl d))"
proof (cases "blacklist_match_domain bl (strip_www d)")
  case True
  with assms show ?thesis
    by (auto simp: rules_inv_def blacklist_add_domain_def match_domain_iff plain_rule_def)
next
  case False
  then have "strip_www d \<notin> set (ut_keys (bl_domains bl))"
    using assms(2) by (simp add: match_domain_iff plain_rule_def)
  with assms False show ?thesis
    by (auto simp: rules_inv_def blacklist_add_domain_def ut.keys_add)
qed

lemma add_domains_inv:
  "rules_inv R bl \<Longrightarrow> \<forall>d \<in> set ds. plain_rule d \<Longrightarrow> rules_inv (set ds \<union> R) (add_domains ds bl)"
proof (induction ds arbitrary: R bl)
  case (Cons d ds)
  then have "rules_inv (set ds \<union> insert d R) (add_domains ds (snd (blacklist_add_domain True True bl d)))"
    by (intro Cons.IH) (auto intro: add_domain_inv)
  then show ?case by (simp add: add_domains_def)
qed (simp add: add_domains_def)

text \<open>
  C10: domain rules mean what a list of domains should: after any sequence of domain rules is
  added to a fresh blacklist, a name matches exactly when, without a leading \<open>www.\<close>, it is one
  of the rules or its last two labels are. Rules that are dropped as duplicates (because a rule
  for their second-level domain came first) change nothing, and the statistics count the rules
  kept. In particular a rule never matches a name that merely ends in the same characters.
\<close>

theorem domain_rules_match:
  assumes "blacklist_init nd True = Some bl" and "\<forall>d \<in> set ds. plain_rule d"
  shows "(blacklist_match_domain (add_domains ds bl) x \<longleftrightarrow>
      (\<exists>d \<in> set ds. strip_www d = strip_www x \<or> strip_www d = sld (strip_www x))) \<and>
    num_domains (blacklist_get_stats (add_domains ds bl)) = int (length (bl_domains (add_domains ds bl)))"
proof -
  have "rules_inv {} bl" using assms(1)
    by (auto simp: blacklist_init_def rules_inv_def ut_keys_def split: option.splits)
  from add_domains_inv [OF this assms(2)] have inv: "rules_inv (set ds) (add_domains ds bl)" by simp
  let ?K = "set (ut_keys (bl_domains (add_domains ds bl)))"
  have "strip_www x \<in> ?K \<or> sld (strip_www x) \<in> ?K \<longleftrightarrow>
      (\<exists>d \<in> set ds. strip_www d = strip_www x \<or> strip_www d = sld (strip_www x))" (is "?l \<longleftrightarrow> ?r")
  proof
    assume ?l
    with inv show ?r unfolding rules_inv_def by (metis imageE subsetD)
  next
    assume ?r
    then obtain d where d: "d \<in> set ds" "strip_www d = strip_www x \<or> strip_www d = sld (strip_www x)" by blast
    then have "strip_www d \<in> ?K \<or> sld (strip_www d) \<in> ?K" using inv by (auto simp: rules_inv_def)
    with d(2) show ?l by (auto simp: sld_idem)
  qed
  then show ?thesis using inv by (simp add: match_domain_iff blacklist_get_stats_def rules_inv_def)
qed

definition no_ndpi :: "unit ndpi_ops" where
  "no_ndpi = \<lparr>pt_create = Some (), pt_insert = \<lambda>t _ _. (0, t), pt_match = \<lambda>_ _. False,
     ip_parse = \<lambda>s. (if s = ''1.2.3.4'' then 4 else -1, 0x04030201)\<rparr>"

theorem domain_rules_match_witness:
  "\<exists>bl. blacklist_init no_ndpi True = Some bl \<and>
     blacklist_match_domain (add_domains [''www.evil.com'', ''a.evil.com''] bl) ''x.y.evil.com'' \<and>
     \<not> blacklist_match_domain (add_domains [''www.evil.com'', ''a.evil.com''] bl) ''devil.com''"
proof -
  obtain bl where bl: "blacklist_init no_ndpi True = Some bl"
    by (simp add: blacklist_init_def no_ndpi_def)
  have p: "\<forall>d \<in> set [''www.evil.com'', ''a.evil.com'']. plain_rule d"
    by (simp add: plain_rule_def strip_www_def starts_with_def)
  from domain_rules_match [OF bl p, of "''x.y.evil.com''"] domain_rules_match [OF bl p, of "''devil.com''"] bl
  show ?thesis by (simp add: strip_www_def starts_with_def sld_def last_two_def)
qed

text \<open>The number of rules a blacklist holds, by its statistics.\<close>

definition rule_count :: "'pt blacklist \<Rightarrow> int" where
  "rule_count bl = num_domains (bl_stats bl) + num_ips (bl_stats bl)"

lemma add_domain_count:
  "rule_count (snd (blacklist_add_domain m a bl d)) =
     rule_count bl + (if fst (blacklist_add_domain m a bl d) = 0 then 1 else 0)"
  by (auto simp: blacklist_add_domain_def rule_count_def Let_def errno_defs)

lemma add_ip_count:
  "rule_count (snd (blacklist_add_ip nd bl ip n)) =
     rule_count bl + (if fst (blacklist_add_ip nd bl ip n) = 0 then 1 else 0)"
  by (auto simp: blacklist_add_ip_def rule_count_def errno_defs split: prod.splits)

lemma bump_total:
  "n_ok (bump rv c) + n_fail (bump rv c) + n_dup (bump rv c) = n_ok c + n_fail c + n_dup c + 1"
  "n_ok (bump rv c) = n_ok c + (if rv = 0 then 1 else 0)"
  by (simp_all add: bump_def)

definition load_inv :: "int \<Rightarrow> int \<Rightarrow> 'pt blacklist \<times> load_counts \<Rightarrow> bool" where
  "load_inv base n st \<longleftrightarrow> rule_count (fst st) = base + n_ok (snd st) \<and> n_ok (snd st) \<le> max_file_rules \<and>
     n_ok (snd st) + n_fail (snd st) + n_dup (snd st) \<le> n"

lemma load_item_inv:
  assumes "load_inv base n st"
  shows "load_inv base (n + 1) (load_item nd btype raw st)"
proof -
  obtain bl c where st: "st = (bl, c)" by (cases st)
  have fail: "load_inv base (n + 1) (bl, c\<lparr>n_fail := n_fail c + 1\<rparr>)" and same: "load_inv base (n + 1) (bl, c)"
    using assms by (auto simp: st load_inv_def)
  have added: "load_inv base (n + 1) (case r of (rv, bl') \<Rightarrow> (bl', bump rv c))"
    if "n_ok c < max_file_rules" and "rule_count (snd r) = rule_count bl + (if fst r = 0 then 1 else 0)" for r
    using that assms bump_total [of "fst r" c] by (auto simp: st load_inv_def split: prod.split)
  show ?thesis
    unfolding load_item_def st prod.case Let_def
    by (simp add: fail same added add_ip_count add_domain_count split del: if_split split: if_split)
qed

lemma load_items_inv:
  "load_inv base n st \<Longrightarrow> load_inv base (n + int (length items)) (fold (load_item nd btype) items st)"
proof (induction items arbitrary: n st)
  case (Cons i items)
  have "load_inv base (n + 1 + int (length items)) (fold (load_item nd btype) items (load_item nd btype i st))"
    using Cons.prems by (intro Cons.IH load_item_inv)
  then show ?case by (simp add: ac_simps)
qed simp


text \<open>
  The loopback test of the loader compares an address in network order with a constant in host
  order: 127.0.0.1 is accepted as a rule, 1.0.0.127 is not.
\<close>

lemma loader_loopback_order:
  "ip_parse nd ''127.0.0.1'' = (4, 0x0100007F) \<Longrightarrow> pt_insert nd t 0x0100007F 32 = (0, t') \<Longrightarrow>
   n_ok c = 0 \<Longrightarrow> bl_ptree bl = t \<Longrightarrow>
     n_ok (snd (load_item nd IP_BLACKLIST ''127.0.0.1'' (bl, c))) = 1"
  by (simp add: load_item_def Let_def skip_line_def c_str_def strcspn_def max_file_rules_def ip4_def
      blacklist_add_ip_def bump_def)

end
