(* ===== verification/Ndpi_Config.thy ===== *)
theory Ndpi_Config
  imports Prelude
begin

text \<open>
  The protocols that the capture core reports (\<^verbatim>\<open>core/ndpi_config.c\<close>), by their nDPI numbers in
  the order of the source, and the mapping of nDPI's answers to them (\<open>pd_ndpi2proto\<close>,
  \<open>is_encrypted_l7\<close> and \<open>pd_get_proto_name\<close> of \<^verbatim>\<open>core/pcapdroid.c\<close>).
\<close>

abbreviation NDPI_PROTOCOL_UNKNOWN :: u16 where "NDPI_PROTOCOL_UNKNOWN \<equiv> 0"
abbreviation NDPI_PROTOCOL_HTTP :: u16 where "NDPI_PROTOCOL_HTTP \<equiv> 7"
abbreviation NDPI_PROTOCOL_DNS :: u16 where "NDPI_PROTOCOL_DNS \<equiv> 5"
abbreviation NDPI_PROTOCOL_TLS :: u16 where "NDPI_PROTOCOL_TLS \<equiv> 91"
abbreviation NDPI_PROTOCOL_MAIL_IMAP :: u16 where "NDPI_PROTOCOL_MAIL_IMAP \<equiv> 4"
abbreviation NDPI_PROTOCOL_MAIL_SMTP :: u16 where "NDPI_PROTOCOL_MAIL_SMTP \<equiv> 3"
abbreviation NDPI_PROTOCOL_HTTP_CONNECT :: u16 where "NDPI_PROTOCOL_HTTP_CONNECT \<equiv> 130"
abbreviation NDPI_PROTOCOL_HTTP_PROXY :: u16 where "NDPI_PROTOCOL_HTTP_PROXY \<equiv> 131"
abbreviation NDPI_PROTOCOL_QUIC :: u16 where "NDPI_PROTOCOL_QUIC \<equiv> 188"

definition init_ndpi_protocols_bitmask :: "u16 list" where
  "init_ndpi_protocols_bitmask = [1, 2, 3, 4, 5, 6, 7, 8, 9, 10, 11, 12,
     14, 16, 17, 18, 19, 20, 23, 29, 30, 37, 41, 50,
     51, 65, 68, 77, 78, 79, 80, 87, 88, 89, 91, 92,
     96, 98, 100, 103, 111, 115, 128, 129, 130, 131, 146, 148,
     159, 161, 163, 165, 172, 174, 175, 177, 182, 188, 206, 208,
     209, 208, 222, 223, 226, 251, 260]"

definition pd_ndpi2proto :: "u16 \<times> u16 \<Rightarrow> u16" where
  "pd_ndpi2proto proto = (case proto of (master, app) \<Rightarrow>
     let p = (if master \<noteq> NDPI_PROTOCOL_UNKNOWN then master else app);
         l7proto = (if p = NDPI_PROTOCOL_HTTP_CONNECT \<or> p = NDPI_PROTOCOL_HTTP_PROXY then NDPI_PROTOCOL_HTTP else p)
     in if l7proto \<in> set init_ndpi_protocols_bitmask then l7proto else NDPI_PROTOCOL_UNKNOWN)"

text \<open>\<open>clear\<close> is nDPI's \<open>isClearTextProto\<close>, \<open>limit\<close> the size of its table.\<close>

definition is_encrypted_l7 :: "nat \<Rightarrow> (u16 \<Rightarrow> bool) \<Rightarrow> u16 \<Rightarrow> bool" where
  "is_encrypted_l7 limit clear l7proto = (if limit \<le> unat l7proto then False else \<not> clear l7proto)"

definition pd_get_proto_name :: "(u16 \<Rightarrow> string) \<Rightarrow> (u8 \<Rightarrow> string) \<Rightarrow> u16 \<Rightarrow> u16 \<Rightarrow> u8 \<Rightarrow> string" where
  "pd_get_proto_name ndpi_name proto2str proto alpn ipproto =
     (if proto = NDPI_PROTOCOL_UNKNOWN then proto2str ipproto
      else if proto = NDPI_PROTOCOL_TLS \<and> alpn = NDPI_PROTOCOL_HTTP then ''HTTPS''
      else if proto = NDPI_PROTOCOL_TLS \<and> alpn = NDPI_PROTOCOL_MAIL_IMAP then ''IMAPS''
      else if proto = NDPI_PROTOCOL_TLS \<and> alpn = NDPI_PROTOCOL_MAIL_SMTP then ''SMTPS''
      else ndpi_name proto)"

end
