(* ===== verification/Pd_Conn.thy ===== *)
theory Pd_Conn
  imports Blacklist Ip_Lru Ndpi_Config
begin

text \<open>
  The state of one connection (\<open>pd_conn_t\<close>) and the decisions the capture core takes about it:
  blacklists and firewall, protocol detection, host names from DNS replies
  (\<^verbatim>\<open>core/pcapdroid.c\<close>, and \<open>vpn_process_ndpi\<close> of \<^verbatim>\<open>core/capture_vpn.c\<close>).

  nDPI is a parameter: its state for a flow is determined by the packets it was given, so a
  \<open>flow\<close> is that list of packets and the record \<open>ndpi\<close> holds the functions that read it; a prefix
  tree is determined by what was inserted. Memory allocation succeeds in this theory.
\<close>

type_synonym ptree = "(zdtun_ip \<times> u8) list"
type_synonym bl = "ptree blacklist"
type_synonym flow = "byte list list"

record ndpi =
  nd_ops :: "ptree ndpi_ops"
  nd_process :: "flow \<Rightarrow> u16 \<times> u16"
  nd_giveup :: "flow \<Rightarrow> u16 \<times> u16"
  nd_extra :: "flow \<Rightarrow> bool"
  nd_host :: "flow \<Rightarrow> string"
  nd_alpn :: "flow \<Rightarrow> string option"
  nd_url :: "flow \<Rightarrow> string option"
  nd_limit :: nat
  nd_clear :: "u16 \<Rightarrow> bool"

datatype block_quic_mode = BLOCK_QUIC_MODE_NEVER | BLOCK_QUIC_MODE_ALWAYS | BLOCK_QUIC_MODE_TO_DECRYPT

datatype payload_mode = PAYLOAD_MODE_NONE | PAYLOAD_MODE_MINIMAL | PAYLOAD_MODE_FULL

abbreviation UID_UNKNOWN :: int where "UID_UNKNOWN \<equiv> -1"
abbreviation UID_PHONE :: int where "UID_PHONE \<equiv> 1001"
abbreviation UID_NETD :: int where "UID_NETD \<equiv> 1051"
abbreviation CONN_UPDATE_STATS :: u8 where "CONN_UPDATE_STATS \<equiv> 1"
abbreviation CONN_UPDATE_INFO :: u8 where "CONN_UPDATE_INFO \<equiv> 2"
abbreviation CONN_UPDATE_PAYLOAD :: u8 where "CONN_UPDATE_PAYLOAD \<equiv> 4"

text \<open>The union of \<open>last_ack\<close> and \<open>pending_dns_queries\<close> is one byte.\<close>

record pd_conn =
  incr_id :: int
  ndpi_flow :: "flow option"
  l7proto :: u16
  alpn :: u16
  last_update_ms :: u64
  conn_ifidx :: u32
  vpn_local_port :: u16
  payload_chunks :: bool
  first_seen :: int
  last_seen :: int
  payload_length :: int
  sent_bytes :: int
  rcvd_bytes :: int
  sent_pkts :: int
  rcvd_pkts :: int
  blocked_pkts :: int
  status :: zdtun_conn_status
  info :: "string option"
  uid :: int
  tcp_flags0 :: u8
  tcp_flags1 :: u8
  last_ack :: u8
  pending_notification :: bool
  to_purge :: bool
  info_from_lru :: bool
  blacklisted_internal :: bool
  blacklisted_ip :: bool
  blacklisted_domain :: bool
  whitelisted_app :: bool
  to_block :: bool
  netd_block_missed :: bool
  proxied :: bool
  decryption_ignored :: bool
  port_mapping_applied :: bool
  encrypted_l7 :: bool
  payload_truncated :: bool
  has_payload_rx :: bool
  has_payload_tx :: bool
  url :: "string option"
  update_type :: u8

text \<open>\<open>pd_calloc\<close>.\<close>

definition zero_conn :: pd_conn where
  "zero_conn = \<lparr>incr_id = 0, ndpi_flow = None, l7proto = 0, alpn = 0, last_update_ms = 0, conn_ifidx = 0, vpn_local_port = 0,
     payload_chunks = False, first_seen = 0, last_seen = 0, payload_length = 0, sent_bytes = 0, rcvd_bytes = 0,
     sent_pkts = 0, rcvd_pkts = 0, blocked_pkts = 0, status = CONN_STATUS_NEW, info = None, uid = 0,
     tcp_flags0 = 0, tcp_flags1 = 0, last_ack = 0, pending_notification = False, to_purge = False,
     info_from_lru = False, blacklisted_internal = False, blacklisted_ip = False, blacklisted_domain = False,
     whitelisted_app = False, to_block = False, netd_block_missed = False, proxied = False,
     decryption_ignored = False, port_mapping_applied = False, encrypted_l7 = False, payload_truncated = False,
     has_payload_rx = False, has_payload_tx = False, url = None, update_type = 0\<rparr>"

text \<open>The lists and settings the decisions depend on.\<close>

record pd_cfg =
  vpn_capture :: bool
  malware_bl :: "bl option"
  malware_wl :: "bl option"
  fw_enabled :: bool
  fw_bl :: "bl option"
  fw_wl_enabled :: bool
  fw_wl :: "bl option"
  tls_enabled :: bool
  tls_list :: "bl option"
  known_dns_servers :: bl
  quic_mode :: block_quic_mode
  block_private_dns :: bool
  payload_mode_cfg :: payload_mode
  has_chunk_cb :: bool

definition touch_update :: "u8 \<Rightarrow> pd_conn \<Rightarrow> pd_conn" where
  "touch_update f d = d\<lparr>update_type := update_type d OR f\<rparr>"

section \<open>Blacklists and firewall\<close>

definition check_blacklisted_domain :: "pd_cfg \<Rightarrow> pd_conn \<Rightarrow> pd_conn" where
  "check_blacklisted_domain c d =
     (case info d of
        None \<Rightarrow> d
      | Some i \<Rightarrow>
          if i = [] then d
          else let d1 = (case malware_bl c of
                           Some mb \<Rightarrow>
                             if \<not> blacklisted_domain d \<and> \<not> whitelisted_app d \<and> blacklist_match_domain mb i
                             then if (case malware_wl c of Some w \<Rightarrow> blacklist_match_domain w i | None \<Rightarrow> False)
                                  then d
                                  else d\<lparr>blacklisted_domain := True, to_block := True\<rparr>
                             else d
                         | None \<Rightarrow> d)
               in case fw_bl c of
                    Some fb \<Rightarrow> if fw_enabled c \<and> \<not> to_block d1
                               then d1\<lparr>to_block := blacklist_match_domain fb i\<rparr> else d1
                  | None \<Rightarrow> d1)"

definition check_whitelist_mode_block :: "pd_cfg \<Rightarrow> zdtun_5tuple \<Rightarrow> pd_conn \<Rightarrow> pd_conn" where
  "check_whitelist_mode_block c tuple d =
     (let is_dns = (ipproto tuple = IPPROTO_UDP \<and> ntohs (dst_port tuple) = 53)
      in case fw_wl c of
           Some w \<Rightarrow>
             if fw_enabled c \<and> fw_wl_enabled c \<and> \<not> to_block d \<and>
                (\<not> is_dns \<or> (uid d \<noteq> UID_NETD \<and> uid d \<noteq> UID_PHONE \<and> uid d \<noteq> UID_UNKNOWN))
             then d\<lparr>to_block := \<not> blacklist_match_uid w (uid d)\<rparr> else d
         | None \<Rightarrow> d)"

text \<open>The malware check of the destination address of a new connection.\<close>

definition check_malware_ip :: "ndpi \<Rightarrow> pd_cfg \<Rightarrow> zdtun_5tuple \<Rightarrow> pd_conn \<Rightarrow> pd_conn" where
  "check_malware_ip nd c tuple d =
     (case malware_bl c of
        None \<Rightarrow> d
      | Some mb \<Rightarrow>
          if \<not> whitelisted_app d \<and> blacklist_match_ip (nd_ops nd) mb (dst_ip tuple) (uint (ipver tuple))
          then if (case malware_wl c of
                     Some w \<Rightarrow> blacklist_match_ip (nd_ops nd) w (dst_ip tuple) (uint (ipver tuple))
                   | None \<Rightarrow> False)
               then d
               else d\<lparr>blacklisted_ip := True, to_block := True\<rparr>
          else d)"

definition check_firewall_new :: "ndpi \<Rightarrow> pd_cfg \<Rightarrow> zdtun_5tuple \<Rightarrow> pd_conn \<Rightarrow> pd_conn" where
  "check_firewall_new nd c tuple d =
     (case fw_bl c of
        Some fb \<Rightarrow>
          if fw_enabled c \<and> \<not> to_block d
          then if blacklist_match_ip (nd_ops nd) fb (dst_ip tuple) (uint (ipver tuple))
               then d\<lparr>to_block := True\<rparr>
               else d\<lparr>to_block := blacklist_match_uid fb (uid d)\<rparr>
          else d
      | None \<Rightarrow> d)"

text \<open>The checks of \<open>pd_new_connection\<close> in their order.\<close>

definition new_conn_checks :: "ndpi \<Rightarrow> pd_cfg \<Rightarrow> zdtun_5tuple \<Rightarrow> pd_conn \<Rightarrow> pd_conn" where
  "new_conn_checks nd c tuple d =
     check_whitelist_mode_block c tuple (check_firewall_new nd c tuple (check_malware_ip nd c tuple
       (if info d \<noteq> None then check_blacklisted_domain c d else d)))"

text \<open>\<open>check_blocked_conn_cb\<close> without the notification: the decision for an active connection.\<close>

definition recheck_block :: "ndpi \<Rightarrow> pd_cfg \<Rightarrow> zdtun_5tuple \<Rightarrow> pd_conn \<Rightarrow> pd_conn" where
  "recheck_block nd c tuple d =
     (let b0 = (blacklisted_internal d \<or> blacklisted_ip d \<or> blacklisted_domain d);
          b1 = (case fw_bl c of
                  Some fb \<Rightarrow>
                    if \<not> b0 \<and> fw_enabled c
                    then blacklist_match_uid fb (uid d) \<or>
                         blacklist_match_ip (nd_ops nd) fb (dst_ip tuple) (uint (ipver tuple)) \<or>
                         (case info d of Some i \<Rightarrow> i \<noteq> [] \<and> blacklist_match_domain fb i | None \<Rightarrow> False)
                    else b0
                | None \<Rightarrow> b0)
      in check_whitelist_mode_block c tuple (d\<lparr>to_block := b1\<rparr>))"

section \<open>VPN policies\<close>

definition matches_decryption_whitelist :: "ndpi \<Rightarrow> pd_cfg \<Rightarrow> zdtun_5tuple \<Rightarrow> pd_conn \<Rightarrow> bool" where
  "matches_decryption_whitelist nd c tuple d =
     (case tls_list c of
        None \<Rightarrow> False
      | Some l \<Rightarrow> blacklist_match_ip (nd_ops nd) l (dst_ip tuple) (uint (ipver tuple)) \<or>
                  blacklist_match_uid l (uid d) \<or>
                  (case info d of Some i \<Rightarrow> blacklist_match_domain l i | None \<Rightarrow> False))"

text \<open>\<open>should_proxify\<close> also marks connections left out of the decryption.\<close>

definition should_proxify :: "ndpi \<Rightarrow> pd_cfg \<Rightarrow> bool \<Rightarrow> zdtun_5tuple \<Rightarrow> pd_conn \<Rightarrow> bool \<times> pd_conn" where
  "should_proxify nd c socks5_enabled tuple d =
     (if \<not> socks5_enabled then (False, d)
      else if tls_list c \<noteq> None \<and> \<not> matches_decryption_whitelist nd c tuple d
      then (False, d\<lparr>decryption_ignored := True\<rparr>)
      else (ipproto tuple = IPPROTO_TCP, d))"

definition vpn_process_ndpi :: "ndpi \<Rightarrow> pd_cfg \<Rightarrow> zdtun_5tuple \<Rightarrow> pd_conn \<Rightarrow> pd_conn" where
  "vpn_process_ndpi nd c tuple d =
     (let d1 = (if l7proto d = NDPI_PROTOCOL_QUIC \<and>
                   (quic_mode c = BLOCK_QUIC_MODE_ALWAYS \<or>
                    quic_mode c = BLOCK_QUIC_MODE_TO_DECRYPT \<and> matches_decryption_whitelist nd c tuple d)
                then d\<lparr>blacklisted_internal := True, to_block := True\<rparr> else d)
      in if block_private_dns c \<and> \<not> to_block d1 \<and> l7proto d1 = NDPI_PROTOCOL_TLS \<and>
            (case info d1 of Some i \<Rightarrow> blacklist_match_domain (known_dns_servers c) i | None \<Rightarrow> False)
         then d1\<lparr>blacklisted_internal := True, to_block := True\<rparr> else d1)"

section \<open>Protocol detection\<close>

definition is_numeric_host :: "string \<Rightarrow> bool" where
  "is_numeric_host host \<longleftrightarrow> (host \<noteq> [] \<and> is_digit (hd host)) \<or>
     CHR '':'' \<in> set (takeWhile (\<lambda>ch. ch \<noteq> CHR ''.'') host)"

fun contains :: "string \<Rightarrow> string \<Rightarrow> bool" where
  "contains sub [] = (sub = [])"
| "contains sub (c # s) = (starts_with sub (c # s) \<or> contains sub s)"

definition process_alpn :: "ndpi \<Rightarrow> flow \<Rightarrow> pd_conn \<Rightarrow> pd_conn" where
  "process_alpn nd fl d =
     (case nd_alpn nd fl of
        Some a \<Rightarrow>
          if alpn d = 0
          then if contains ''http/'' a then touch_update CONN_UPDATE_INFO (d\<lparr>alpn := NDPI_PROTOCOL_HTTP\<rparr>)
               else if contains ''imap'' a then touch_update CONN_UPDATE_INFO (d\<lparr>alpn := NDPI_PROTOCOL_MAIL_IMAP\<rparr>)
               else if contains ''stmp'' a then touch_update CONN_UPDATE_INFO (d\<lparr>alpn := NDPI_PROTOCOL_MAIL_SMTP\<rparr>)
               else d\<lparr>alpn := NDPI_PROTOCOL_TLS\<rparr>
          else d
      | None \<Rightarrow> d)"

text \<open>The switch over the protocol: ALPN, host name and URL of the flow.\<close>

definition scan_flow :: "ndpi \<Rightarrow> flow \<Rightarrow> pd_conn \<Rightarrow> pd_conn \<times> string option" where
  "scan_flow nd fl d =
     (if l7proto d = NDPI_PROTOCOL_TLS \<or> l7proto d = NDPI_PROTOCOL_DNS
      then (if l7proto d = NDPI_PROTOCOL_TLS then process_alpn nd fl d else d,
            if nd_host nd fl \<noteq> [] then Some (nd_host nd fl) else None)
      else (case nd_url nd fl of
              Some u \<Rightarrow> if url d = None then touch_update CONN_UPDATE_INFO (d\<lparr>url := Some (take 256 u)\<rparr>) else d
            | None \<Rightarrow> d,
            if nd_host nd fl \<noteq> [] \<and> \<not> is_numeric_host (nd_host nd fl) then Some (nd_host nd fl) else None))"

definition set_info :: "pd_cfg \<Rightarrow> string option \<Rightarrow> pd_conn \<Rightarrow> pd_conn" where
  "set_info c found d =
     (case found of
        Some h \<Rightarrow>
          if info d = None \<or> info_from_lru d
          then touch_update CONN_UPDATE_INFO
                 (check_blacklisted_domain c (d\<lparr>info := Some (take 256 h), info_from_lru := False\<rparr>))
          else d
      | None \<Rightarrow> d)"

text \<open>\<open>process_ndpi_data\<close>; \<open>None\<close> is the dereference of a flow that was freed.\<close>

definition process_ndpi_data :: "ndpi \<Rightarrow> pd_cfg \<Rightarrow> zdtun_5tuple \<Rightarrow> pd_conn \<Rightarrow> pd_conn option" where
  "process_ndpi_data nd c tuple d = do {
     (d1, found) \<leftarrow>
       (if l7proto d \<in> {NDPI_PROTOCOL_TLS, NDPI_PROTOCOL_DNS, NDPI_PROTOCOL_HTTP}
        then do { fl \<leftarrow> ndpi_flow d; Some (scan_flow nd fl d) } else Some (d, None));
     let d2 = set_info c found d1;
     Some (if vpn_capture c then vpn_process_ndpi nd c tuple d2 else d2) }"

definition pd_giveup_dpi :: "ndpi \<Rightarrow> pd_cfg \<Rightarrow> zdtun_5tuple \<Rightarrow> pd_conn \<Rightarrow> pd_conn option" where
  "pd_giveup_dpi nd c tuple d =
     (case ndpi_flow d of
        None \<Rightarrow> Some d
      | Some fl \<Rightarrow>
          let d1 = (if l7proto d = NDPI_PROTOCOL_UNKNOWN
                    then let p = pd_ndpi2proto (nd_giveup nd fl)
                         in d\<lparr>l7proto := p, encrypted_l7 := is_encrypted_l7 (nd_limit nd) (nd_clear nd) p\<rparr>
                    else d)
          in do { d2 \<leftarrow> process_ndpi_data nd c tuple d1; Some (d2\<lparr>ndpi_flow := None\<rparr>) })"

section \<open>DNS replies\<close>

text \<open>
  The scan of \<open>process_dns_reply\<close>: \<open>p\<close> is the offset of \<open>reply\<close> in the payload bytes \<open>b\<close>, which
  include whatever can be read after the payload; \<open>len\<close> is the signed count the code keeps.
\<close>

fun skip_query :: "byte list \<Rightarrow> nat \<Rightarrow> nat \<Rightarrow> (nat \<times> nat) option" where
  "skip_query b p 0 = Some (p, 0)"
| "skip_query b p (Suc n) = do { x \<leftarrow> rd8 b p; if x \<noteq> 0 then skip_query b (p + 1) n else Some (p, Suc n) }"

fun skip_queries :: "byte list \<Rightarrow> nat \<Rightarrow> int \<Rightarrow> nat \<Rightarrow> (nat \<times> int) option" where
  "skip_queries b p len 0 = Some (p, len)"
| "skip_queries b p len (Suc k) =
     (if 0 < len then do {
        (p', n) \<leftarrow> skip_query b p (nat len);
        skip_queries b (p' + 5) (int n - 5) k }
      else Some (p, len))"

fun skip_name :: "byte list \<Rightarrow> nat \<Rightarrow> nat \<Rightarrow> (nat \<times> int) option" where
  "skip_name b p 0 = Some (p, 0)"
| "skip_name b p (Suc n) = do {
     x \<leftarrow> rd8 b p;
     if x = 0 then Some (p + 1, int n)
     else if x = 0xC0 then Some (p + 2, int n - 1)
     else skip_name b (p + 1) n }"

fun read_answers :: "byte list \<Rightarrow> string \<Rightarrow> nat \<Rightarrow> int \<Rightarrow> nat \<Rightarrow> ip_lru \<Rightarrow> ip_lru option" where
  "read_answers b query p len 0 lru = Some lru"
| "read_answers b query p len (Suc k) lru =
     (if 0 < len then do {
        (p1, len1) \<leftarrow> skip_name b p (nat len);
        if len1 < 10 then Some lru
        else do {
          raw_type \<leftarrow> rd16 b p1;
          raw_len \<leftarrow> rd16 b (p1 + 8);
          let rec_type = ntohs raw_type;
          let addr_len = unat (ntohs raw_len);
          let p2 = p1 + 10;
          lru' \<leftarrow> (if rec_type = 1 \<and> addr_len = 4 then do {
                     a \<leftarrow> rd32 b p2; Some (ip_lru_add True True lru (of_ip4 a) query) }
                   else if rec_type = 0x1C \<and> addr_len = 16 then do {
                     a \<leftarrow> rd128 b p2; Some (ip_lru_add True True lru a query) }
                   else Some lru);
          read_answers b query (p2 + addr_len) (len1 - 10 - int addr_len) k lru' } }
      else Some lru)"

definition process_dns_reply :: "byte list \<Rightarrow> nat \<Rightarrow> string \<Rightarrow> ip_lru \<Rightarrow> ip_lru option" where
  "process_dns_reply b l7_len query lru =
     (if query = [] \<or> CHR ''.'' \<notin> set query \<or> l7_len < 12 then Some lru
      else do {
        flags \<leftarrow> rd16 b 2;
        questions \<leftarrow> rd16 b 4;
        answ_rrs \<leftarrow> rd16 b 6;
        if ntohs flags AND 0x8000 = 0x8000 \<and> questions \<noteq> 0 \<and> answ_rrs \<noteq> 0
        then do {
          (p, len) \<leftarrow> skip_queries b 12 (int l7_len - 12) (unat (ntohs questions));
          read_answers b query p len (min (unat (ntohs answ_rrs)) 32) lru }
        else Some lru })"

section \<open>Payload\<close>

text \<open>
  \<open>process_payload\<close>: the number of bytes handed to the callback, if it is called, the connection and
  whether \<open>pd_notify_connection_update\<close> is called. \<open>cb\<close> is what the callback does: its result, and
  whether the connection has a chunk list afterwards (\<open>payload_chunks\<close>, which it may create).
\<close>

definition MINIMAL_PAYLOAD_MAX_DIRECTION_SIZE :: nat where
  "MINIMAL_PAYLOAD_MAX_DIRECTION_SIZE = 512"

definition has_payload :: "bool \<Rightarrow> pd_conn \<Rightarrow> bool" where
  "has_payload is_tx d = (if is_tx then has_payload_tx d else has_payload_rx d)"

definition set_has_payload :: "bool \<Rightarrow> pd_conn \<Rightarrow> pd_conn" where
  "set_has_payload is_tx d = (if is_tx then d\<lparr>has_payload_tx := True\<rparr> else d\<lparr>has_payload_rx := True\<rparr>)"

definition process_payload :: "pd_cfg \<Rightarrow> bool \<times> bool \<Rightarrow> bool \<Rightarrow> nat \<Rightarrow> pd_conn \<Rightarrow> nat option \<times> pd_conn \<times> bool" where
  "process_payload c cb is_tx l7_len d =
     (if payload_mode_cfg c = PAYLOAD_MODE_NONE \<or> \<not> has_chunk_cb c \<or> l7_len = 0 \<or> (tls_enabled c \<and> proxied d)
      then (None, d, False)
      else let minimal = (payload_mode_cfg c = PAYLOAD_MODE_MINIMAL);
               dumping = (\<not> minimal \<or> \<not> has_payload is_tx d);
               cut = (minimal \<and> MINIMAL_PAYLOAD_MAX_DIRECTION_SIZE < l7_len);
               to_dump = (if cut then MINIMAL_PAYLOAD_MAX_DIRECTION_SIZE else l7_len);
               updated = (dumping \<and> fst cb);
               truncated = (payload_truncated d \<or> \<not> dumping \<or> cut \<or> \<not> fst cb);
               d0 = (if dumping then d\<lparr>payload_chunks := payload_chunks d \<or> snd cb\<rparr> else d);
               d1 = (if updated then set_has_payload is_tx d0 else d0);
               notify = (updated \<and> payload_chunks d1 \<or> truncated \<noteq> payload_truncated d)
           in (if dumping then Some to_dump else None,
               if notify then touch_update CONN_UPDATE_PAYLOAD
                                (d1\<lparr>payload_truncated := payload_truncated d1 \<or> truncated\<rparr>) else d1,
               notify))"

text \<open>A sequence of packets of one connection: direction, payload length, what the callback does.\<close>

type_synonym chunk_in = "bool \<times> nat \<times> bool \<times> bool"

fun payload_run :: "pd_cfg \<Rightarrow> chunk_in list \<Rightarrow> pd_conn \<Rightarrow> (bool \<times> nat) list \<times> pd_conn" where
  "payload_run c [] d = ([], d)"
| "payload_run c ((tx, n, cb) # ps) d =
     (case process_payload c cb tx n d of (out, d1, _) \<Rightarrow>
        case payload_run c ps d1 of (outs, d2) \<Rightarrow>
          (case out of Some k \<Rightarrow> if fst cb then (tx, k) # outs else outs | None \<Rightarrow> outs, d2))"

section \<open>Lemmas on the payload\<close>

definition collecting :: "pd_cfg \<Rightarrow> pd_conn \<Rightarrow> bool" where
  "collecting c d \<longleftrightarrow> payload_mode_cfg c \<noteq> PAYLOAD_MODE_NONE \<and> has_chunk_cb c \<and> \<not> (tls_enabled c \<and> proxied d)"

lemma touch_update_fields [simp]:
  "payload_truncated (touch_update f d) = payload_truncated d" "proxied (touch_update f d) = proxied d"
  "has_payload tx (touch_update f d) = has_payload tx d"
  by (simp_all add: touch_update_def has_payload_def)

lemma has_payload_simps [simp]:
  "has_payload x (set_has_payload tx d) \<longleftrightarrow> x = tx \<or> has_payload x d"
  "has_payload x (d\<lparr>payload_chunks := b\<rparr>) = has_payload x d"
  "has_payload x (d\<lparr>payload_truncated := b\<rparr>) = has_payload x d"
  "proxied (set_has_payload tx d) = proxied d"
  "payload_truncated (set_has_payload tx d) = payload_truncated d"
  by (auto simp: has_payload_def set_has_payload_def)

lemma process_payload_keeps:
  assumes "process_payload c cb tx n d = (out, d', nf)"
  shows "proxied d' = proxied d" "payload_truncated d \<Longrightarrow> payload_truncated d'"
    and "payload_mode_cfg c = PAYLOAD_MODE_MINIMAL \<Longrightarrow>
      has_payload x d' \<longleftrightarrow> has_payload x d \<or> x = tx \<and> out \<noteq> None \<and> fst cb"
    and "payload_mode_cfg c = PAYLOAD_MODE_MINIMAL \<Longrightarrow> out = Some k \<Longrightarrow>
      \<not> has_payload tx d \<and> k \<le> MINIMAL_PAYLOAD_MAX_DIRECTION_SIZE"
  using assms by (auto simp: process_payload_def Let_def split: if_splits)

lemma process_payload_complete:
  assumes "process_payload c cb tx n d = (out, d', nf)" "collecting c d" "\<not> payload_truncated d'" "n \<noteq> 0"
  shows "out = Some n \<and> fst cb"
  using assms by (auto simp: process_payload_def Let_def collecting_def split: if_splits)

lemma process_payload_empty: "process_payload c cb tx 0 d = (None, d, False)"
  by (simp add: process_payload_def)

definition dir_bytes :: "bool \<Rightarrow> (bool \<times> nat) list \<Rightarrow> nat" where
  "dir_bytes tx outs = sum_list (map snd (filter (\<lambda>e. fst e = tx) outs))"

lemma dir_bytes_simps [simp]:
  "dir_bytes tx [] = 0" "dir_bytes tx ((t, k) # outs) = (if t = tx then k else 0) + dir_bytes tx outs"
  by (simp_all add: dir_bytes_def)

lemma payload_run_truncated_mono:
  "payload_truncated d \<Longrightarrow> payload_truncated (snd (payload_run c ps d))"
proof (induction c ps d rule: payload_run.induct)
  case (2 c tx n cb ps d)
  obtain out d1 nf where p: "process_payload c cb tx n d = (out, d1, nf)" by (metis prod_cases3)
  from 2 p process_payload_keeps(2) [OF p] have "payload_truncated (snd (payload_run c ps d1))" by simp
  with p show ?case by (auto split: prod.splits option.splits)
qed simp

lemma payload_run_minimal:
  "payload_mode_cfg c = PAYLOAD_MODE_MINIMAL \<Longrightarrow>
     dir_bytes x (fst (payload_run c ps d)) \<le> (if has_payload x d then 0 else MINIMAL_PAYLOAD_MAX_DIRECTION_SIZE)"
proof (induction c ps d rule: payload_run.induct)
  case (2 c tx n cb ps d)
  obtain out d1 nf where p: "process_payload c cb tx n d = (out, d1, nf)" by (metis prod_cases3)
  note k = process_payload_keeps(3,4) [OF p 2(2)]
  have "dir_bytes x (fst (payload_run c ps d1)) \<le> (if has_payload x d1 then 0 else MINIMAL_PAYLOAD_MAX_DIRECTION_SIZE)"
    using 2 p by simp
  then show ?case using k(1) [of x] k(2) p
    by (cases out; cases "fst cb"; cases "x = tx"; cases "has_payload x d") (auto split: prod.splits)
qed simp

lemma payload_run_complete:
  "collecting c d \<Longrightarrow> \<not> payload_truncated (snd (payload_run c ps d)) \<Longrightarrow>
     dir_bytes x (fst (payload_run c ps d)) = dir_bytes x (map (\<lambda>p. (fst p, fst (snd p))) ps)"
proof (induction c ps d rule: payload_run.induct)
  case (2 c tx n cb ps d)
  obtain out d1 nf where p: "process_payload c cb tx n d = (out, d1, nf)" by (metis prod_cases3)
  have c1: "collecting c d1" using 2(2) process_payload_keeps(1) [OF p] by (simp add: collecting_def)
  have nt: "\<not> payload_truncated (snd (payload_run c ps d1))" using 2(3) p by (simp split: prod.splits option.splits)
  then have "\<not> payload_truncated d1" using payload_run_truncated_mono by blast
  then have "n = 0 \<and> out = None \<or> out = Some n \<and> fst cb"
    using process_payload_complete [OF p 2(2)] p by (cases "n = 0") (auto simp: process_payload_empty)
  with 2(1) [OF p [symmetric] refl c1 nt] p show ?case by (auto split: prod.splits)
qed simp

section \<open>Lemmas on DNS replies\<close>

text \<open>The offset and the remaining count always add up to the payload length.\<close>

lemma skip_query_ok:
  "p + n \<le> length b \<Longrightarrow> \<exists>p' n'. skip_query b p n = Some (p', n') \<and> p' + n' = p + n"
  by (induction b p n rule: skip_query.induct) auto

lemma skip_queries_ok:
  "int p + len = int m \<Longrightarrow> m \<le> length b \<Longrightarrow>
     \<exists>p' len'. skip_queries b p len k = Some (p', len') \<and> int p' + len' = int m"
proof (induction b p len k rule: skip_queries.induct)
  case (2 b p len k)
  show ?case
  proof (cases "0 < len")
    case True
    then have "p + nat len \<le> length b" using 2(2,3) by linarith
    from skip_query_ok [OF this] obtain p' n
      where q: "skip_query b p (nat len) = Some (p', n)" "p' + n = p + nat len" by auto
    then have "int (p' + 5) + (int n - 5) = int m" using True 2(2) by linarith
    from 2(1) [OF True q(1) refl this 2(3)] q True show ?thesis by simp
  qed (use 2(2) in simp)
qed simp

lemma skip_name_ok:
  "p + n \<le> length b \<Longrightarrow> \<exists>p' len'. skip_name b p n = Some (p', len') \<and> int p' + len' = int (p + n)"
  by (induction b p n rule: skip_name.induct) auto

lemma read_answers_ok:
  "int p + len = int m \<Longrightarrow> m + 16 \<le> length b \<Longrightarrow> in_bounds (read_answers b q p len k lru)"
proof (induction k arbitrary: p len lru)
  case (Suc k)
  show ?case
  proof (cases "0 < len")
    case True
    then have "p + nat len \<le> length b" using Suc(2,3) by linarith
    from skip_name_ok [OF this] obtain p1 len1
      where s: "skip_name b p (nat len) = Some (p1, len1)" "int p1 + len1 = int (p + nat len)" by blast
    then have m: "int p1 + len1 = int m" using True Suc(2) by linarith
    have IH: "in_bounds (read_answers b q (p1 + 10 + n) (len1 - 10 - int n) k lru')" for n lru'
      by (rule Suc(1)) (use m Suc(3) in simp_all)
    show ?thesis
    proof (cases "len1 < 10")
      case False
      with m Suc(3) have "p1 + 26 \<le> length b" by linarith
      with s True False IH show ?thesis by (simp add: Let_def del: of_nat_unat)
    qed (simp add: s True)
  qed simp
qed simp

text \<open>
  Well-formed replies: each question is a name (without zero bytes) with its terminator, type and
  class; each answer a compressed name, type, class, time to live, length and data.
\<close>

type_synonym dns_record = "byte \<times> u16 \<times> byte list \<times> byte list"

definition question_bytes :: "byte list \<times> u32 \<Rightarrow> byte list" where
  "question_bytes q = fst q @ [0] @ put32 (snd q)"

definition record_bytes :: "dns_record \<Rightarrow> byte list" where
  "record_bytes r = (case r of (ptr, ty, class_ttl, dat) \<Rightarrow>
     [0xC0, ptr] @ put16 (htons ty) @ class_ttl @ put16 (htons (of_nat (length dat))) @ dat)"

definition wf_record :: "dns_record \<Rightarrow> bool" where
  "wf_record r = (case r of (ptr, ty, class_ttl, dat) \<Rightarrow> length class_ttl = 6 \<and> length dat < 65536)"

text \<open>What the cache learns from one answer.\<close>

definition learn :: "string \<Rightarrow> dns_record \<Rightarrow> ip_lru \<Rightarrow> ip_lru" where
  "learn query r lru = (case r of (ptr, ty, class_ttl, dat) \<Rightarrow>
     if ty = 1 \<and> length dat = 4
     then case rd32 dat 0 of Some a \<Rightarrow> ip_lru_add True True lru (of_ip4 a) query | None \<Rightarrow> lru
     else if ty = 0x1C \<and> length dat = 16
     then case rd128 dat 0 of Some a \<Rightarrow> ip_lru_add True True lru a query | None \<Rightarrow> lru
     else lru)"

definition dns_reply_bytes :: "u16 \<Rightarrow> u16 \<Rightarrow> u32 \<Rightarrow> (byte list \<times> u32) list \<Rightarrow> dns_record list \<Rightarrow> byte list" where
  "dns_reply_bytes txid flags counts qs rs =
     put16 txid @ put16 (htons flags) @ put16 (htons (of_nat (length qs))) @ put16 (htons (of_nat (length rs))) @
     put32 counts @ concat (map question_bytes qs) @ concat (map record_bytes rs)"

lemma skip_query_scan:
  "0 \<notin> set q \<Longrightarrow> skip_query (pre @ q @ 0 # rest) (length pre) (length q + Suc n) = Some (length pre + length q, Suc n)"
proof (induction q arbitrary: pre)
  case (Cons x q)
  from Cons(1) [of "pre @ [x]"] Cons(2) show ?case by simp
qed (simp add: rd8_def)

lemma skip_queries_scan:
  "\<forall>q \<in> set qs. 0 \<notin> set (fst q) \<Longrightarrow>
     skip_queries (pre @ concat (map question_bytes qs) @ rest) (length pre)
       (int (length (concat (map question_bytes qs)) + n)) (length qs) =
     Some (length pre + length (concat (map question_bytes qs)), int n)"
proof (induction qs arbitrary: pre)
  case (Cons q qs)
  define tail where "tail = concat (map question_bytes qs)"
  have b: "pre @ question_bytes q @ tail @ rest = pre @ fst q @ 0 # put32 (snd q) @ tail @ rest"
    by (simp add: question_bytes_def)
  have l: "length (question_bytes q) = length (fst q) + 5" by (simp add: question_bytes_def)
  have s: "skip_query (pre @ question_bytes q @ tail @ rest) (length pre) (length (fst q) + Suc (4 + length tail + n)) =
      Some (length pre + length (fst q), Suc (4 + length tail + n))"
    unfolding b by (rule skip_query_scan) (use Cons(2) in simp)
  from Cons(1) [of "pre @ question_bytes q"] Cons(2)
  have IH: "skip_queries (pre @ question_bytes q @ tail @ rest) (length pre + length (fst q) + 5)
      (int (length tail + n)) (length qs) = Some (length pre + length (fst q) + 5 + length tail, int n)"
    by (simp add: tail_def l add.assoc)
  have e: "nat (int (length (fst q) + 5 + length tail + n)) = length (fst q) + Suc (4 + length tail + n)" by simp
  have "skip_queries (pre @ question_bytes q @ tail @ rest) (length pre)
      (int (length (fst q) + 5 + length tail + n)) (Suc (length qs)) =
     Some (length pre + length (fst q) + 5 + length tail, int n)"
    unfolding skip_queries.simps e s using IH by simp
  then show ?case by (simp add: tail_def l ac_simps)
qed simp

lemma length_record: "wf_record r \<Longrightarrow> length (record_bytes r) = 12 + length (snd (snd (snd r)))"
  by (auto simp: record_bytes_def wf_record_def)

lemma rd_offset:
  "rd16 (pre @ b) (length pre + i) = rd16 b i" "rd32 (pre @ b) (length pre + i) = rd32 b i"
  "rd128 (pre @ b) (length pre + i) = rd128 b i"
  by (simp_all only: rd16_def rd32_def rd128_def add.assoc rd8_append)

lemma rd_prefix:
  "i + 3 < length a \<Longrightarrow> rd32 (a @ b) i = rd32 a i" "j + 15 < length a \<Longrightarrow> rd128 (a @ b) j = rd128 a j"
  by (simp_all add: rd8_def rd32_def rd128_def nth_append)

lemma read_answers_step:
  assumes "wf_record (ptr, ty, ct, dat)"
  shows "read_answers (pre @ record_bytes (ptr, ty, ct, dat) @ rest) query (length pre)
      (int (length (record_bytes (ptr, ty, ct, dat)) + n)) (Suc k) lru =
    read_answers (pre @ record_bytes (ptr, ty, ct, dat) @ rest) query
      (length pre + length (record_bytes (ptr, ty, ct, dat))) (int n) k (learn query (ptr, ty, ct, dat) lru)"
proof -
  let ?r = "record_bytes (ptr, ty, ct, dat)" and ?b = "pre @ record_bytes (ptr, ty, ct, dat) @ rest"
  have ct: "length ct = 6" and dl: "length dat < 65536" using assms by (auto simp: wf_record_def)
  have r: "?r = [0xC0, ptr] @ put16 (htons ty) @ ct @ put16 (htons (of_nat (length dat))) @ dat"
    by (simp add: record_bytes_def)
  have len: "length ?r = 12 + length dat" using ct by (simp add: r)
  have c0: "rd8 ?b (length pre) = Some 0xC0" by (simp add: r rd8_def)
  have nm: "skip_name ?b (length pre) (Suc (11 + length dat + n)) = Some (length pre + 2, int (10 + length dat + n))"
    unfolding skip_name.simps c0 by simp
  have ty: "rd16 ?b (length pre + 2) = Some (htons ty)"
    using rd16_put16 [of "[0xC0, ptr]" "htons ty"] by (simp only: rd_offset) (simp add: r numeral_2_eq_2)
  have ln: "rd16 ?b (length pre + 2 + 8) = Some (htons (of_nat (length dat)))"
    using rd16_put16 [of "[0xC0, ptr] @ put16 (htons ty) @ ct" "htons (of_nat (length dat))"] ct
    by (simp only: add.assoc rd_offset) (simp add: r)
  have dt: "?b = (pre @ [0xC0, ptr] @ put16 (htons ty) @ ct @ put16 (htons (of_nat (length dat)))) @ dat @ rest"
    by (simp add: r)
  have off: "length pre + 2 + 10 = length (pre @ [0xC0, ptr] @ put16 (htons ty) @ ct @ put16 (htons (of_nat (length dat)))) + 0"
    using ct by simp
  have a4: "length dat = 4 \<Longrightarrow> rd32 ?b (length pre + 2 + 10) = rd32 dat 0"
    unfolding dt off rd_offset by (simp add: rd_prefix)
  have a16: "length dat = 16 \<Longrightarrow> rd128 ?b (length pre + 2 + 10) = rd128 dat 0"
    unfolding dt off rd_offset by (simp add: rd_prefix)
  have of12: "length pre + 2 + 10 = 12 + length pre" by simp
  have some: "length dat = 4 \<Longrightarrow> \<exists>x. rd32 dat 0 = Some x" "length dat = 16 \<Longrightarrow> \<exists>x. rd128 dat 0 = Some x"
    by (simp_all add: rd_in_range)
  have e: "nat (int (length ?r + n)) = Suc (11 + length dat + n)" "0 < int (length ?r + n)"
    using len by simp_all
  have ul: "unat (ntohs (htons (of_nat (length dat) :: u16))) = length dat" using dl by (simp add: unat_of_nat_small)
  have ad: "length pre + 2 + 10 + length dat = length pre + length ?r" using len by simp
  have ad2: "int (10 + length dat + n) - 10 - int (length dat) = int n" by simp
  have big: "\<not> int (10 + length dat + n) < 10" by simp
  show ?thesis
    unfolding read_answers.simps e nm Let_def using some e(2) big a4 [unfolded of12] a16 [unfolded of12]
    by (simp only: if_True if_False bind.simps prod.case ty ln bswap16_bswap16 ul [unfolded bswap16_bswap16] ad ad2)
      (auto simp: learn_def cong: if_cong)
qed

lemma read_answers_scan:
  "list_all wf_record rs \<Longrightarrow>
     read_answers (pre @ concat (map record_bytes rs) @ rest) query (length pre)
       (int (length (concat (map record_bytes rs)) + n)) k lru =
     (if k \<le> length rs then Some (fold (learn query) (take k rs) lru)
      else read_answers (pre @ concat (map record_bytes rs) @ rest) query
        (length pre + length (concat (map record_bytes rs))) (int n) (k - length rs) (fold (learn query) rs lru))"
proof (induction rs arbitrary: pre k lru)
  case (Cons r rs)
  obtain ptr ty ct dat where r: "r = (ptr, ty, ct, dat)" by (cases r)
  show ?case
  proof (cases k)
    case (Suc j)
    have st: "read_answers (pre @ record_bytes r @ concat (map record_bytes rs) @ rest) query (length pre)
        (int (length (record_bytes r) + (length (concat (map record_bytes rs)) + n))) (Suc j) lru =
      read_answers (pre @ record_bytes r @ concat (map record_bytes rs) @ rest) query
        (length pre + length (record_bytes r)) (int (length (concat (map record_bytes rs)) + n)) j (learn query r lru)"
      unfolding r by (rule read_answers_step) (use Cons(2) in \<open>simp add: r\<close>)
    from st Cons(1) [of "pre @ record_bytes r" j "learn query r lru"] Cons(2) show ?thesis
      by (simp add: Suc ac_simps)
  qed simp
qed simp

section \<open>Lemmas on the blocking decision\<close>

text \<open>Who blocks a connection: the malware lists, the blocklist, the whitelist mode.\<close>

definition list_domain :: "bl option \<Rightarrow> pd_conn \<Rightarrow> bool" where
  "list_domain l d \<longleftrightarrow> (\<exists>b i. l = Some b \<and> info d = Some i \<and> i \<noteq> [] \<and> blacklist_match_domain b i)"

definition list_ip :: "ndpi \<Rightarrow> bl option \<Rightarrow> zdtun_5tuple \<Rightarrow> bool" where
  "list_ip nd l t \<longleftrightarrow> (\<exists>b. l = Some b \<and> blacklist_match_ip (nd_ops nd) b (dst_ip t) (uint (ipver t)))"

definition list_uid :: "bl option \<Rightarrow> pd_conn \<Rightarrow> bool" where
  "list_uid l d \<longleftrightarrow> (\<exists>b. l = Some b \<and> blacklist_match_uid b (uid d))"

definition malware_blocks :: "ndpi \<Rightarrow> pd_cfg \<Rightarrow> zdtun_5tuple \<Rightarrow> pd_conn \<Rightarrow> bool" where
  "malware_blocks nd c t d \<longleftrightarrow> \<not> whitelisted_app d \<and>
     (list_domain (malware_bl c) d \<and> \<not> list_domain (malware_wl c) d \<or>
      list_ip nd (malware_bl c) t \<and> \<not> list_ip nd (malware_wl c) t)"

definition blocklist_blocks :: "ndpi \<Rightarrow> pd_cfg \<Rightarrow> zdtun_5tuple \<Rightarrow> pd_conn \<Rightarrow> bool" where
  "blocklist_blocks nd c t d \<longleftrightarrow>
     fw_enabled c \<and> (list_domain (fw_bl c) d \<or> list_ip nd (fw_bl c) t \<or> list_uid (fw_bl c) d)"

definition system_dns :: "zdtun_5tuple \<Rightarrow> pd_conn \<Rightarrow> bool" where
  "system_dns t d \<longleftrightarrow> ipproto t = IPPROTO_UDP \<and> ntohs (dst_port t) = 53 \<and> uid d \<in> {UID_NETD, UID_PHONE, UID_UNKNOWN}"

definition whitelist_blocks :: "pd_cfg \<Rightarrow> zdtun_5tuple \<Rightarrow> pd_conn \<Rightarrow> bool" where
  "whitelist_blocks c t d \<longleftrightarrow> fw_enabled c \<and> fw_wl_enabled c \<and> fw_wl c \<noteq> None \<and> \<not> list_uid (fw_wl c) d \<and> \<not> system_dns t d"

lemmas list_defs = list_domain_def list_ip_def list_uid_def

lemma check_malware_domain_spec:
  assumes "\<not> to_block d" "\<not> blacklisted_domain d"
  shows "(if info d \<noteq> None then check_blacklisted_domain c d else d) =
    (let m = \<not> whitelisted_app d \<and> list_domain (malware_bl c) d \<and> \<not> list_domain (malware_wl c) d
     in d\<lparr>blacklisted_domain := m, to_block := m \<or> fw_enabled c \<and> list_domain (fw_bl c) d\<rparr>)"
proof -
  have [simp]: "d\<lparr>blacklisted_domain := False, to_block := False\<rparr> = d" using assms by simp
  have [simp]: "d\<lparr>blacklisted_domain := False, to_block := b\<rparr> = d\<lparr>to_block := b\<rparr>" for b using assms by simp
  show ?thesis using assms
    by (auto simp: check_blacklisted_domain_def list_domain_def Let_def split: option.splits)
qed

lemma check_malware_ip_spec:
  assumes "\<not> blacklisted_ip d"
  shows "check_malware_ip nd c t d =
    (let m = \<not> whitelisted_app d \<and> list_ip nd (malware_bl c) t \<and> \<not> list_ip nd (malware_wl c) t
     in d\<lparr>blacklisted_ip := m, to_block := to_block d \<or> m\<rparr>)"
proof -
  have [simp]: "d\<lparr>blacklisted_ip := False, to_block := to_block d\<rparr> = d" using assms by simp
  show ?thesis
    by (cases "malware_bl c"; cases "malware_wl c"; cases "whitelisted_app d")
      (simp_all add: check_malware_ip_def list_ip_def Let_def)
qed

lemma set_to_block_same [simp]: "d\<lparr>to_block := to_block d\<rparr> = d"
  by simp

lemma to_block_eqI: "to_block d = b \<Longrightarrow> d = d\<lparr>to_block := b\<rparr>"
  using set_to_block_same [of d] by simp

lemma check_firewall_new_spec:
  "check_firewall_new nd c t d =
     d\<lparr>to_block := to_block d \<or> fw_enabled c \<and> (list_ip nd (fw_bl c) t \<or> list_uid (fw_bl c) d)\<rparr>"
  by (cases "to_block d")
    (auto simp: check_firewall_new_def list_ip_def list_uid_def intro: to_block_eqI split: option.splits)

lemma check_whitelist_spec:
  "check_whitelist_mode_block c t d = d\<lparr>to_block := to_block d \<or> whitelist_blocks c t d\<rparr>"
  by (cases "to_block d")
    (auto simp: check_whitelist_mode_block_def whitelist_blocks_def list_uid_def system_dns_def Let_def
      intro: to_block_eqI split: option.splits)

lemma recheck_block_spec:
  "recheck_block nd c t d =
     d\<lparr>to_block := blacklisted_internal d \<or> blacklisted_ip d \<or> blacklisted_domain d \<or>
       blocklist_blocks nd c t d \<or> whitelist_blocks c t d\<rparr>"
proof -
  have [simp]: "whitelist_blocks c t (d\<lparr>to_block := b\<rparr>) = whitelist_blocks c t d" for b
    by (simp add: whitelist_blocks_def list_uid_def system_dns_def)
  have "(case fw_bl c of
           Some fb \<Rightarrow>
             if \<not> b0 \<and> fw_enabled c
             then blacklist_match_uid fb (uid d) \<or> blacklist_match_ip (nd_ops nd) fb (dst_ip t) (uint (ipver t)) \<or>
                  (case info d of Some i \<Rightarrow> i \<noteq> [] \<and> blacklist_match_domain fb i | None \<Rightarrow> False)
             else b0
         | None \<Rightarrow> b0) = (b0 \<or> blocklist_blocks nd c t d)" for b0
    by (auto simp: blocklist_blocks_def list_defs split: option.splits)
  then show ?thesis by (simp add: recheck_block_def check_whitelist_spec Let_def disj_ac)
qed

lemma blocks_cong:
  "info d' = info d \<Longrightarrow> uid d' = uid d \<Longrightarrow> blocklist_blocks nd c t d' = blocklist_blocks nd c t d"
  "uid d' = uid d \<Longrightarrow> whitelist_blocks c t d' = whitelist_blocks c t d"
  by (simp_all add: blocklist_blocks_def whitelist_blocks_def list_defs system_dns_def)

text \<open>The connection as the checks of \<open>pd_new_connection\<close> find it.\<close>

definition not_yet_checked :: "pd_conn \<Rightarrow> bool" where
  "not_yet_checked d \<longleftrightarrow> \<not> to_block d \<and> \<not> blacklisted_domain d \<and> \<not> blacklisted_ip d \<and> \<not> blacklisted_internal d"

lemma new_conn_checks_spec:
  assumes "not_yet_checked d"
  shows "new_conn_checks nd c t d =
    (let w = \<not> whitelisted_app d
     in d\<lparr>blacklisted_domain := w \<and> list_domain (malware_bl c) d \<and> \<not> list_domain (malware_wl c) d,
          blacklisted_ip := w \<and> list_ip nd (malware_bl c) t \<and> \<not> list_ip nd (malware_wl c) t,
          to_block := malware_blocks nd c t d \<or> blocklist_blocks nd c t d \<or> whitelist_blocks c t d\<rparr>)"
proof -
  let ?d1 = "if info d \<noteq> None then check_blacklisted_domain c d else d"
  have d1: "?d1 = d\<lparr>blacklisted_domain := \<not> whitelisted_app d \<and> list_domain (malware_bl c) d \<and> \<not> list_domain (malware_wl c) d,
      to_block := \<not> whitelisted_app d \<and> list_domain (malware_bl c) d \<and> \<not> list_domain (malware_wl c) d \<or>
        fw_enabled c \<and> list_domain (fw_bl c) d\<rparr>"
    using assms by (subst check_malware_domain_spec) (simp_all add: not_yet_checked_def Let_def)
  have u: "\<not> blacklisted_ip ?d1" using assms unfolding d1 by (simp add: not_yet_checked_def)
  have e: "list_uid l (d\<lparr>blacklisted_domain := p, blacklisted_ip := r, to_block := q\<rparr>) = list_uid l d" for l p q r
    by (simp add: list_uid_def)
  have w: "whitelist_blocks c t (d\<lparr>blacklisted_domain := p, blacklisted_ip := r, to_block := q\<rparr>) = whitelist_blocks c t d" for p q r
    by (rule blocks_cong) simp
  show ?thesis unfolding new_conn_checks_def check_malware_ip_spec [OF u] check_firewall_new_spec check_whitelist_spec
    unfolding d1 Let_def
    by (rule pd_conn.equality) (simp_all add: e w malware_blocks_def blocklist_blocks_def, blast)
qed

lemma process_dns_reply_bounds:
  assumes "l7_len + 16 \<le> length b"
  shows "process_dns_reply b l7_len query lru \<noteq> None"
proof -
  have "in_bounds (process_dns_reply b l7_len query lru)"
    unfolding process_dns_reply_def
  proof (clarsimp, intro conjI impI allI; (use assms in linarith)?)
    fix questions answ_rrs p len
    assume "\<not> l7_len < 12"
      "skip_queries b 12 (int l7_len - 12) (unat (ntohs questions)) = Some (p, len)"
    then have "int p + len = int l7_len"
      using skip_queries_ok [of 12 "int l7_len - 12" l7_len b "unat (ntohs questions)"] assms by auto
    then show "in_bounds (read_answers b query p len (min (unat (ntohs answ_rrs)) 32) lru)"
      by (rule read_answers_ok) (rule assms)
  next
    fix questions :: u16
    show "in_bounds (skip_queries b 12 (int l7_len - 12) (unat (ntohs questions)))"
      if "\<not> l7_len < 12"
      using skip_queries_ok [of 12 "int l7_len - 12" l7_len b "unat (ntohs questions)"] assms that by auto
  qed
  then show ?thesis by (simp add: in_bounds_def)
qed

section \<open>Properties\<close>

text \<open>
  C14: the DNS reply scan is memory safe for every payload, every count of questions and answers and
  every label and record length in it, provided that 16 bytes can be read after the payload (the
  address of the last record is read without a check that it lies inside the payload).
\<close>

theorem process_dns_reply_safe:
  assumes "l7_len + 16 \<le> length b"
  shows "process_dns_reply b l7_len query lru \<noteq> None"
  using process_dns_reply_bounds [OF assms] .


definition sample_answer :: dns_record where
  "sample_answer = (0x0C, 1, [0, 1, 0, 0, 0, 60], [93, 184, 216, 34])"


text \<open>Without the slack the scan can leave the payload: an AAAA record cut before its address.\<close>

definition cut_reply :: "byte list" where
  "cut_reply = [0, 0, 0x80, 0, 0, 1, 0, 1, 0, 0, 0, 0] @ [0, 0, 1, 0, 1] @
     [0xC0, 0x0C, 0, 0x1C, 0, 1, 0, 0, 0, 60, 0, 16]"

lemma process_dns_reply_overread:
  "process_dns_reply cut_reply (length cut_reply) ''a.bc'' \<lparr>il_max_size = 256, il_cache = []\<rparr> = None"
  by code_simp

theorem process_dns_reply_safe_witness:
  "process_dns_reply (cut_reply @ replicate 16 0) (length cut_reply) ''a.bc'' \<lparr>il_max_size = 256, il_cache = []\<rparr> \<noteq> None"
  by (rule process_dns_reply_safe) simp

text \<open>
  C11: the blocking decision of a new connection. A connection is blocked exactly when a malware list
  names its domain or address (and neither the malware whitelist nor an exempted app says otherwise),
  when the enabled blocklist names its domain, address or app, or when the whitelist mode is on and
  the app is not whitelisted, DNS of the system resolver apart. The decision is stable: the re-check
  that follows a reload of the lists changes nothing when the lists are the same.
\<close>

theorem new_connection_blocked:
  assumes "\<not> to_block d" and "\<not> blacklisted_domain d" and "\<not> blacklisted_ip d" and "\<not> blacklisted_internal d"
  shows "(to_block (new_conn_checks nd c t d) \<longleftrightarrow>
      malware_blocks nd c t d \<or> blocklist_blocks nd c t d \<or> whitelist_blocks c t d) \<and>
    recheck_block nd c t (new_conn_checks nd c t d) = new_conn_checks nd c t d"
proof -
  have n: "not_yet_checked d" using assms by (simp add: not_yet_checked_def)
  let ?d = "new_conn_checks nd c t d"
  have 1: "to_block ?d \<longleftrightarrow> malware_blocks nd c t d \<or> blocklist_blocks nd c t d \<or> whitelist_blocks c t d"
    by (simp add: new_conn_checks_spec [OF n] Let_def)
  have f: "info ?d = info d" "uid ?d = uid d" "blacklisted_internal ?d = blacklisted_internal d"
    by (simp_all add: new_conn_checks_spec [OF n] Let_def)
  have m: "malware_blocks nd c t d \<longleftrightarrow> blacklisted_ip ?d \<or> blacklisted_domain ?d"
    by (auto simp: new_conn_checks_spec [OF n] Let_def malware_blocks_def)
  have "recheck_block nd c t ?d = ?d"
    unfolding recheck_block_spec
    by (rule to_block_eqI [symmetric]) (use 1 m f assms(4) blocks_cong [of ?d d] in auto)
  with 1 show ?thesis by simp
qed

definition sample_cfg :: pd_cfg where
  "sample_cfg = \<lparr>vpn_capture = False, malware_bl = None, malware_wl = None, fw_enabled = False, fw_bl = None,
     fw_wl_enabled = False, fw_wl = None, tls_enabled = False, tls_list = None,
     known_dns_servers = \<lparr>bl_domains = [], bl_uids = [], bl_ptree = [], bl_stats = \<lparr>num_lists = 0, num_domains = 0,
       num_ips = 0, num_apps = 0, num_failed = 0\<rparr>\<rparr>,
     quic_mode = BLOCK_QUIC_MODE_NEVER, block_private_dns = False, payload_mode_cfg = PAYLOAD_MODE_MINIMAL,
     has_chunk_cb = True\<rparr>"

definition empty_bl :: bl where
  "empty_bl = \<lparr>bl_domains = [], bl_uids = [], bl_ptree = [],
     bl_stats = \<lparr>num_lists = 0, num_domains = 0, num_ips = 0, num_apps = 0, num_failed = 0\<rparr>\<rparr>"

definition sample_ndpi :: ndpi where
  "sample_ndpi = \<lparr>nd_ops = \<lparr>pt_create = Some [], pt_insert = (\<lambda>t a n. (0, (a, n) # t)),
       pt_match = (\<lambda>t a. a \<in> fst ` set t), ip_parse = (\<lambda>s. (-1, 0))\<rparr>,
     nd_process = (\<lambda>fl. (0, 0)), nd_giveup = (\<lambda>fl. (0, 0)), nd_extra = (\<lambda>fl. False), nd_host = (\<lambda>fl. []),
     nd_alpn = (\<lambda>fl. None), nd_url = (\<lambda>fl. None), nd_limit = 300, nd_clear = (\<lambda>p. p = 5)\<rparr>"

definition sample_tuple :: zdtun_5tuple where
  "sample_tuple = \<lparr>src_ip = 0x0100000A, dst_ip = 0x08080808, src_port = 0xE803, dst_port = 0x3500, ipver = 4, ipproto = 17\<rparr>"

theorem new_connection_blocked_witness:
  "to_block (new_conn_checks sample_ndpi
     (sample_cfg\<lparr>fw_enabled := True, fw_bl := Some (empty_bl\<lparr>bl_uids := [(10123, ())]\<rparr>)\<rparr>) sample_tuple
     (zero_conn\<lparr>uid := 10123\<rparr>))"
  by (subst conjunct1 [OF new_connection_blocked])
    (simp_all add: zero_conn_def sample_cfg_def blocklist_blocks_def list_uid_def empty_bl_def
      blacklist_match_uid_def ut_find_def)

text \<open>
  C33: payload collection is bounded and honest. In minimal mode, whatever the sequence of packets,
  at most 512 bytes are collected per direction; in every mode in which payload is collected, if the
  connection is not marked as truncated at the end, then all the payload bytes of both directions
  were collected.
\<close>

theorem payload_collection:
  assumes "payload_mode_cfg c \<noteq> PAYLOAD_MODE_NONE" and "has_chunk_cb c" and "\<not> (tls_enabled c \<and> proxied d)"
    and "\<not> has_payload_tx d" and "\<not> has_payload_rx d" and "payload_run c ps d = (outs, d')"
  shows "(payload_mode_cfg c = PAYLOAD_MODE_MINIMAL \<longrightarrow> dir_bytes tx outs \<le> 512) \<and>
    (\<not> payload_truncated d' \<longrightarrow> dir_bytes tx outs = dir_bytes tx (map (\<lambda>p. (fst p, fst (snd p))) ps))"
  using payload_run_minimal [of c tx ps d] payload_run_complete [of c d ps tx] assms
  by (cases tx) (auto simp: collecting_def has_payload_def MINIMAL_PAYLOAD_MAX_DIRECTION_SIZE_def)

theorem payload_collection_witness:
  "\<exists>outs d'. payload_run sample_cfg [(True, 100, True, True), (False, 30, True, True)] zero_conn = (outs, d') \<and>
     \<not> payload_truncated d' \<and> dir_bytes True outs = 100"
proof -
  obtain outs d' where r: "payload_run sample_cfg [(True, 100, True, True), (False, 30, True, True)] zero_conn = (outs, d')"
    and nt: "\<not> payload_truncated d'"
    by (simp add: process_payload_def Let_def sample_cfg_def zero_conn_def set_has_payload_def has_payload_def
        touch_update_def MINIMAL_PAYLOAD_MAX_DIRECTION_SIZE_def)
  have "dir_bytes True outs = dir_bytes True (map (\<lambda>p. (fst p, fst (snd p))) [(True, 100, True, True), (False, 30, True, True)])"
    by (rule mp [OF conjunct2 [OF payload_collection [OF _ _ _ _ _ r]] nt]) (simp_all add: sample_cfg_def zero_conn_def)
  then show ?thesis using r nt by simp
qed

end
