(* ===== verification/Pcapdroid.thy ===== *)
theory Pcapdroid
  imports Pd_Conn Pcap_Dump
begin

text \<open>
  The capture core (\<^verbatim>\<open>core/pcapdroid.c\<close>) and the dump of connections to the application
  (\<open>sendConnectionsDump\<close> of \<^verbatim>\<open>core/jni_impl.c\<close>).

  Connection data lives in an explicit heap, because it is shared: the capture's connection table
  and the two notification arrays point to the same \<open>pd_conn_t\<close>, and whoever drops it last frees it.
  Operations are in the option monad, where \<open>None\<close> is an invalid memory access (use after free,
  double free, NULL dereference, read outside a buffer).

  The outcomes of memory allocations are read from \<open>allocs\<close>; when it is empty, they succeed.
\<close>

section \<open>State\<close>

type_synonym addr = nat

record conn_array =
  items :: "(zdtun_5tuple \<times> addr) list option"
  arr_size :: nat
  cur_items :: nat

definition no_conns :: conn_array where
  "no_conns = \<lparr>items = None, arr_size = 0, cur_items = 0\<rparr>"

record zdtun_statistics =
  num_icmp_conn :: u16
  num_tcp_conn :: u16
  num_udp_conn :: u16
  num_icmp_opened :: u32
  num_tcp_opened :: u32
  num_udp_opened :: u32

record capture_stats =
  cs_sent_bytes :: int
  cs_rcvd_bytes :: int
  cs_ipv6_sent_bytes :: int
  cs_ipv6_rcvd_bytes :: int
  cs_sent_pkts :: int
  cs_rcvd_pkts :: int
  new_stats :: bool
  cs_last_update_ms :: u64

text \<open>What the application receives: the descriptor of a new connection and updates of its fields.\<close>

record update_stats =
  us_last_seen :: int
  us_payload_length :: int
  us_sent_bytes :: int
  us_rcvd_bytes :: int
  us_sent_pkts :: int
  us_rcvd_pkts :: int
  us_blocked_pkts :: int
  us_tcp_flags :: int
  us_status :: int

record conn_update =
  cu_id :: int
  cu_stats :: "update_stats option"
  cu_info :: "(string \<times> string \<times> string \<times> bool) option"
  cu_payload :: "(bool \<times> bool) option"

record conn_descriptor =
  cd_id :: int
  cd_ipver :: u8
  cd_ipproto :: u8
  cd_src_ip :: zdtun_ip
  cd_dst_ip :: zdtun_ip
  cd_src_port :: u16
  cd_dst_port :: u16
  cd_local_port :: u16
  cd_uid :: int
  cd_ifidx :: u32
  cd_mitm_decrypt :: bool
  cd_first_seen :: int

text \<open>\<open>bl_status_arr_t\<close>: file name and number of rules of each loaded list.\<close>

record bl_status_arr =
  st_items :: "(string \<times> int) list option"
  st_size :: nat
  st_cur_items :: nat

text \<open>
  \<open>pcapdroid_t\<close> with the file-level variables of \<^verbatim>\<open>pcapdroid.c\<close>. \<open>connections\<close> is the table of the
  libpcap capture, \<open>id2ports\<close> the fragment table of its zdtun instance, \<open>sent\<close> the connection dumps
  handed to the application and \<open>dumped\<close> what a stopped PCAP dumper has exported.
\<close>

record pcapdroid =
  heap :: "addr \<Rightarrow> pd_conn option"
  next_addr :: addr
  allocs :: "bool list"
  new_conn_id :: int
  now_ms :: u64
  ip_to_host :: ip_lru
  new_conns :: conn_array
  conns_updates :: conn_array
  cfg :: pd_cfg
  connections :: "(zdtun_5tuple, addr) ut_hash"
  fragments :: id2ports
  zstats :: zdtun_statistics
  cap_stats :: capture_stats
  dumper :: "pcap_dumper option"
  max_pkts_per_flow :: int
  num_discarded_fragments :: int
  num_dropped_pkts :: u32
  netd_resolve_waiting :: int
  next_connections_dump :: u64
  last_connections_dump :: u64
  bl_num_checked_connections :: int
  fw_num_checked_connections :: int
  dump_capture_stats_now :: bool
  reload_blacklists_now :: bool
  mw_enabled :: bool
  reload_in_progress :: bool
  reload_done :: bool
  mw_new_bl :: "bl option"
  mw_status_arr :: "bl_status_arr option"
  mw_new_wl :: "bl option"
  fw_new_bl :: "bl option"
  fw_new_wl :: "bl option"
  tls_new_list :: "bl option"
  pcap_file_capture :: bool
  has_seen_pcapdroid_trailer :: bool
  sent :: "((conn_descriptor option \<times> conn_update) list \<times> (conn_descriptor option \<times> conn_update) list) list"
  stats_sent :: nat
  dumped :: "dump_event list"

text \<open>
  What the core calls: nDPI, the callback that stores a payload chunk, the application names and
  the number of connections the JNI layer converts before a Java exception, if one occurs.
\<close>

record pd_env =
  env_ndpi :: ndpi
  chunk_cb :: "pd_conn \<Rightarrow> nat \<Rightarrow> bool \<times> bool"
  appname_of :: "int \<Rightarrow> byte list"
  jni_limit :: "nat option"
  proto_name_of :: "u16 \<Rightarrow> string"

abbreviation NETD_RESOLVE_DELAY_MS :: u64 where "NETD_RESOLVE_DELAY_MS \<equiv> 1000"
abbreviation CAPTURE_STATS_UPDATE_FREQUENCY_MS :: u64 where "CAPTURE_STATS_UPDATE_FREQUENCY_MS \<equiv> 300"
abbreviation CONNECTION_DUMP_UPDATE_FREQUENCY_MS :: u64 where "CONNECTION_DUMP_UPDATE_FREQUENCY_MS \<equiv> 1000"
abbreviation MAX_DPI_PACKETS :: int where "MAX_DPI_PACKETS \<equiv> 12"
abbreviation PCAPD_SNAPLEN :: nat where "PCAPD_SNAPLEN \<equiv> 65535"

section \<open>Heap\<close>

definition take_alloc :: "pcapdroid \<Rightarrow> bool \<times> pcapdroid" where
  "take_alloc pd = (case allocs pd of [] \<Rightarrow> (True, pd) | b # bs \<Rightarrow> (b, pd\<lparr>allocs := bs\<rparr>))"

definition put_conn :: "addr \<Rightarrow> pd_conn \<Rightarrow> pcapdroid \<Rightarrow> pcapdroid" where
  "put_conn a d pd = pd\<lparr>heap := (heap pd)(a := Some d)\<rparr>"

definition upd_conn :: "addr \<Rightarrow> (pd_conn \<Rightarrow> pd_conn) \<Rightarrow> pcapdroid \<Rightarrow> pcapdroid option" where
  "upd_conn a f pd = do { d \<leftarrow> heap pd a; Some (put_conn a (f d) pd) }"

text \<open>\<open>pd_purge_connection\<close> of a non-NULL pointer: freeing what is not allocated is an error.\<close>

definition pd_purge_connection :: "addr \<Rightarrow> pcapdroid \<Rightarrow> pcapdroid option" where
  "pd_purge_connection a pd = do { _ \<leftarrow> heap pd a; Some (pd\<lparr>heap := (heap pd)(a := None)\<rparr>) }"

section \<open>Notification arrays\<close>

datatype arr_id = New_Conns | Conns_Updates

definition get_arr :: "arr_id \<Rightarrow> pcapdroid \<Rightarrow> conn_array" where
  "get_arr i pd = (case i of New_Conns \<Rightarrow> new_conns pd | Conns_Updates \<Rightarrow> conns_updates pd)"

definition set_arr :: "arr_id \<Rightarrow> conn_array \<Rightarrow> pcapdroid \<Rightarrow> pcapdroid" where
  "set_arr i arr pd = (case i of New_Conns \<Rightarrow> pd\<lparr>new_conns := arr\<rparr> | Conns_Updates \<Rightarrow> pd\<lparr>conns_updates := arr\<rparr>)"

text \<open>
  The array is extended when it is full: on failure of \<open>realloc\<close> its items become NULL while its
  size and count stay.
\<close>

definition extend_array :: "conn_array \<Rightarrow> bool \<Rightarrow> conn_array" where
  "extend_array arr ok =
     arr\<lparr>arr_size := (if arr_size arr = 0 then 8 else arr_size arr * 2),
         items := (if ok then Some (case items arr of Some l \<Rightarrow> l | None \<Rightarrow> []) else None)\<rparr>"

text \<open>The result is whether the code returns 0.\<close>

definition notif_connection ::
    "pd_env \<Rightarrow> arr_id \<Rightarrow> zdtun_5tuple \<Rightarrow> addr \<Rightarrow> pcapdroid \<Rightarrow> (bool \<times> pcapdroid) option" where
  "notif_connection env i tuple a pd = do {
     d0 \<leftarrow> heap pd a;
     d \<leftarrow> (if closed (status d0) then pd_giveup_dpi (env_ndpi env) (cfg pd) tuple d0 else Some d0);
     let pd1 = put_conn a d pd;
     if pending_notification d then Some (True, pd1)
     else do {
       let full = (arr_size (get_arr i pd1) \<le> cur_items (get_arr i pd1));
       let (ok, pd2) = (if full then take_alloc pd1 else (True, pd1));
       let arr = (if full then extend_array (get_arr i pd2) ok else get_arr i pd2);
       if \<not> ok then Some (False, set_arr i arr pd2)
       else do {
         l \<leftarrow> items arr;
         Some (True, put_conn a (d\<lparr>pending_notification := True\<rparr>)
           (set_arr i (arr\<lparr>items := Some (l @ [(tuple, a)]), cur_items := cur_items arr + 1\<rparr>) pd2)) } } }"

definition pd_notify_connection_update ::
    "pd_env \<Rightarrow> zdtun_5tuple \<Rightarrow> addr \<Rightarrow> pcapdroid \<Rightarrow> (bool \<times> pcapdroid) option" where
  "pd_notify_connection_update env = notif_connection env Conns_Updates"

text \<open>Callers that ignore the result.\<close>

definition notify :: "pd_env \<Rightarrow> zdtun_5tuple \<Rightarrow> addr \<Rightarrow> pcapdroid \<Rightarrow> pcapdroid option" where
  "notify env tuple a pd = map_option snd (pd_notify_connection_update env tuple a pd)"

fun clear_slots :: "bool \<Rightarrow> (zdtun_5tuple \<times> addr) list \<Rightarrow> pcapdroid \<Rightarrow> pcapdroid option" where
  "clear_slots free_all [] pd = Some pd"
| "clear_slots free_all ((tuple, a) # slots) pd = do {
     d \<leftarrow> heap pd a;
     pd1 \<leftarrow> (if to_purge d \<or> free_all then pd_purge_connection a pd else Some pd);
     clear_slots free_all slots pd1 }"

definition conns_clear :: "arr_id \<Rightarrow> bool \<Rightarrow> pcapdroid \<Rightarrow> pcapdroid option" where
  "conns_clear i free_all pd = do {
     pd1 \<leftarrow> (case items (get_arr i pd) of
               Some l \<Rightarrow> clear_slots free_all (take (cur_items (get_arr i pd)) l) pd
             | None \<Rightarrow> Some pd);
     Some (set_arr i no_conns pd1) }"

text \<open>The slots a loop over an array visits.\<close>

definition arr_slots :: "conn_array \<Rightarrow> (zdtun_5tuple \<times> addr) list option" where
  "arr_slots arr = (if cur_items arr = 0 then Some [] else do { l \<leftarrow> items arr; Some (take (cur_items arr) l) })"

section \<open>New connections\<close>

text \<open>
  Requests of the system resolver for the same host get the UID of the app that now connects. The
  loop runs over all new connections, the new one included.
\<close>

definition netd_missed :: "pd_cfg \<Rightarrow> int \<Rightarrow> pd_conn \<Rightarrow> bool" where
  "netd_missed c u d \<longleftrightarrow> \<not> to_block d \<and> fw_enabled c \<and>
     (case fw_bl c of
        Some b \<Rightarrow> blacklist_match_uid b u \<or>
                  (fw_wl_enabled c \<and> (case fw_wl c of Some w \<Rightarrow> \<not> blacklist_match_uid w u | None \<Rightarrow> False))
      | None \<Rightarrow> False)"

definition netd_resolved :: "pcapdroid \<Rightarrow> pcapdroid" where
  "netd_resolved pd =
     (if 0 < netd_resolve_waiting pd
      then let w = netd_resolve_waiting pd - 1
           in pd\<lparr>netd_resolve_waiting := w,
                 next_connections_dump := (if w = 0 then next_connections_dump pd - NETD_RESOLVE_DELAY_MS
                                           else next_connections_dump pd)\<rparr>
      else pd)"

fun netd_loop :: "int \<Rightarrow> string \<Rightarrow> (zdtun_5tuple \<times> addr) list \<Rightarrow> pcapdroid \<Rightarrow> pcapdroid option" where
  "netd_loop u host [] pd = Some pd"
| "netd_loop u host ((tuple, a) # conns) pd = do {
     d \<leftarrow> heap pd a;
     netd_loop u host conns
       (if uid d = UID_NETD \<and> info d = Some host
        then netd_resolved (put_conn a (if netd_missed (cfg pd) u (d\<lparr>uid := u\<rparr>)
                                        then d\<lparr>uid := u, netd_block_missed := True\<rparr> else d\<lparr>uid := u\<rparr>) pd)
        else pd) }"

text \<open>What happens to the new connection once it is allocated and enqueued.\<close>

definition init_new_conn :: "pd_env \<Rightarrow> zdtun_5tuple \<Rightarrow> int \<Rightarrow> addr \<Rightarrow> pcapdroid \<Rightarrow> pcapdroid option" where
  "init_new_conn env tuple u a pd = do {
     pd1 \<leftarrow> upd_conn a (\<lambda>d. d\<lparr>uid := u, incr_id := new_conn_id pd,
              whitelisted_app := (case malware_wl (cfg pd) of Some w \<Rightarrow> blacklist_match_uid w u
                                  | None \<Rightarrow> whitelisted_app d)\<rparr>) (pd\<lparr>new_conn_id := new_conn_id pd + 1\<rparr>);
     let (host, lru) = ip_lru_find True (ip_to_host pd1) (dst_ip tuple);
     pd2 \<leftarrow> upd_conn a (\<lambda>d. d\<lparr>info := host, info_from_lru := (host \<noteq> None)\<rparr>) (pd1\<lparr>ip_to_host := lru\<rparr>);
     pd3 \<leftarrow> (case host of
               Some h \<Rightarrow> if u \<noteq> UID_UNKNOWN
                         then do { l \<leftarrow> arr_slots (new_conns pd2); netd_loop u h l pd2 }
                         else Some pd2
             | None \<Rightarrow> Some pd2);
     d \<leftarrow> heap pd3 a;
     let d1 = check_malware_ip (env_ndpi env) (cfg pd3) tuple (if info d \<noteq> None then check_blacklisted_domain (cfg pd3) d else d);
     Some (put_conn a (new_conn_checks (env_ndpi env) (cfg pd3) tuple d)
       (pd3\<lparr>bl_num_checked_connections := bl_num_checked_connections pd3 + (if malware_bl (cfg pd3) \<noteq> None then 1 else 0),
            fw_num_checked_connections := fw_num_checked_connections pd3 +
              (if fw_enabled (cfg pd3) \<and> fw_bl (cfg pd3) \<noteq> None \<and> \<not> to_block d1 then 1 else 0)\<rparr>)) }"

definition pd_new_connection ::
    "pd_env \<Rightarrow> zdtun_5tuple \<Rightarrow> int \<Rightarrow> pcapdroid \<Rightarrow> (addr option \<times> pcapdroid) option" where
  "pd_new_connection env tuple u pd0 = do {
     let (ok, pd) = take_alloc pd0;
     if \<not> ok then Some (None, pd)
     else do {
       let a = next_addr pd;
       let (ok2, pd2) = take_alloc (put_conn a zero_conn (pd\<lparr>next_addr := a + 1\<rparr>));
       if \<not> ok2 then do { pd3 \<leftarrow> pd_purge_connection a pd2; Some (None, pd3) }
       else do {
         (rv, pd4) \<leftarrow> notif_connection env New_Conns tuple a (put_conn a (zero_conn\<lparr>ndpi_flow := Some []\<rparr>) pd2);
         if \<not> rv then do { pd5 \<leftarrow> pd_purge_connection a pd4; Some (None, pd5) }
         else do { pd5 \<leftarrow> init_new_conn env tuple u a pd4; Some (Some a, pd5) } } } }"

section \<open>Packets\<close>

record pkt_context =
  c_pkt :: zdtun_pkt
  c_sec :: u64
  c_usec :: u64
  c_is_tx :: bool
  c_tuple :: zdtun_5tuple
  c_data :: addr

definition pkt_ms :: "pkt_context \<Rightarrow> u64" where
  "pkt_ms x = c_sec x * 1000 + c_usec x div 1000"

definition pkt_bytes :: "zdtun_pkt \<Rightarrow> byte list" where
  "pkt_bytes p = take (unat (p_len p)) (p_buf p)"

text \<open>What can be read from \<open>pkt->l7\<close> on.\<close>

definition pkt_l7 :: "zdtun_pkt \<Rightarrow> byte list" where
  "pkt_l7 p = drop (unat (p_ip_hdr_len p) + unat (p_l4_hdr_len p)) (p_buf p)"

definition netd_wait :: "pd_conn \<Rightarrow> pcapdroid \<Rightarrow> pcapdroid" where
  "netd_wait d pd =
     (if l7proto d = NDPI_PROTOCOL_DNS \<and> uid d = UID_NETD \<and> sent_pkts d + rcvd_pkts d = 0 \<and>
         (0 < netd_resolve_waiting pd \<or> next_connections_dump pd - NETD_RESOLVE_DELAY_MS < now_ms pd)
      then pd\<lparr>next_connections_dump := (if netd_resolve_waiting pd = 0
                                        then next_connections_dump pd + NETD_RESOLVE_DELAY_MS
                                        else next_connections_dump pd),
              netd_resolve_waiting := netd_resolve_waiting pd + 1\<rparr>
      else pd)"

definition guess_alpn :: "zdtun_5tuple \<Rightarrow> pd_conn \<Rightarrow> u16" where
  "guess_alpn tuple d =
     (if ntohs (dst_port tuple) = 443 then NDPI_PROTOCOL_HTTP
      else case info d of
             Some i \<Rightarrow> if starts_with ''imap.'' i then NDPI_PROTOCOL_MAIL_IMAP
                       else if starts_with ''smtp.'' i then NDPI_PROTOCOL_MAIL_SMTP else 0
           | None \<Rightarrow> 0)"

definition perform_dpi :: "pd_env \<Rightarrow> pkt_context \<Rightarrow> pcapdroid \<Rightarrow> pcapdroid option" where
  "perform_dpi env x pd = do {
     let pkt = c_pkt x;
     let a = c_data x;
     d0 \<leftarrow> heap pd a;
     fl0 \<leftarrow> ndpi_flow d0;
     let giveup = (MAX_DPI_PACKETS \<le> sent_pkts d0 + rcvd_pkts d0 + 1);
     let fl = fl0 @ [pkt_bytes pkt];
     let proto = pd_ndpi2proto (nd_process (env_ndpi env) fl);
     let d1 = d0\<lparr>ndpi_flow := Some fl, l7proto := proto\<rparr>;
     let d2 = (if l7proto d0 \<noteq> proto
               then (touch_update CONN_UPDATE_INFO d1)\<lparr>encrypted_l7 := is_encrypted_l7 (nd_limit (env_ndpi env)) (nd_clear (env_ndpi env)) proto\<rparr>
               else d1);
     lru \<leftarrow> (if \<not> c_is_tx x \<and> proto = NDPI_PROTOCOL_DNS
             then process_dns_reply (pkt_l7 pkt) (unat (p_l7_len pkt)) (nd_host (env_ndpi env) fl) (ip_to_host pd)
             else Some (ip_to_host pd));
     d3 \<leftarrow> (if giveup \<or> (proto \<noteq> NDPI_PROTOCOL_UNKNOWN \<and> \<not> nd_extra (env_ndpi env) fl)
            then pd_giveup_dpi (env_ndpi env) (cfg pd) (p_tuple pkt) d2
            else process_ndpi_data (env_ndpi env) (cfg pd) (p_tuple pkt) d2);
     let pd1 = netd_wait d3 (put_conn a d3 (pd\<lparr>ip_to_host := lru\<rparr>));
     if ndpi_flow d3 = None \<and> l7proto d3 = NDPI_PROTOCOL_TLS \<and> alpn d3 = 0 \<and> guess_alpn (c_tuple x) d3 \<noteq> 0
     then notify env (c_tuple x) a
            (put_conn a (touch_update CONN_UPDATE_INFO (d3\<lparr>alpn := guess_alpn (c_tuple x) d3\<rparr>)) pd1)
     else Some pd1 }"

text \<open>The packet's payload, with the notification it may ask for.\<close>

definition handle_payload :: "pd_env \<Rightarrow> pkt_context \<Rightarrow> pcapdroid \<Rightarrow> pcapdroid option" where
  "handle_payload env x pd = do {
     d \<leftarrow> heap pd (c_data x);
     let (out, d1, notif) = process_payload (cfg pd) (chunk_cb env d (unat (p_l7_len (c_pkt x)))) (c_is_tx x)
                              (unat (p_l7_len (c_pkt x))) d;
     if notif then notify env (c_tuple x) (c_data x) (put_conn (c_data x) d1 pd)
     else Some (put_conn (c_data x) d1 pd) }"

definition pd_process_packet :: "pd_env \<Rightarrow> pkt_context \<Rightarrow> pcapdroid \<Rightarrow> pcapdroid option" where
  "pd_process_packet env x pd = do {
     d \<leftarrow> heap pd (c_data x);
     let ms = sint (pkt_ms x);
     let d1 = d\<lparr>last_seen := ms, first_seen := (if first_seen d = 0 then ms else first_seen d)\<rparr>;
     let pd1 = put_conn (c_data x) d1 pd;
     pd2 \<leftarrow> (if ndpi_flow d1 \<noteq> None \<and>
                 (\<not> has_flag (p_flags (c_pkt x)) ZDTUN_PKT_IS_FRAGMENT \<or>
                  has_flag (p_flags (c_pkt x)) ZDTUN_PKT_IS_FIRST_FRAGMENT)
              then perform_dpi env x pd1 else Some pd1);
     handle_payload env x pd2 }"

definition stop_pcap_dump :: "pcapdroid \<Rightarrow> pcapdroid option" where
  "stop_pcap_dump pd = do {
     dm \<leftarrow> dumper pd;
     out \<leftarrow> pcap_destroy_dumper (unat (now_ms pd)) dm;
     Some (pd\<lparr>dumper := None, dumped := out\<rparr>) }"

definition pd_dump_packet :: "pd_env \<Rightarrow> byte list \<Rightarrow> u64 \<Rightarrow> u64 \<Rightarrow> int \<Rightarrow> pcapdroid \<Rightarrow> pcapdroid option" where
  "pd_dump_packet env pkt sec usec u pd =
     (case dumper pd of
        None \<Rightarrow> Some pd
      | Some dm \<Rightarrow> do {
          (ok, dm') \<leftarrow> pcap_dump_packet (unat (now_ms pd)) (appname_of env u) dm pkt sec usec u;
          let pd1 = pd\<lparr>dumper := Some dm'\<rparr>;
          if ok then Some pd1 else stop_pcap_dump pd1 })"

definition account_conn :: "zdtun_pkt \<Rightarrow> bool \<Rightarrow> pd_conn \<Rightarrow> pd_conn" where
  "account_conn pkt is_tx d =
     (let d1 = touch_update CONN_UPDATE_STATS (d\<lparr>payload_length := payload_length d + uint (p_l7_len pkt)\<rparr>)
      in if is_tx then d1\<lparr>sent_pkts := sent_pkts d + 1, sent_bytes := sent_bytes d + uint (p_len pkt)\<rparr>
         else d1\<lparr>rcvd_pkts := rcvd_pkts d + 1, rcvd_bytes := rcvd_bytes d + uint (p_len pkt)\<rparr>)"

definition account_capture :: "zdtun_pkt \<Rightarrow> bool \<Rightarrow> capture_stats \<Rightarrow> capture_stats" where
  "account_capture pkt is_tx s =
     (let n = uint (p_len pkt); v6 = (if ipver (p_tuple pkt) = 6 then n else 0)
      in (if is_tx
          then s\<lparr>cs_sent_pkts := cs_sent_pkts s + 1, cs_sent_bytes := cs_sent_bytes s + n,
                 cs_ipv6_sent_bytes := cs_ipv6_sent_bytes s + v6\<rparr>
          else s\<lparr>cs_rcvd_pkts := cs_rcvd_pkts s + 1, cs_rcvd_bytes := cs_rcvd_bytes s + n,
                 cs_ipv6_rcvd_bytes := cs_ipv6_rcvd_bytes s + v6\<rparr>)\<lparr>new_stats := True\<rparr>)"

definition pd_account_stats :: "pd_env \<Rightarrow> pkt_context \<Rightarrow> pcapdroid \<Rightarrow> pcapdroid option" where
  "pd_account_stats env x pd = do {
     let pkt = c_pkt x;
     pd1 \<leftarrow> upd_conn (c_data x) (account_conn pkt (c_is_tx x)) (pd\<lparr>cap_stats := account_capture pkt (c_is_tx x) (cap_stats pd)\<rparr>);
     pd2 \<leftarrow> notify env (c_tuple x) (c_data x) pd1;
     d \<leftarrow> heap pd2 (c_data x);
     if dumper pd2 \<noteq> None \<and> (max_pkts_per_flow pd2 \<le> 0 \<or> sent_pkts d + rcvd_pkts d \<le> max_pkts_per_flow pd2)
     then pd_dump_packet env (pkt_bytes pkt) (c_sec x) (c_usec x) (uid d) pd2
     else Some pd2 }"

section \<open>Reload of lists\<close>

definition check_blocked_conn_cb :: "pd_env \<Rightarrow> zdtun_5tuple \<Rightarrow> addr \<Rightarrow> pcapdroid \<Rightarrow> pcapdroid option" where
  "check_blocked_conn_cb env tuple a pd = do {
     d \<leftarrow> heap pd a;
     let d1 = recheck_block (env_ndpi env) (cfg pd) tuple d;
     if to_block d \<noteq> to_block d1
     then notify env tuple a (put_conn a (touch_update CONN_UPDATE_STATS d1) pd)
     else Some (put_conn a d1 pd) }"

text \<open>The malware whitelist was just replaced, so it is not NULL; \<open>info\<close> is dereferenced.\<close>

definition check_blacklisted_conn_cb :: "pd_env \<Rightarrow> zdtun_5tuple \<Rightarrow> addr \<Rightarrow> pcapdroid \<Rightarrow> pcapdroid option" where
  "check_blacklisted_conn_cb env tuple a pd = do {
     d0 \<leftarrow> heap pd a;
     wl \<leftarrow> malware_wl (cfg pd);
     let d = d0\<lparr>whitelisted_app := blacklist_match_uid wl (uid d0)\<rparr>;
     let unip = (blacklisted_ip d \<and> (whitelisted_app d \<or>
                  blacklist_match_ip (nd_ops (env_ndpi env)) wl (dst_ip tuple) (uint (ipver tuple))));
     undom \<leftarrow> (if blacklisted_domain d
               then if whitelisted_app d then Some True
                    else do { i \<leftarrow> info d; Some (blacklist_match_domain wl i) }
               else Some False);
     let d1 = d\<lparr>blacklisted_ip := blacklisted_ip d \<and> \<not> unip, blacklisted_domain := blacklisted_domain d \<and> \<not> undom\<rparr>;
     let pd1 = put_conn a d1 pd;
     if unip \<or> undom
     then do {
       pd2 \<leftarrow> (if fw_bl (cfg pd1) \<noteq> None then check_blocked_conn_cb env tuple a pd1 else Some pd1);
       pd3 \<leftarrow> upd_conn a (touch_update CONN_UPDATE_STATS) pd2;
       notify env tuple a pd3 }
     else Some pd1 }"

text \<open>
  The table of the libpcap capture, with a callback that returns 0 (\<open>libpcap_iter_connections\<close>, used
  by \<open>iter_active_connections\<close>).
\<close>

fun iter_conns ::
    "(zdtun_5tuple \<Rightarrow> addr \<Rightarrow> pcapdroid \<Rightarrow> pcapdroid option) \<Rightarrow> (zdtun_5tuple \<times> addr) list \<Rightarrow> pcapdroid \<Rightarrow> pcapdroid option" where
  "iter_conns cb [] pd = Some pd"
| "iter_conns cb ((tuple, a) # conns) pd = do { pd1 \<leftarrow> cb tuple a pd; iter_conns cb conns pd1 }"

definition libpcap_iter_connections ::
    "(zdtun_5tuple \<Rightarrow> addr \<Rightarrow> pcapdroid \<Rightarrow> pcapdroid option) \<Rightarrow> pcapdroid \<Rightarrow> pcapdroid option" where
  "libpcap_iter_connections cb pd = iter_conns cb (connections pd) pd"

text \<open>
  \<open>load_new_blacklists\<close> runs in its own thread, over the list files (name, type, contents). The
  status array is extended when \<open>size >= cur_items\<close>, as the code has it.
\<close>

fun load_files ::
    "ptree ndpi_ops \<Rightarrow> (string \<times> blacklist_type \<times> string option) list \<Rightarrow> bool list \<Rightarrow> bl \<times> bl_status_arr
     \<Rightarrow> (bl \<times> bl_status_arr) option" where
  "load_files ops [] mem st = Some st"
| "load_files ops ((fname, btype, content) # fs) mem (b, arr) =
     (case blacklist_load_file ops btype content b of
        (rv, (rules, failed), b1) \<Rightarrow>
          if rv \<noteq> 0 then load_files ops fs mem (b1, arr)
          else let grow = (st_cur_items arr \<le> st_size arr);
                   ok = (mem = [] \<or> hd mem);
                   arr1 = (if grow
                           then arr\<lparr>st_size := (if ok then if st_size arr = 0 then 8 else st_size arr * 2 else 0),
                                    st_items := (if ok then Some (case st_items arr of Some l \<Rightarrow> l | None \<Rightarrow> []) else None)\<rparr>
                           else arr);
                   mem1 = (if grow then tl mem else mem)
               in if grow \<and> \<not> ok then load_files ops fs mem1 (b1, arr1)
                  else do {
                    l \<leftarrow> st_items arr1;
                    load_files ops fs mem1
                      (b1, arr1\<lparr>st_items := Some (l @ [(fname, rules)]), st_cur_items := st_cur_items arr1 + 1\<rparr>) })"

definition load_new_blacklists ::
    "pd_env \<Rightarrow> (string \<times> blacklist_type \<times> string option) list \<Rightarrow> pcapdroid \<Rightarrow> pcapdroid option" where
  "load_new_blacklists env files pd0 = do {
     let (ok, pd) = take_alloc pd0;
     if \<not> ok then Some (pd\<lparr>reload_done := True\<rparr>)
     else do {
       let (ok2, pd1) = take_alloc pd;
       case blacklist_init (nd_ops (env_ndpi env)) ok2 of
         None \<Rightarrow> Some (pd1\<lparr>reload_done := True\<rparr>)
       | Some b0 \<Rightarrow> do {
           (b, arr) \<leftarrow> load_files (nd_ops (env_ndpi env)) files (allocs pd1) (b0, \<lparr>st_items = None, st_size = 0, st_cur_items = 0\<rparr>);
           let b1 = snd (blacklist_add_domain True True b ''internetbadguys.com'');
           let b2 = snd (blacklist_add_ipstr (nd_ops (env_ndpi env)) b1 ''0.0.0.1'');
           Some (pd1\<lparr>mw_new_bl := Some b2, mw_status_arr := Some arr, reload_done := True\<rparr>) } } }"

text \<open>
  \<open>use_new_blacklists\<close>; \<open>None\<close> also stands for reading a status array that was never allocated
  (\<open>calloc(0, ...)\<close> in its place).
\<close>

definition use_new_blacklists :: "pcapdroid \<Rightarrow> pcapdroid option" where
  "use_new_blacklists pd =
     (case mw_new_bl pd of
        None \<Rightarrow> Some pd
      | Some b \<Rightarrow> do {
          _ \<leftarrow> mw_status_arr pd;
          Some (pd\<lparr>cfg := (cfg pd)\<lparr>malware_bl := Some b\<rparr>, mw_new_bl := None, mw_status_arr := None\<rparr>) })"

section \<open>Dump to the application\<close>

text \<open>
  \<open>getConnUpdate\<close>: the object the application receives, with the groups of fields that changed, and the
  connection with its update flags reset. Addresses are sent as text (\<open>inet_ntop\<close>), here as they are.
\<close>

definition conn_status_bits :: "pd_cfg \<Rightarrow> pd_conn \<Rightarrow> int" where
  "conn_status_bits c d =
     push_bit 13 (of_bool (port_mapping_applied d)) OR push_bit 12 (of_bool (decryption_ignored d)) OR
     push_bit 11 (of_bool (netd_block_missed d)) OR push_bit 10 (of_bool (to_block d \<and> vpn_capture c)) OR
     push_bit 9 (of_bool (blacklisted_domain d)) OR push_bit 8 (of_bool (blacklisted_ip d)) OR
     (int (status_num (status d)) AND 0xFF)"

definition conn_update_stats :: "pd_cfg \<Rightarrow> pd_conn \<Rightarrow> update_stats" where
  "conn_update_stats c d =
     \<lparr>us_last_seen = last_seen d, us_payload_length = payload_length d, us_sent_bytes = sent_bytes d, us_rcvd_bytes = rcvd_bytes d,
      us_sent_pkts = sent_pkts d, us_rcvd_pkts = rcvd_pkts d, us_blocked_pkts = blocked_pkts d,
      us_tcp_flags = push_bit 8 (uint (tcp_flags0 d)) OR uint (tcp_flags1 d), us_status = conn_status_bits c d\<rparr>"

definition getConnUpdate :: "pd_env \<Rightarrow> pd_cfg \<Rightarrow> zdtun_5tuple \<Rightarrow> pd_conn \<Rightarrow> conn_update \<times> pd_conn" where
  "getConnUpdate env c tuple d =
     (\<lparr>cu_id = incr_id d,
       cu_stats = (if update_type d AND CONN_UPDATE_STATS \<noteq> 0 then Some (conn_update_stats c d) else None),
       cu_info = (if update_type d AND CONN_UPDATE_INFO \<noteq> 0
                  then Some (case_option [] id (info d), case_option [] id (url d),
                         pd_get_proto_name (proto_name_of env) zdtun_proto2str (l7proto d) (alpn d) (ipproto tuple), encrypted_l7 d)
                  else None),
       cu_payload = (if update_type d AND CONN_UPDATE_PAYLOAD \<noteq> 0 then Some (payload_chunks d, payload_truncated d) else None)\<rparr>,
      d\<lparr>update_type := 0, payload_chunks := payload_chunks d \<and> update_type d AND CONN_UPDATE_PAYLOAD = 0\<rparr>)"

definition dumpNewConnection :: "pd_env \<Rightarrow> pd_cfg \<Rightarrow> zdtun_5tuple \<Rightarrow> pd_conn \<Rightarrow> (conn_descriptor \<times> conn_update) \<times> pd_conn" where
  "dumpNewConnection env c tuple d =
     (case getConnUpdate env c tuple (d\<lparr>update_type := update_type d OR (CONN_UPDATE_STATS OR CONN_UPDATE_INFO)\<rparr>) of
        (u, d') \<Rightarrow>
          ((\<lparr>cd_id = incr_id d, cd_ipver = ipver tuple, cd_ipproto = ipproto tuple, cd_src_ip = src_ip tuple, cd_dst_ip = dst_ip tuple,
             cd_src_port = ntohs (src_port tuple), cd_dst_port = ntohs (dst_port tuple),
             cd_local_port = ntohs (if vpn_capture c then vpn_local_port d else src_port tuple),
             cd_uid = uid d, cd_ifidx = (if vpn_capture c then 0 else conn_ifidx d),
             cd_mitm_decrypt = (tls_enabled c \<and> proxied d), cd_first_seen = first_seen d\<rparr>, u), d'))"

text \<open>
  The loops over the two arrays. A failure is the one of \<open>NewObject\<close>, before the update flags are reset.
\<close>

definition dump_conn :: "pd_env \<Rightarrow> pd_cfg \<Rightarrow> bool \<Rightarrow> zdtun_5tuple \<Rightarrow> pd_conn \<Rightarrow> (conn_descriptor option \<times> conn_update) \<times> pd_conn" where
  "dump_conn env c is_new tuple d =
     (if is_new then (case dumpNewConnection env c tuple d of ((desc, u), d') \<Rightarrow> ((Some desc, u), d'))
      else (case getConnUpdate env c tuple d of (u, d') \<Rightarrow> ((None, u), d')))"

fun dump_conns ::
    "pd_env \<Rightarrow> bool \<Rightarrow> nat option \<Rightarrow> (zdtun_5tuple \<times> addr) list \<Rightarrow> pcapdroid
     \<Rightarrow> ((conn_descriptor option \<times> conn_update) list option \<times> nat option \<times> pcapdroid) option" where
  "dump_conns env is_new lim [] pd = Some (Some [], lim, pd)"
| "dump_conns env is_new lim ((tuple, a) # slots) pd = do {
     d0 \<leftarrow> heap pd a;
     let d = d0\<lparr>pending_notification := False\<rparr>;
     if lim = Some 0 then Some (None, lim, put_conn a d pd)
     else do {
       let (r, d1) = dump_conn env (cfg pd) is_new tuple d;
       (out, lim1, pd1) \<leftarrow> dump_conns env is_new (map_option (\<lambda>n. n - 1) lim) slots (put_conn a d1 pd);
       Some (map_option (\<lambda>l. r # l) out, lim1, pd1) } }"

definition sendConnectionsDump :: "pd_env \<Rightarrow> pcapdroid \<Rightarrow> pcapdroid option" where
  "sendConnectionsDump env pd = do {
     l1 \<leftarrow> arr_slots (new_conns pd);
     (out1, lim, pd1) \<leftarrow> dump_conns env True (jni_limit env) l1 pd;
     case out1 of
       None \<Rightarrow> Some pd1
     | Some o1 \<Rightarrow> do {
         l2 \<leftarrow> arr_slots (conns_updates pd1);
         (out2, _, pd2) \<leftarrow> dump_conns env False lim l2 pd1;
         case out2 of
           None \<Rightarrow> Some pd2
         | Some o2 \<Rightarrow> Some (pd2\<lparr>sent := sent pd2 @ [(o1, o2)]\<rparr>) } }"

section \<open>Housekeeping\<close>

definition reload_lists :: "pd_env \<Rightarrow> pcapdroid \<Rightarrow> pcapdroid option" where
  "reload_lists env pd = do {
     pd1 \<leftarrow> (case mw_new_wl pd of
               Some w \<Rightarrow> libpcap_iter_connections (check_blacklisted_conn_cb env)
                           (pd\<lparr>cfg := (cfg pd)\<lparr>malware_wl := Some w\<rparr>, mw_new_wl := None\<rparr>)
             | None \<Rightarrow> Some pd);
     pd2 \<leftarrow> (case fw_new_bl pd1 of
               Some b \<Rightarrow> libpcap_iter_connections (check_blocked_conn_cb env)
                           (pd1\<lparr>cfg := (cfg pd1)\<lparr>fw_bl := Some b\<rparr>, fw_new_bl := None\<rparr>)
             | None \<Rightarrow> (case fw_new_wl pd1 of
                 Some w \<Rightarrow> libpcap_iter_connections (check_blocked_conn_cb env)
                             (pd1\<lparr>cfg := (cfg pd1)\<lparr>fw_wl := Some w\<rparr>, fw_new_wl := None\<rparr>)
               | None \<Rightarrow> Some pd1));
     Some (case tls_new_list pd2 of
             Some l \<Rightarrow> pd2\<lparr>cfg := (cfg pd2)\<lparr>tls_list := Some l\<rparr>, tls_new_list := None\<rparr>
           | None \<Rightarrow> pd2) }"

definition dump_connections :: "pd_env \<Rightarrow> pcapdroid \<Rightarrow> pcapdroid option" where
  "dump_connections env pd = do {
     pd1 \<leftarrow> (if cur_items (new_conns pd) \<noteq> 0 \<or> cur_items (conns_updates pd) \<noteq> 0
              then do {
                p1 \<leftarrow> sendConnectionsDump env pd;
                p2 \<leftarrow> conns_clear New_Conns False p1;
                conns_clear Conns_Updates False p2 }
              else Some pd);
     Some (pd1\<lparr>last_connections_dump := now_ms pd1,
               next_connections_dump := now_ms pd1 + CONNECTION_DUMP_UPDATE_FREQUENCY_MS,
               netd_resolve_waiting := 0\<rparr>) }"

definition reload_malware :: "pcapdroid \<Rightarrow> pcapdroid option" where
  "reload_malware pd =
     (if \<not> mw_enabled pd then Some pd
      else if reload_in_progress pd
      then if reload_done pd then use_new_blacklists (pd\<lparr>reload_in_progress := False\<rparr>) else Some pd
      else if reload_blacklists_now pd
      then Some (pd\<lparr>reload_blacklists_now := False, reload_done := False, mw_new_bl := None,
                    mw_status_arr := None, reload_in_progress := True\<rparr>)
      else Some pd)"

text \<open>At most one of the periodic tasks runs per call; lists are then reloaded.\<close>

definition pd_housekeeping :: "pd_env \<Rightarrow> pcapdroid \<Rightarrow> pcapdroid option" where
  "pd_housekeeping env pd = do {
     pd1 \<leftarrow>
       (if dump_capture_stats_now pd \<or>
           (new_stats (cap_stats pd) \<and> CAPTURE_STATS_UPDATE_FREQUENCY_MS \<le> now_ms pd - cs_last_update_ms (cap_stats pd))
        then Some (pd\<lparr>dump_capture_stats_now := False, stats_sent := stats_sent pd + 1,
                      cap_stats := (cap_stats pd)\<lparr>new_stats := False, cs_last_update_ms := now_ms pd\<rparr>\<rparr>)
        else if next_connections_dump pd \<le> now_ms pd then dump_connections env pd
        else (case dumper pd of
                Some dm \<Rightarrow> do {
                  (exported, dm') \<leftarrow> pcap_check_export (unat (now_ms pd)) dm;
                  let p = pd\<lparr>dumper := Some dm'\<rparr>;
                  if exported then Some p else reload_malware p }
              | None \<Rightarrow> reload_malware pd));
     reload_lists env pd1 }"

text \<open>The end of \<open>pd_run\<close>: the last dump, and everything that is still in the arrays is freed.\<close>

definition pd_run_end :: "pd_env \<Rightarrow> pcapdroid \<Rightarrow> pcapdroid option" where
  "pd_run_end env pd = do {
     pd1 \<leftarrow> sendConnectionsDump env (pd\<lparr>stats_sent := stats_sent pd + 1\<rparr>);
     pd2 \<leftarrow> conns_clear New_Conns True pd1;
     pd3 \<leftarrow> conns_clear Conns_Updates True pd2;
     if dumper pd3 \<noteq> None then stop_pcap_dump pd3 else Some pd3 }"

end
