(* ===== verification/Conn_Heap.thy ===== *)
theory Conn_Heap
  imports Pcapdroid
begin

text \<open>
  The invariant of the connection data shared between the connection table and the notification
  arrays, and that the operations of \<^verbatim>\<open>core/pcapdroid.c\<close> keep it without an invalid memory access.
  Memory allocations succeed throughout.
\<close>

section \<open>The invariant\<close>

definition arr_list :: "conn_array \<Rightarrow> (zdtun_5tuple \<times> addr) list" where
  "arr_list arr = (case items arr of Some l \<Rightarrow> l | None \<Rightarrow> [])"

definition queued :: "pcapdroid \<Rightarrow> addr list" where
  "queued pd = map snd (arr_list (new_conns pd)) @ map snd (arr_list (conns_updates pd))"

definition table :: "pcapdroid \<Rightarrow> addr list" where
  "table pd = map snd (connections pd)"

definition arr_ok :: "conn_array \<Rightarrow> bool" where
  "arr_ok arr \<longleftrightarrow> cur_items arr = length (arr_list arr) \<and> cur_items arr \<le> arr_size arr \<and>
     (items arr = None \<longleftrightarrow> arr_size arr = 0)"

text \<open>A domain that matched a list is the name of the connection.\<close>

definition conn_ok :: "pd_conn \<Rightarrow> bool" where
  "conn_ok d \<longleftrightarrow> (blacklisted_domain d \<longrightarrow> info d \<noteq> None)"

text \<open>
  One connection: it is in an array exactly when a notification is pending. Unless it is one of the
  connections \<open>X\<close> in progress, it is to be purged exactly when it is not in the table any more, it is
  then still in an array, and what is in an array has something to send.
\<close>

definition conn_inv :: "addr list \<Rightarrow> addr list \<Rightarrow> addr set \<Rightarrow> addr \<Rightarrow> pd_conn \<Rightarrow> bool" where
  "conn_inv q t X a d \<longleftrightarrow> conn_ok d \<and> (pending_notification d \<longleftrightarrow> a \<in> set q) \<and>
     (a \<notin> X \<longrightarrow> (a \<in> set t \<longrightarrow> \<not> to_purge d) \<and> (a \<notin> set t \<longrightarrow> to_purge d \<and> a \<in> set q) \<and> (a \<in> set q \<longrightarrow> update_type d \<noteq> 0))"

definition dump_ok :: "pcapdroid \<Rightarrow> bool" where
  "dump_ok pd \<longleftrightarrow> (\<forall>dm. dumper pd = Some dm \<longrightarrow> dumper_inv dm \<and> 0 < d_snaplen dm)"

definition mem_ok :: "pcapdroid \<Rightarrow> bool" where
  "mem_ok pd \<longleftrightarrow>
     arr_ok (new_conns pd) \<and> arr_ok (conns_updates pd) \<and> allocs pd = [] \<and>
     distinct (queued pd) \<and> distinct (table pd) \<and> distinct (ut_keys (connections pd)) \<and>
     set (queued pd) \<subseteq> dom (heap pd) \<and> set (table pd) \<subseteq> dom (heap pd) \<and> dom (heap pd) \<subseteq> {..<next_addr pd} \<and>
     dump_ok pd \<and> (mw_new_bl pd \<noteq> None \<longrightarrow> mw_status_arr pd \<noteq> None)"

definition pd_inv :: "addr set \<Rightarrow> pcapdroid \<Rightarrow> bool" where
  "pd_inv X pd \<longleftrightarrow> mem_ok pd \<and> (\<forall>a d. heap pd a = Some d \<longrightarrow> conn_inv (queued pd) (table pd) X a d)"

text \<open>The part of the state the invariant reads.\<close>

definition same_mem :: "pcapdroid \<Rightarrow> pcapdroid \<Rightarrow> bool" where
  "same_mem p q \<longleftrightarrow> heap p = heap q \<and> next_addr p = next_addr q \<and> allocs p = allocs q \<and>
     new_conns p = new_conns q \<and> conns_updates p = conns_updates q \<and> connections p = connections q \<and>
     dumper p = dumper q \<and> mw_new_bl p = mw_new_bl q \<and> mw_status_arr p = mw_status_arr q"

lemma pd_inv_same: "same_mem p q \<Longrightarrow> pd_inv X p = pd_inv X q"
  by (simp add: same_mem_def pd_inv_def mem_ok_def queued_def table_def dump_ok_def)

lemma pd_invI:
  "mem_ok pd \<Longrightarrow> (\<And>a d. heap pd a = Some d \<Longrightarrow> conn_inv (queued pd) (table pd) X a d) \<Longrightarrow> pd_inv X pd"
  by (simp add: pd_inv_def)

lemma pd_inv_mem: "pd_inv X pd \<Longrightarrow> mem_ok pd"
  by (simp add: pd_inv_def)

lemma pd_inv_conn: "pd_inv X pd \<Longrightarrow> heap pd a = Some d \<Longrightarrow> conn_inv (queued pd) (table pd) X a d"
  by (simp add: pd_inv_def)

lemma mem_okD:
  assumes "mem_ok pd"
  shows "allocs pd = []" "distinct (queued pd)" "distinct (table pd)" "distinct (ut_keys (connections pd))"
    "arr_ok (new_conns pd)" "arr_ok (conns_updates pd)" "dump_ok pd"
    "mw_new_bl pd \<noteq> None \<longrightarrow> mw_status_arr pd \<noteq> None"
  using assms by (simp_all add: mem_ok_def)

lemma mem_ok_addr: "mem_ok pd \<Longrightarrow> heap pd a = Some d \<Longrightarrow> a < next_addr pd"
  by (auto simp: mem_ok_def)

lemma mem_ok_valid:
  "mem_ok pd \<Longrightarrow> a \<in> set (queued pd) \<Longrightarrow> \<exists>d. heap pd a = Some d"
  "mem_ok pd \<Longrightarrow> a \<in> set (table pd) \<Longrightarrow> \<exists>d. heap pd a = Some d"
  by (auto simp: mem_ok_def)

lemma conn_inv_mono: "conn_inv q t X a d \<Longrightarrow> X \<subseteq> Y \<Longrightarrow> conn_inv q t Y a d"
  by (auto simp: conn_inv_def)

lemma pd_inv_mono: "pd_inv X pd \<Longrightarrow> X \<subseteq> Y \<Longrightarrow> pd_inv Y pd"
  by (auto simp: pd_inv_def intro: conn_inv_mono)

text \<open>A connection in progress is finished.\<close>

lemma pd_inv_exit:
  assumes "pd_inv (insert a X) pd"
    and "\<And>d. heap pd a = Some d \<Longrightarrow> (a \<in> set (table pd) \<longrightarrow> \<not> to_purge d) \<and>
           (a \<notin> set (table pd) \<longrightarrow> to_purge d \<and> a \<in> set (queued pd)) \<and> (a \<in> set (queued pd) \<longrightarrow> update_type d \<noteq> 0)"
  shows "pd_inv X pd"
proof (rule pd_invI [OF pd_inv_mem [OF assms(1)]])
  fix b d assume h: "heap pd b = Some d"
  from pd_inv_conn [OF assms(1) this] show "conn_inv (queued pd) (table pd) X b d"
    using assms(2) [of d] h by (cases "b = a") (simp_all add: conn_inv_def)
qed

lemma put_conn_simps [simp]:
  "heap (put_conn a d pd) = (heap pd)(a \<mapsto> d)" "next_addr (put_conn a d pd) = next_addr pd"
  "allocs (put_conn a d pd) = allocs pd" "new_conns (put_conn a d pd) = new_conns pd"
  "conns_updates (put_conn a d pd) = conns_updates pd" "connections (put_conn a d pd) = connections pd"
  "dumper (put_conn a d pd) = dumper pd" "cfg (put_conn a d pd) = cfg pd" "queued (put_conn a d pd) = queued pd"
  "table (put_conn a d pd) = table pd" "now_ms (put_conn a d pd) = now_ms pd"
  "mw_new_bl (put_conn a d pd) = mw_new_bl pd" "mw_status_arr (put_conn a d pd) = mw_status_arr pd"
  "dump_ok (put_conn a d pd) = dump_ok pd" "ip_to_host (put_conn a d pd) = ip_to_host pd"
  by (simp_all add: put_conn_def queued_def table_def dump_ok_def)

text \<open>Changes of one connection that the invariant does not see.\<close>

definition benign :: "pd_conn \<Rightarrow> pd_conn \<Rightarrow> bool" where
  "benign d d' \<longleftrightarrow> pending_notification d' = pending_notification d \<and> to_purge d' = to_purge d \<and>
     (update_type d \<noteq> 0 \<longrightarrow> update_type d' \<noteq> 0) \<and> (conn_ok d \<longrightarrow> conn_ok d')"

lemma benign_refl [simp, intro]: "benign d d"
  by (simp add: benign_def)

lemma benign_trans [trans]: "benign d1 d2 \<Longrightarrow> benign d2 d3 \<Longrightarrow> benign d1 d3"
  by (simp add: benign_def)

lemma dom_upd_same: "h a = Some d \<Longrightarrow> dom (h(a \<mapsto> d')) = dom h"
  by (simp add: insert_absorb domI)

lemma put_conn_mem [intro]:
  assumes "mem_ok pd" "heap pd a = Some d"
  shows "mem_ok (put_conn a d' pd)"
  using assms(1) unfolding mem_ok_def put_conn_simps dom_upd_same [of "heap pd", OF assms(2)] .

lemma put_conn_inv:
  assumes "pd_inv X pd" "heap pd a = Some d" "benign d d'"
  shows "pd_inv X (put_conn a d' pd)"
proof (rule pd_invI)
  show "mem_ok (put_conn a d' pd)" using put_conn_mem [OF pd_inv_mem [OF assms(1)] assms(2)] .
next
  fix b e assume h: "heap (put_conn a d' pd) b = Some e"
  show "conn_inv (queued (put_conn a d' pd)) (table (put_conn a d' pd)) X b e"
  proof (cases "b = a")
    case True
    with h have "e = d'" by simp
    with True pd_inv_conn [OF assms(1,2)] assms(3) show ?thesis by (simp add: benign_def conn_inv_def)
  next
    case False
    with h pd_inv_conn [OF assms(1), of b e] show ?thesis by simp
  qed
qed

section \<open>Changes of connection data\<close>

lemma or_nonzero: "(u :: u8) \<noteq> 0 \<Longrightarrow> u OR f \<noteq> 0" "(f :: u8) \<noteq> 0 \<Longrightarrow> u OR f \<noteq> 0"
  by (simp_all add: or_eq_0_iff)

lemma update_type_touch: "f \<noteq> 0 \<Longrightarrow> update_type (touch_update f d) \<noteq> 0"
  by (simp add: touch_update_def or_nonzero)

lemma benign_touch [intro]: "benign d (touch_update f d)"
  by (simp add: benign_def touch_update_def conn_ok_def or_nonzero)

lemma benign_domain [intro]: "benign d (check_blacklisted_domain c d)"
  by (auto simp: benign_def check_blacklisted_domain_def conn_ok_def Let_def split: option.splits)

lemma benign_malware_ip [intro]: "benign d (check_malware_ip nd c t d)"
  by (auto simp: benign_def check_malware_ip_def conn_ok_def split: option.splits)

lemma benign_fields:
  "benign d (d\<lparr>to_block := b\<rparr>)" "benign d (d\<lparr>alpn := p\<rparr>)" "benign d (d\<lparr>url := u\<rparr>)"
  "benign d (d\<lparr>l7proto := p, encrypted_l7 := b\<rparr>)" "benign d (d\<lparr>ndpi_flow := f\<rparr>)"
  "benign d (d\<lparr>info := Some i, info_from_lru := b\<rparr>)" "benign d (d\<lparr>uid := v\<rparr>)"
  "benign d (d\<lparr>uid := v, netd_block_missed := b\<rparr>)" "benign d (d\<lparr>last_seen := n, first_seen := k\<rparr>)"
  "benign d (d\<lparr>ndpi_flow := f, l7proto := p\<rparr>)" "benign d (d\<lparr>encrypted_l7 := b\<rparr>)"
  "benign d (d\<lparr>blacklisted_internal := b, to_block := b'\<rparr>)" "benign d (d\<lparr>last_update_ms := w\<rparr>)"
  "benign d (d\<lparr>payload_chunks := b\<rparr>)" "benign d (d\<lparr>payload_truncated := b\<rparr>)" "benign d (set_has_payload b d)"
  "benign d (d\<lparr>conn_ifidx := i', proxied := b\<rparr>)"
  "benign d (d\<lparr>status := s\<rparr>)" "benign d (d\<lparr>tcp_flags0 := x\<rparr>)" "benign d (d\<lparr>tcp_flags1 := x\<rparr>)" "benign d (d\<lparr>last_ack := x\<rparr>)"
  by (simp_all add: benign_def conn_ok_def set_has_payload_def)

lemma benign_checks [intro]: "benign d (new_conn_checks nd c t d)"
  unfolding new_conn_checks_def check_firewall_new_spec check_whitelist_spec
  by (intro benign_trans [OF _ benign_fields(1)] benign_trans [OF _ benign_malware_ip]) auto

lemma benign_recheck [intro]: "benign d (recheck_block nd c t d)"
  unfolding recheck_block_spec by (rule benign_fields)

lemma benign_alpn [intro]: "benign d (process_alpn nd fl d)"
  by (auto simp: process_alpn_def intro: benign_trans [OF benign_fields(2) benign_touch] benign_fields split: option.splits)

lemma benign_vpn [intro]: "benign d (vpn_process_ndpi nd c t d)"
  unfolding vpn_process_ndpi_def Let_def by (auto intro: benign_fields benign_trans [OF benign_fields(12) benign_fields(12)])

lemma benign_scan: "benign d (fst (scan_flow nd fl d))"
  by (auto simp: scan_flow_def intro: benign_trans [OF benign_fields(3) benign_touch] split: option.splits)

lemma benign_set_info [intro]: "benign d (set_info c f d)"
  by (auto simp: set_info_def
      intro: benign_trans [OF benign_trans [OF benign_fields(6) benign_domain] benign_touch] split: option.splits)

lemma process_ndpi_data_ok:
  assumes "ndpi_flow d \<noteq> None"
  obtains d' where "process_ndpi_data nd c t d = Some d'" and "benign d d'"
proof -
  obtain fl where fl: "ndpi_flow d = Some fl" using assms by blast
  obtain d1 f where s: "(if l7proto d \<in> {NDPI_PROTOCOL_TLS, NDPI_PROTOCOL_DNS, NDPI_PROTOCOL_HTTP}
        then do { fl \<leftarrow> ndpi_flow d; Some (scan_flow nd fl d) } else Some (d, None)) = Some (d1, f)" "benign d d1"
  proof (cases "l7proto d \<in> {NDPI_PROTOCOL_TLS, NDPI_PROTOCOL_DNS, NDPI_PROTOCOL_HTTP}")
    case True
    with benign_scan [of d nd fl] show ?thesis by (intro that [of "fst (scan_flow nd fl d)" "snd (scan_flow nd fl d)"]) (simp_all add: fl)
  next
    case False
    then show ?thesis by (intro that [of d None]) simp_all
  qed
  let ?d2 = "set_info c f d1"
  have "process_ndpi_data nd c t d = Some (if vpn_capture c then vpn_process_ndpi nd c t ?d2 else ?d2)"
    unfolding process_ndpi_data_def s(1) by (simp add: Let_def)
  then show ?thesis
    by (rule that) (auto intro: benign_trans [OF benign_trans [OF s(2) benign_set_info] benign_vpn]
        benign_trans [OF s(2) benign_set_info])
qed

lemma pd_giveup_dpi_ok:
  obtains d' where "pd_giveup_dpi nd c t d = Some d'" and "benign d d'"
proof (cases "ndpi_flow d")
  case None
  then show ?thesis by (intro that [of d]) (simp_all add: pd_giveup_dpi_def)
next
  case (Some fl)
  define d1 where "d1 = (if l7proto d = NDPI_PROTOCOL_UNKNOWN
      then let p = pd_ndpi2proto (nd_giveup nd fl)
           in d\<lparr>l7proto := p, encrypted_l7 := is_encrypted_l7 (nd_limit nd) (nd_clear nd) p\<rparr> else d)"
  have b: "benign d d1" by (auto simp: d1_def Let_def intro: benign_fields)
  have "ndpi_flow d1 \<noteq> None" using Some by (simp add: d1_def Let_def)
  then obtain d2 where d2: "process_ndpi_data nd c t d1 = Some d2" "benign d1 d2" by (rule process_ndpi_data_ok)
  have "pd_giveup_dpi nd c t d = Some (d2\<lparr>ndpi_flow := None\<rparr>)"
    using d2(1) by (simp add: pd_giveup_dpi_def Some d1_def [symmetric])
  then show ?thesis by (rule that) (rule benign_trans [OF benign_trans [OF b d2(2)] benign_fields(5)])
qed

section \<open>Notifications\<close>

text \<open>Nothing is freed and no other connection is marked: what is allocated stays so.\<close>

definition stable :: "pcapdroid \<Rightarrow> pcapdroid \<Rightarrow> bool" where
  "stable pd pd' \<longleftrightarrow> (\<forall>b e. heap pd b = Some e \<longrightarrow> (\<exists>e'. heap pd' b = Some e' \<and> to_purge e' = to_purge e))"

lemma stable_refl [simp]: "stable pd pd"
  by (simp add: stable_def)

lemma stable_trans: "stable p q \<Longrightarrow> stable q r \<Longrightarrow> stable p r"
  unfolding stable_def by metis

lemma stable_same: "heap p = heap p' \<Longrightarrow> heap q = heap q' \<Longrightarrow> stable p q = stable p' q'"
  by (simp add: stable_def)

lemma stable_put: "heap pd a = Some d \<Longrightarrow> to_purge d' = to_purge d \<Longrightarrow> stable pd (put_conn a d' pd)"
  by (simp add: stable_def)

lemma stable_new: "heap pd a = None \<Longrightarrow> stable pd (put_conn a d' pd)"
  by (simp add: stable_def)

text \<open>What an operation on one connection leaves as it was.\<close>

definition keeps :: "addr \<Rightarrow> pcapdroid \<Rightarrow> pcapdroid \<Rightarrow> bool" where
  "keeps a pd pd' \<longleftrightarrow> connections pd' = connections pd \<and> cfg pd' = cfg pd \<and> now_ms pd' = now_ms pd \<and>
     (\<exists>d d'. heap pd a = Some d \<and> heap pd' a = Some d' \<and> to_purge d' = to_purge d \<and>
        (update_type d \<noteq> 0 \<longrightarrow> update_type d' \<noteq> 0)) \<and> stable pd pd'"

lemma keeps_refl: "heap pd a = Some d \<Longrightarrow> keeps a pd pd"
  by (simp add: keeps_def)

lemma keeps_trans [trans]:
  assumes "keeps a p q" "keeps a q r"
  shows "keeps a p r"
proof -
  have "stable p r" using assms stable_trans [of p q r] by (simp add: keeps_def)
  then show ?thesis using assms unfolding keeps_def by (metis option.inject)
qed

lemma keeps_put: "heap pd a = Some d \<Longrightarrow> benign d d' \<Longrightarrow> keeps a pd (put_conn a d' pd)"
  by (simp add: keeps_def benign_def stable_put)

lemma keeps_stable: "keeps a p q \<Longrightarrow> stable p q"
  by (simp add: keeps_def)

lemma keeps_table: "keeps a p q \<Longrightarrow> table q = table p"
  by (simp add: keeps_def table_def)

lemma take_alloc_ok: "allocs pd = [] \<Longrightarrow> take_alloc pd = (True, pd)"
  by (simp add: take_alloc_def)

lemma extend_ok:
  assumes "arr_ok arr"
  defines "arr' \<equiv> (if arr_size arr \<le> cur_items arr then extend_array arr True else arr)"
  shows "items arr' = Some (arr_list arr)" "cur_items arr' = cur_items arr" "cur_items arr < arr_size arr'"
  using assms by (auto simp: arr_ok_def extend_array_def arr_list_def split: option.splits)

text \<open>Appending to an array with room.\<close>

definition push_arr :: "zdtun_5tuple \<Rightarrow> addr \<Rightarrow> conn_array \<Rightarrow> conn_array" where
  "push_arr tuple a arr =
     (if arr_size arr \<le> cur_items arr then extend_array arr True else arr)
       \<lparr>items := Some (arr_list arr @ [(tuple, a)]), cur_items := cur_items arr + 1\<rparr>"

lemma push_arr_ok: "arr_ok arr \<Longrightarrow> arr_ok (push_arr tuple a arr)"
  by (auto simp: arr_ok_def push_arr_def arr_list_def extend_array_def)

lemma push_arr_list [simp]: "arr_list (push_arr tuple a arr) = arr_list arr @ [(tuple, a)]"
  by (simp add: push_arr_def arr_list_def)

lemma set_arr_simps [simp]:
  "heap (set_arr i arr pd) = heap pd" "allocs (set_arr i arr pd) = allocs pd" "next_addr (set_arr i arr pd) = next_addr pd"
  "connections (set_arr i arr pd) = connections pd" "dumper (set_arr i arr pd) = dumper pd" "cfg (set_arr i arr pd) = cfg pd"
  "now_ms (set_arr i arr pd) = now_ms pd" "mw_new_bl (set_arr i arr pd) = mw_new_bl pd"
  "mw_status_arr (set_arr i arr pd) = mw_status_arr pd" "table (set_arr i arr pd) = table pd"
  "dump_ok (set_arr i arr pd) = dump_ok pd" "get_arr i (set_arr i arr pd) = arr"
  by (simp_all add: set_arr_def get_arr_def table_def dump_ok_def split: arr_id.split)

lemma get_arr_put [simp]: "get_arr i (put_conn a d pd) = get_arr i pd"
  by (simp add: get_arr_def split: arr_id.split)

lemma get_arr_ok: "mem_ok pd \<Longrightarrow> arr_ok (get_arr i pd)"
  by (simp add: mem_ok_def get_arr_def split: arr_id.split)

lemma queued_push:
  "set (queued (set_arr i (push_arr tuple a (get_arr i pd)) pd)) = insert a (set (queued pd))"
  "distinct (queued pd) \<Longrightarrow> a \<notin> set (queued pd) \<Longrightarrow> distinct (queued (set_arr i (push_arr tuple a (get_arr i pd)) pd))"
  by (auto simp: queued_def set_arr_def get_arr_def split: arr_id.split)

lemma notif_connection_eq:
  assumes "mem_ok pd" "heap pd a = Some d"
  obtains d' where "benign d d'" and "\<not> closed (status d) \<longrightarrow> d' = d"
    and "notif_connection env i tuple a pd =
      (if pending_notification d then Some (True, put_conn a d' pd)
       else Some (True, put_conn a (d'\<lparr>pending_notification := True\<rparr>)
              (set_arr i (push_arr tuple a (get_arr i pd)) (put_conn a d' pd))))"
proof -
  obtain d' where d': "(if closed (status d) then pd_giveup_dpi (env_ndpi env) (cfg pd) tuple d else Some d) = Some d'"
    "benign d d'" "\<not> closed (status d) \<longrightarrow> d' = d"
  proof (cases "closed (status d)")
    case True
    obtain d' where "pd_giveup_dpi (env_ndpi env) (cfg pd) tuple d = Some d'" "benign d d'" by (rule pd_giveup_dpi_ok)
    with True show ?thesis by (intro that [of d']) simp_all
  next
    case False
    then show ?thesis by (intro that [of d]) simp_all
  qed
  have p: "pending_notification d' = pending_notification d" using d'(2) by (simp add: benign_def)
  have al: "take_alloc (put_conn a d' pd) = (True, put_conn a d' pd)"
    using mem_okD(1) [OF assms(1)] by (simp add: take_alloc_ok)
  note ex = extend_ok [OF get_arr_ok [OF assms(1), of i]]
  have "notif_connection env i tuple a pd =
      (if pending_notification d then Some (True, put_conn a d' pd)
       else Some (True, put_conn a (d'\<lparr>pending_notification := True\<rparr>)
              (set_arr i (push_arr tuple a (get_arr i pd)) (put_conn a d' pd))))"
    unfolding notif_connection_def assms(2) bind.simps d'(1) Let_def get_arr_put al p
    using ex by (cases "arr_size (get_arr i pd) \<le> cur_items (get_arr i pd)") (simp_all add: push_arr_def al)
  with d'(2,3) show ?thesis by (rule that)
qed

lemma push_inv:
  assumes "pd_inv X pd" "heap pd a = Some d" "\<not> pending_notification d" "a \<notin> X \<longrightarrow> update_type d \<noteq> 0"
  shows "pd_inv X (put_conn a (d\<lparr>pending_notification := True\<rparr>) (set_arr i (push_arr tuple a (get_arr i pd)) pd))"
    (is "pd_inv X ?pd'")
proof (rule pd_invI)
  note m = pd_inv_mem [OF assms(1)] and c = pd_inv_conn [OF assms(1)]
  have nq: "a \<notin> set (queued pd)" using c [OF assms(2)] assms(3) by (simp add: conn_inv_def)
  have q: "set (queued ?pd') = insert a (set (queued pd))" by (simp add: queued_push)
  have "arr_ok (new_conns ?pd') \<and> arr_ok (conns_updates ?pd')"
    using mem_okD(5,6) [OF m] push_arr_ok by (simp add: set_arr_def get_arr_def split: arr_id.split)
  moreover have "distinct (queued ?pd')" using queued_push(2) [OF mem_okD(2) [OF m] nq] by simp
  moreover have "dom (heap ?pd') = dom (heap pd)" using assms(2) by (simp add: insert_absorb domI)
  ultimately show "mem_ok ?pd'"
    using m q assms(2) by (simp add: mem_ok_def insert_absorb domI)
  fix b e assume h: "heap ?pd' b = Some e"
  show "conn_inv (queued ?pd') (table ?pd') X b e"
  proof (cases "b = a")
    case True
    with h have "e = d\<lparr>pending_notification := True\<rparr>" by simp
    with True c [OF assms(2)] assms(4) show ?thesis
      unfolding conn_inv_def q by (simp add: conn_ok_def)
  next
    case False
    with h have "heap pd b = Some e" by simp
    from c [OF this] False show ?thesis unfolding conn_inv_def q by simp
  qed
qed

lemma notif_connection_ok:
  assumes i: "pd_inv X pd" and h: "heap pd a = Some d" and u: "a \<notin> X \<longrightarrow> update_type d \<noteq> 0"
  obtains pd' where "notif_connection env i tuple a pd = Some (True, pd')" and "pd_inv X pd'" and "keeps a pd pd'"
    and "a \<in> set (queued pd')" and "\<not> closed (status d) \<Longrightarrow> heap pd' a = Some (d\<lparr>pending_notification := True\<rparr>)"
proof -
  from pd_inv_mem [OF i] h obtain d' where b: "benign d d'" and nc: "\<not> closed (status d) \<longrightarrow> d' = d"
    and eq: "notif_connection env i tuple a pd =
      (if pending_notification d then Some (True, put_conn a d' pd)
       else Some (True, put_conn a (d'\<lparr>pending_notification := True\<rparr>)
              (set_arr i (push_arr tuple a (get_arr i pd)) (put_conn a d' pd))))"
    by (rule notif_connection_eq [where env = env and i = i and tuple = tuple])
  let ?pd1 = "put_conn a d' pd"
  have i1: "pd_inv X ?pd1" by (rule put_conn_inv [OF i h b])
  have k1: "keeps a pd ?pd1" by (rule keeps_put [OF h b])
  show ?thesis
  proof (cases "pending_notification d")
    case True
    then have "a \<in> set (queued pd)" using pd_inv_conn [OF i h] by (simp add: conn_inv_def)
    moreover have "d = d\<lparr>pending_notification := True\<rparr>" using True by simp
    ultimately show ?thesis using True eq i1 k1 nc by (intro that [of ?pd1]) simp_all
  next
    case False
    let ?pd2 = "put_conn a (d'\<lparr>pending_notification := True\<rparr>) (set_arr i (push_arr tuple a (get_arr i ?pd1)) ?pd1)"
    have d': "\<not> pending_notification d'" "a \<notin> X \<longrightarrow> update_type d' \<noteq> 0" using b u False by (simp_all add: benign_def)
    have "pd_inv X ?pd2" by (rule push_inv [OF i1 _ d']) simp
    moreover have "keeps a pd ?pd2" using h b by (simp add: keeps_def benign_def stable_def)
    moreover have "a \<in> set (queued ?pd2)" using queued_push(1) [of i tuple a ?pd1] by simp
    ultimately show ?thesis using eq False nc by (intro that [of ?pd2]) simp_all
  qed
qed

lemma notify_ok:
  assumes "pd_inv X pd" "heap pd a = Some d" "a \<notin> X \<longrightarrow> update_type d \<noteq> 0"
  obtains pd' where "notify env tuple a pd = Some pd'" and "pd_inv X pd'" and "keeps a pd pd'" and "a \<in> set (queued pd')"
  using assms by (rule notif_connection_ok [of X pd a d env Conns_Updates tuple])
    (auto simp: notify_def pd_notify_connection_update_def)

section \<open>New connections\<close>

lemma pd_inv_new:
  assumes "pd_inv X pd"
  shows "pd_inv (insert (next_addr pd) X) (put_conn (next_addr pd) zero_conn (pd\<lparr>next_addr := next_addr pd + 1\<rparr>))"
    (is "pd_inv _ ?pd'")
proof (rule pd_invI)
  let ?a = "next_addr pd"
  note m = pd_inv_mem [OF assms]
  have fresh: "heap pd ?a = None" using mem_ok_addr [OF m, of ?a] by (cases "heap pd ?a") auto
  have q: "queued ?pd' = queued pd" "table ?pd' = table pd" by (simp_all add: queued_def table_def)
  have nq: "?a \<notin> set (queued pd)" "?a \<notin> set (table pd)" using mem_ok_valid [OF m, of ?a] fresh by auto
  show "mem_ok ?pd'" using m unfolding mem_ok_def q by (auto simp: dump_ok_def)
  fix b e assume h: "heap ?pd' b = Some e"
  show "conn_inv (queued ?pd') (table ?pd') (insert ?a X) b e"
  proof (cases "b = ?a")
    case True
    with h have "e = zero_conn" by simp
    with True nq show ?thesis unfolding q by (simp add: conn_inv_def conn_ok_def zero_conn_def)
  next
    case False
    with h pd_inv_conn [OF assms, of b e] show ?thesis unfolding q by (auto intro: conn_inv_mono)
  qed
qed

lemma netd_resolved_same [simp]: "same_mem (netd_resolved pd) pd" "cfg (netd_resolved pd) = cfg pd"
  "now_ms (netd_resolved pd) = now_ms pd"
  by (simp_all add: netd_resolved_def same_mem_def Let_def)

lemma netd_loop_ok:
  assumes "pd_inv X pd" "set (map snd conns) \<subseteq> dom (heap pd)" "heap pd a = Some d"
  shows "\<exists>pd'. netd_loop u host conns pd = Some pd' \<and> pd_inv X pd' \<and> keeps a pd pd' \<and> queued pd' = queued pd"
  using assms
proof (induction u host conns pd arbitrary: d rule: netd_loop.induct)
  case (2 u host tuple b conns pd)
  obtain e where e: "heap pd b = Some e" using "2.prems"(2) by auto
  let ?pd1 = "if uid e = UID_NETD \<and> info e = Some host
        then netd_resolved (put_conn b (if netd_missed (cfg pd) u (e\<lparr>uid := u\<rparr>)
                                        then e\<lparr>uid := u, netd_block_missed := True\<rparr> else e\<lparr>uid := u\<rparr>) pd) else pd"
  have bn: "benign e (if netd_missed (cfg pd) u (e\<lparr>uid := u\<rparr>) then e\<lparr>uid := u, netd_block_missed := True\<rparr> else e\<lparr>uid := u\<rparr>)"
    by (simp add: benign_fields)
  have i1: "pd_inv X ?pd1"
    using put_conn_inv [OF "2.prems"(1) e bn] "2.prems"(1) pd_inv_same [OF netd_resolved_same(1)] by simp
  have k1: "keeps a pd ?pd1"
    using "2.prems"(3) bn e by (auto simp: keeps_def stable_def netd_resolved_def benign_def Let_def)
  have q1: "queued ?pd1 = queued pd" by (simp add: queued_def netd_resolved_def Let_def)
  have dm: "dom (heap ?pd1) = dom (heap pd)"
    using e by (auto simp: netd_resolved_def Let_def)
  obtain d1 where d1: "heap ?pd1 a = Some d1" using k1 by (auto simp: keeps_def)
  have "set (map snd conns) \<subseteq> dom (heap ?pd1)" using "2.prems"(2) unfolding dm by auto
  from "2.IH" [OF e i1 this d1] obtain pd' where "netd_loop u host conns ?pd1 = Some pd'" "pd_inv X pd'"
    "keeps a ?pd1 pd'" "queued pd' = queued ?pd1" by blast
  with keeps_trans [OF k1] q1 show ?case by (auto simp: e)
qed (simp add: keeps_refl)

lemma upd_conn_ok:
  assumes "pd_inv X pd" "heap pd a = Some d" "benign d (f d)"
  shows "upd_conn a f pd = Some (put_conn a (f d) pd)" "pd_inv X (put_conn a (f d) pd)"
    "keeps a pd (put_conn a (f d) pd)"
  using put_conn_inv [OF assms] keeps_put [OF assms(2,3)] by (simp_all add: upd_conn_def assms(2))

lemma keeps_same: "keeps a p q \<Longrightarrow> same_mem r q \<Longrightarrow> cfg r = cfg q \<Longrightarrow> now_ms r = now_ms q \<Longrightarrow> keeps a p r"
  by (simp add: keeps_def stable_def same_mem_def)

text \<open>A new connection before its checks.\<close>

definition fresh_conn :: pd_conn where
  "fresh_conn = zero_conn\<lparr>ndpi_flow := Some [], pending_notification := True\<rparr>"

lemma arr_slots_ok: "arr_ok arr \<Longrightarrow> arr_slots arr = Some (arr_list arr)"
  by (cases "items arr") (auto simp: arr_ok_def arr_slots_def arr_list_def)

lemma init_new_conn_ok:
  assumes i: "pd_inv X pd" and h: "heap pd a = Some fresh_conn"
  obtains pd' where "init_new_conn env tuple u a pd = Some pd'" and "pd_inv X pd'" and "keeps a pd pd'"
proof -
  define f1 where "f1 d = d\<lparr>uid := u, incr_id := new_conn_id pd, whitelisted_app := (case malware_wl (cfg pd) of
      Some w \<Rightarrow> blacklist_match_uid w u | None \<Rightarrow> whitelisted_app d)\<rparr>" for d :: pd_conn
  define pd0 where "pd0 = pd\<lparr>new_conn_id := new_conn_id pd + 1\<rparr>"
  have i0: "pd_inv X pd0" using i pd_inv_same [of pd0 pd X] by (simp add: same_mem_def pd0_def)
  have h0: "heap pd0 a = Some fresh_conn" by (simp add: pd0_def h)
  have b1: "benign fresh_conn (f1 fresh_conn)" by (simp add: benign_def f1_def conn_ok_def)
  note s1 = upd_conn_ok [where f = f1, OF i0 h0 b1]
  obtain host lru where lru: "ip_lru_find True (ip_to_host pd) (dst_ip tuple) = (host, lru)" by fastforce
  define pd1 where "pd1 = (put_conn a (f1 fresh_conn) pd0)\<lparr>ip_to_host := lru\<rparr>"
  have i1: "pd_inv X pd1" using s1(2) pd_inv_same [of pd1 "put_conn a (f1 fresh_conn) pd0" X]
    by (simp add: same_mem_def pd1_def)
  define f2 where "f2 d = d\<lparr>info := host, info_from_lru := (host \<noteq> None)\<rparr>" for d :: pd_conn
  have h1: "heap pd1 a = Some (f1 fresh_conn)" by (simp add: pd1_def)
  have b2: "benign (f1 fresh_conn) (f2 (f1 fresh_conn))"
    by (simp add: benign_def f1_def f2_def conn_ok_def fresh_conn_def zero_conn_def)
  note s2 = upd_conn_ok [where f = f2, OF i1 h1 b2]
  let ?pd2 = "put_conn a (f2 (f1 fresh_conn)) pd1"
  have n2: "new_conns ?pd2 = new_conns pd" by (simp add: pd1_def pd0_def)
  have h2: "heap ?pd2 a = Some (f2 (f1 fresh_conn))" by simp
  let ?l = "arr_list (new_conns pd)"
  have sl: "arr_slots (new_conns pd1) = Some ?l"
    using arr_slots_ok [OF mem_okD(5) [OF pd_inv_mem [OF i]]] n2 by simp
  have sub: "set (map snd ?l) \<subseteq> dom (heap ?pd2)"
  proof -
    have "set (map snd ?l) \<subseteq> set (queued ?pd2)" unfolding queued_def n2 by simp
    moreover have "set (queued ?pd2) \<subseteq> dom (heap ?pd2)" using pd_inv_mem [OF s2(2)] unfolding mem_ok_def by blast
    ultimately show ?thesis by (rule subset_trans)
  qed
  have k2: "keeps a pd ?pd2"
    using h by (simp add: keeps_def stable_def pd1_def pd0_def f1_def f2_def fresh_conn_def zero_conn_def)
  obtain pd3 where pd3: "(case host of
         Some h \<Rightarrow> if u \<noteq> UID_UNKNOWN
                   then do { l \<leftarrow> arr_slots (new_conns ?pd2); netd_loop u h l ?pd2 }
                   else Some ?pd2
       | None \<Rightarrow> Some ?pd2) = Some pd3" "pd_inv X pd3" "keeps a ?pd2 pd3"
  proof (cases host)
    case (Some hs)
    from netd_loop_ok [OF s2(2) sub h2, of u hs] obtain pd3
      where "netd_loop u hs ?l ?pd2 = Some pd3" "pd_inv X pd3" "keeps a ?pd2 pd3" by blast
    then show ?thesis using that [of ?pd2] that [of pd3] s2(2) keeps_refl [OF h2]
      by (cases "u = UID_UNKNOWN") (simp_all add: Some sl)
  qed (use that [of ?pd2] s2(2) keeps_refl [OF h2] in simp)
  obtain d3 where d3: "heap pd3 a = Some d3" using pd3(3) by (auto simp: keeps_def)
  define pd4 where "pd4 n m = put_conn a (new_conn_checks (env_ndpi env) (cfg pd3) tuple d3)
      (pd3\<lparr>bl_num_checked_connections := n, fw_num_checked_connections := m\<rparr>)" for n m
  have lru0: "ip_lru_find True (ip_to_host (put_conn a (f1 fresh_conn) pd0)) (dst_ip tuple) = (host, lru)"
    by (simp add: pd0_def lru)
  have "\<exists>n m. init_new_conn env tuple u a pd = Some (pd4 n m)"
    unfolding init_new_conn_def f1_def [symmetric] pd0_def [symmetric] s1(1) bind.simps lru0 Let_def prod.case
      f2_def [symmetric] pd1_def [symmetric] s2(1) pd3(1) d3 pd4_def by blast
  then obtain n m where eq: "init_new_conn env tuple u a pd = Some (pd4 n m)" by blast
  have sm: "same_mem (pd4 n m) (put_conn a (new_conn_checks (env_ndpi env) (cfg pd3) tuple d3) pd3)"
    by (simp add: same_mem_def pd4_def)
  have i4: "pd_inv X (pd4 n m)" using pd_inv_same [OF sm] put_conn_inv [OF pd3(2) d3 benign_checks] by blast
  have "keeps a pd3 (pd4 n m)" by (rule keeps_same [OF keeps_put [OF d3 benign_checks] sm]) (simp_all add: pd4_def)
  with keeps_trans [OF keeps_trans [OF k2 pd3(3)]] have "keeps a pd (pd4 n m)" by blast
  with eq i4 show ?thesis by (intro that)
qed

lemma pd_new_connection_ok:
  assumes i: "pd_inv X pd"
  obtains a pd' where "pd_new_connection env tuple u pd = Some (Some a, pd')" and "pd_inv (insert a X) pd'"
    and "connections pd' = connections pd" and "cfg pd' = cfg pd" and "now_ms pd' = now_ms pd"
    and "a \<notin> set (table pd)" and "\<exists>d. heap pd' a = Some d \<and> \<not> to_purge d" and "heap pd a = None" and "stable pd pd'"
proof -
  let ?a = "next_addr pd"
  note m = pd_inv_mem [OF i]
  define pd1 where "pd1 = put_conn ?a zero_conn (pd\<lparr>next_addr := ?a + 1\<rparr>)"
  have i1: "pd_inv (insert ?a X) pd1" unfolding pd1_def by (rule pd_inv_new [OF i])
  have h1: "heap pd1 ?a = Some zero_conn" by (simp add: pd1_def)
  let ?pd2 = "put_conn ?a (zero_conn\<lparr>ndpi_flow := Some []\<rparr>) pd1"
  have i2: "pd_inv (insert ?a X) ?pd2" by (rule put_conn_inv [OF i1 h1 benign_fields(5)])
  have h2: "heap ?pd2 ?a = Some (zero_conn\<lparr>ndpi_flow := Some []\<rparr>)" by simp
  obtain pd3 where n: "notif_connection env New_Conns tuple ?a ?pd2 = Some (True, pd3)" and i3: "pd_inv (insert ?a X) pd3"
    and k3: "keeps ?a ?pd2 pd3" and q3: "?a \<in> set (queued pd3)"
    and h3: "\<not> closed (status (zero_conn\<lparr>ndpi_flow := Some []\<rparr>)) \<Longrightarrow>
      heap pd3 ?a = Some (zero_conn\<lparr>ndpi_flow := Some [], pending_notification := True\<rparr>)"
    by (rule notif_connection_ok [OF i2 h2, of env New_Conns tuple]) simp_all
  have h3: "heap pd3 ?a = Some fresh_conn" using h3 by (simp add: fresh_conn_def zero_conn_def)
  obtain pd4 where n4: "init_new_conn env tuple u ?a pd3 = Some pd4" and i4: "pd_inv (insert ?a X) pd4" and k4: "keeps ?a pd3 pd4"
    by (rule init_new_conn_ok [OF i3 h3])
  have al: "take_alloc pd = (True, pd)" "take_alloc pd1 = (True, pd1)"
    using mem_okD(1) [OF m] mem_okD(1) [OF pd_inv_mem [OF i1]] by (simp_all add: take_alloc_ok)
  have eq: "pd_new_connection env tuple u pd = Some (Some ?a, pd4)"
    unfolding pd_new_connection_def Let_def al prod.case pd1_def [symmetric]
    by (simp add: al(2) n n4)
  have k: "keeps ?a ?pd2 pd4" by (rule keeps_trans [OF k3 k4])
  have nt: "?a \<notin> set (table pd)" using mem_ok_valid(2) [OF m, of ?a] mem_ok_addr [OF m, of ?a] by auto
  obtain d4 where d4: "heap pd4 ?a = Some d4" "to_purge d4 = to_purge (zero_conn\<lparr>ndpi_flow := Some []\<rparr>)"
    using k by (auto simp: keeps_def)
  have fr: "heap pd ?a = None" using mem_ok_addr [OF m, of ?a] by (cases "heap pd ?a") auto
  have "stable pd pd1" unfolding pd1_def using stable_new [OF fr] by (simp add: stable_def)
  moreover have "stable pd1 ?pd2" by (rule stable_put [OF h1]) (simp add: zero_conn_def)
  ultimately have st: "stable pd pd4" using stable_trans keeps_stable [OF k] by blast
  show ?thesis
    by (rule that [OF eq i4 _ _ _ nt _ fr st]) (use k d4 in \<open>simp_all add: keeps_def pd1_def zero_conn_def\<close>)
qed

section \<open>Packets\<close>

text \<open>The DNS scan needs 16 readable bytes after the payload.\<close>

definition readable :: "zdtun_pkt \<Rightarrow> bool" where
  "readable pkt \<longleftrightarrow> unat (p_l7_len pkt) + 16 \<le> length (pkt_l7 pkt)"

lemma same_mem_refl [simp]: "same_mem pd pd"
  by (simp add: same_mem_def)

lemma netd_wait_same: "same_mem (netd_wait d pd) pd" "cfg (netd_wait d pd) = cfg pd" "now_ms (netd_wait d pd) = now_ms pd"
  by (simp_all add: netd_wait_def same_mem_def)

lemma same_mem_heap: "same_mem p q \<Longrightarrow> heap p = heap q"
  by (simp add: same_mem_def)

lemma put_same_mem:
  assumes "pd_inv X pd" "heap pd a = Some d" "benign d d'" "same_mem q (put_conn a d' pd)"
    "cfg q = cfg pd" "now_ms q = now_ms pd"
  shows "pd_inv X q" "keeps a pd q" "heap q a = Some d'"
  using put_conn_inv [OF assms(1-3)] pd_inv_same [OF assms(4)]
    keeps_same [OF keeps_put [OF assms(2,3)] assms(4)] assms(5,6) same_mem_heap [OF assms(4)] by simp_all

lemma perform_dpi_ok:
  assumes i: "pd_inv X pd" and x: "c_data x \<in> X" and h: "heap pd (c_data x) = Some d0" and f: "ndpi_flow d0 \<noteq> None"
    and r: "c_is_tx x \<or> readable (c_pkt x)"
  obtains pd' where "perform_dpi env x pd = Some pd'" and "pd_inv X pd'" and "keeps (c_data x) pd pd'"
proof -
  let ?a = "c_data x" and ?nd = "env_ndpi env" and ?t = "p_tuple (c_pkt x)"
  obtain fl0 where fl0: "ndpi_flow d0 = Some fl0" using f by blast
  define fl where "fl = fl0 @ [pkt_bytes (c_pkt x)]"
  define proto where "proto = pd_ndpi2proto (nd_process ?nd fl)"
  define d1 where "d1 = d0\<lparr>ndpi_flow := Some fl, l7proto := proto\<rparr>"
  define d2 where "d2 = (if l7proto d0 \<noteq> proto
      then (touch_update CONN_UPDATE_INFO d1)\<lparr>encrypted_l7 := is_encrypted_l7 (nd_limit ?nd) (nd_clear ?nd) proto\<rparr> else d1)"
  have b1: "benign d0 d1" unfolding d1_def by (rule benign_fields)
  have b2: "benign d0 d2"
    unfolding d2_def using b1 benign_trans [OF b1 benign_trans [OF benign_touch benign_fields(11)]] by simp
  have f2: "ndpi_flow d2 \<noteq> None" by (simp add: d2_def d1_def touch_update_def)
  obtain lru where lru: "(if \<not> c_is_tx x \<and> proto = NDPI_PROTOCOL_DNS
      then process_dns_reply (pkt_l7 (c_pkt x)) (unat (p_l7_len (c_pkt x))) (nd_host ?nd fl) (ip_to_host pd)
      else Some (ip_to_host pd)) = Some lru"
    using process_dns_reply_bounds [of "unat (p_l7_len (c_pkt x))" "pkt_l7 (c_pkt x)" "nd_host ?nd fl" "ip_to_host pd"] r
    by (cases "\<not> c_is_tx x \<and> proto = NDPI_PROTOCOL_DNS") (auto simp: readable_def)
  obtain d3 where d3: "(if MAX_DPI_PACKETS \<le> sent_pkts d0 + rcvd_pkts d0 + 1 \<or> proto \<noteq> NDPI_PROTOCOL_UNKNOWN \<and> \<not> nd_extra ?nd fl
      then pd_giveup_dpi ?nd (cfg pd) ?t d2 else process_ndpi_data ?nd (cfg pd) ?t d2) = Some d3" and b3: "benign d2 d3"
    by (rule pd_giveup_dpi_ok [of ?nd "cfg pd" ?t d2], rule process_ndpi_data_ok [OF f2, of ?nd "cfg pd" ?t])
      (metis (mono_tags, lifting))
  note b = benign_trans [OF b2 b3]
  define pd1 where "pd1 = netd_wait d3 (put_conn ?a d3 (pd\<lparr>ip_to_host := lru\<rparr>))"
  have sm: "same_mem pd1 (put_conn ?a d3 pd)" unfolding pd1_def
    by (auto simp: netd_wait_def same_mem_def)
  have cn: "cfg pd1 = cfg pd" "now_ms pd1 = now_ms pd" by (simp_all add: pd1_def netd_wait_same)
  note s1 = put_same_mem [OF i h b sm cn]
  have eq: "perform_dpi env x pd =
     (if ndpi_flow d3 = None \<and> l7proto d3 = NDPI_PROTOCOL_TLS \<and> alpn d3 = 0 \<and> guess_alpn (c_tuple x) d3 \<noteq> 0
     then notify env (c_tuple x) ?a
            (put_conn ?a (touch_update CONN_UPDATE_INFO (d3\<lparr>alpn := guess_alpn (c_tuple x) d3\<rparr>)) pd1)
     else Some pd1)"
    unfolding perform_dpi_def Let_def h bind.simps fl0 fl_def [symmetric] proto_def [symmetric] d1_def [symmetric]
      d2_def [symmetric] lru d3 pd1_def [symmetric] ..
  let ?d4 = "touch_update CONN_UPDATE_INFO (d3\<lparr>alpn := guess_alpn (c_tuple x) d3\<rparr>)"
  have b4: "benign d3 ?d4" by (rule benign_trans [OF benign_fields(2) benign_touch])
  have h4: "heap (put_conn ?a ?d4 pd1) ?a = Some ?d4" by simp
  obtain pd2 where n: "notify env (c_tuple x) ?a (put_conn ?a ?d4 pd1) = Some pd2" "pd_inv X pd2"
    "keeps ?a (put_conn ?a ?d4 pd1) pd2"
    by (rule notify_ok [OF put_conn_inv [OF s1(1,3) b4] h4]) (use x in auto)
  have k2: "keeps ?a pd pd2" by (rule keeps_trans [OF s1(2) keeps_trans [OF keeps_put [OF s1(3) b4] n(3)]])
  show ?thesis using that [of pd1] that [of pd2] eq n(1,2) k2 s1(1,2) by (simp split: if_splits)
qed

lemma benign_steps:
  "benign d e \<Longrightarrow> benign d e' \<Longrightarrow> benign d (if p then e else e')"
  "benign d e \<Longrightarrow> benign d (touch_update f e)"
  "benign d e \<Longrightarrow> benign d (e\<lparr>payload_truncated := b\<rparr>)"
  "benign d e \<Longrightarrow> benign d (e\<lparr>payload_chunks := b\<rparr>)"
  "benign d e \<Longrightarrow> benign d (set_has_payload b e)"
  by (auto intro: benign_trans [OF _ benign_touch] benign_trans [OF _ benign_fields(15)]
      benign_trans [OF _ benign_fields(14)] benign_trans [OF _ benign_fields(16)])

lemma benign_payload:
  assumes "process_payload c cb tx n d = (out, d', nf)"
  shows "benign d d'"
proof -
  have "benign d (fst (snd (process_payload c cb tx n d)))"
  proof (cases "payload_mode_cfg c = PAYLOAD_MODE_NONE \<or> \<not> has_chunk_cb c \<or> n = 0 \<or> (tls_enabled c \<and> proxied d)")
    case True
    then have "process_payload c cb tx n d = (None, d, False)" unfolding process_payload_def by (rule if_P)
    then show ?thesis by simp
  next
    case False
    show ?thesis unfolding process_payload_def if_not_P [OF False] Let_def fst_conv snd_conv
      by (intro benign_steps benign_refl)
  qed
  then show ?thesis using assms by simp
qed

lemma handle_payload_ok:
  assumes i: "pd_inv X pd" and x: "c_data x \<in> X" and h: "heap pd (c_data x) = Some d"
  obtains pd' where "handle_payload env x pd = Some pd'" and "pd_inv X pd'" and "keeps (c_data x) pd pd'"
proof -
  obtain out d1 nf where p: "process_payload (cfg pd) (chunk_cb env d (unat (p_l7_len (c_pkt x)))) (c_is_tx x)
      (unat (p_l7_len (c_pkt x))) d = (out, d1, nf)" by (metis prod_cases3)
  note b = benign_payload [OF p]
  let ?pd1 = "put_conn (c_data x) d1 pd"
  have i1: "pd_inv X ?pd1" by (rule put_conn_inv [OF i h b])
  have k1: "keeps (c_data x) pd ?pd1" by (rule keeps_put [OF h b])
  have h1: "heap ?pd1 (c_data x) = Some d1" by simp
  obtain pd2 where n: "notify env (c_tuple x) (c_data x) ?pd1 = Some pd2" "pd_inv X pd2" "keeps (c_data x) ?pd1 pd2"
    by (rule notify_ok [OF i1 h1]) (use x in auto)
  have "handle_payload env x pd = (if nf then notify env (c_tuple x) (c_data x) ?pd1 else Some ?pd1)"
    unfolding handle_payload_def h by (simp add: p)
  then show ?thesis using that [of ?pd1] that [of pd2] n(1,2) i1 k1 keeps_trans [OF k1 n(3)] by (cases nf) simp_all
qed

lemma keeps_heap: "keeps a p q \<Longrightarrow> \<exists>d. heap q a = Some d"
  by (auto simp: keeps_def)

lemma pd_process_packet_ok:
  assumes i: "pd_inv X pd" and x: "c_data x \<in> X" and h: "heap pd (c_data x) = Some d" and r: "c_is_tx x \<or> readable (c_pkt x)"
  obtains pd' where "pd_process_packet env x pd = Some pd'" and "pd_inv X pd'" and "keeps (c_data x) pd pd'"
proof -
  let ?a = "c_data x"
  define d1 where "d1 = d\<lparr>last_seen := sint (pkt_ms x), first_seen := (if first_seen d = 0 then sint (pkt_ms x) else first_seen d)\<rparr>"
  have b: "benign d d1" unfolding d1_def by (rule benign_fields)
  let ?pd1 = "put_conn ?a d1 pd"
  have i1: "pd_inv X ?pd1" by (rule put_conn_inv [OF i h b])
  have k1: "keeps ?a pd ?pd1" by (rule keeps_put [OF h b])
  have h1: "heap ?pd1 ?a = Some d1" by simp
  obtain pd2 where s2: "(if ndpi_flow d1 \<noteq> None \<and> (\<not> has_flag (p_flags (c_pkt x)) ZDTUN_PKT_IS_FRAGMENT \<or>
        has_flag (p_flags (c_pkt x)) ZDTUN_PKT_IS_FIRST_FRAGMENT) then perform_dpi env x ?pd1 else Some ?pd1) = Some pd2"
    and i2: "pd_inv X pd2" and k2: "keeps ?a pd pd2"
  proof (cases "ndpi_flow d1 \<noteq> None \<and> (\<not> has_flag (p_flags (c_pkt x)) ZDTUN_PKT_IS_FRAGMENT \<or>
        has_flag (p_flags (c_pkt x)) ZDTUN_PKT_IS_FIRST_FRAGMENT)")
    case True
    then obtain pd2 where p: "perform_dpi env x ?pd1 = Some pd2" "pd_inv X pd2" "keeps ?a ?pd1 pd2"
      using perform_dpi_ok [OF i1 x h1 _ r, of env] by blast
    with True keeps_trans [OF k1 p(3)] show ?thesis by (intro that [of pd2]) simp_all
  next
    case False
    then show ?thesis using i1 k1 by (intro that [of ?pd1]) (simp_all only: if_False)
  qed
  obtain d2 where h2: "heap pd2 ?a = Some d2" using keeps_heap [OF k2] by blast
  obtain pd3 where "handle_payload env x pd2 = Some pd3" "pd_inv X pd3" "keeps ?a pd2 pd3"
    by (rule handle_payload_ok [OF i2 x h2])
  moreover have "pd_process_packet env x pd = handle_payload env x pd2"
    unfolding pd_process_packet_def h bind.simps Let_def d1_def [symmetric] s2 ..
  ultimately show ?thesis using keeps_trans [OF k2] by (intro that [of pd3]) simp_all
qed

text \<open>Writing a packet to the dump does not touch the connections.\<close>

lemma pd_dump_packet_ok:
  assumes i: "pd_inv X pd" and p: "pkt \<noteq> []"
  obtains dm out where "pd_dump_packet env pkt sec usec u pd = Some (pd\<lparr>dumper := dm, dumped := out\<rparr>)"
    and "pd_inv X (pd\<lparr>dumper := dm, dumped := out\<rparr>)"
proof (cases "dumper pd")
  case None
  then have "pd\<lparr>dumper := None, dumped := dumped pd\<rparr> = pd" by simp
  then have e: "pd\<lparr>dumper := dumper pd, dumped := dumped pd\<rparr> = pd" by simp
  show ?thesis by (rule that [where dm = "dumper pd" and out = "dumped pd"]) (unfold e, simp_all add: pd_dump_packet_def None i)
next
  case (Some dm)
  have d: "dumper_inv dm" "0 < d_snaplen dm" using mem_okD(7) [OF pd_inv_mem [OF i]] Some by (simp_all add: dump_ok_def)
  have inv: "pd_inv X (pd\<lparr>dumper := e, dumped := out\<rparr>)" if "\<forall>dm. e = Some dm \<longrightarrow> dumper_inv dm \<and> 0 < d_snaplen dm" for e out
    using i that by (simp add: pd_inv_def mem_ok_def queued_def table_def dump_ok_def)
  obtain ok dm' where w: "pcap_dump_packet (unat (now_ms pd)) (appname_of env u) dm pkt sec usec u = Some (ok, dm')"
    and i': "dumper_inv dm'" and c': "dump_config dm' = dump_config dm"
    by (rule pcap_dump_packet_spec [OF d(1) p d(2)])
  obtain e where e: "export_buffer (unat (now_ms pd)) dm' = Some e" using i' by (rule export_buffer_inv)
  have s: "0 < d_snaplen dm'" using c' d(2) by (simp add: dump_config_def)
  show ?thesis
  proof (cases ok)
    case True
    show ?thesis by (rule that [where dm = "Some dm'" and out = "dumped pd"])
      (use True w in \<open>simp add: pd_dump_packet_def Some Let_def\<close>, rule inv, use i' s in simp)
  next
    case False
    show ?thesis by (rule that [where dm = None and out = "d_out e"])
      (use False w e in \<open>simp add: pd_dump_packet_def Some Let_def stop_pcap_dump_def pcap_destroy_dumper_def\<close>, rule inv, simp)
  qed
qed

lemma benign_account: "benign d (account_conn pkt tx d)"
  unfolding account_conn_def Let_def by (auto simp: benign_def touch_update_def conn_ok_def or_nonzero)

lemma account_update_type: "update_type (account_conn pkt tx d) \<noteq> 0"
  by (simp add: account_conn_def Let_def touch_update_def or_nonzero)

text \<open>After the statistics the connection is enqueued and has something to send.\<close>

lemma pd_account_stats_ok:
  assumes i: "pd_inv X pd" and x: "c_data x \<in> X" and h: "heap pd (c_data x) = Some d" and p: "pkt_bytes (c_pkt x) \<noteq> []"
  obtains pd' d' where "pd_account_stats env x pd = Some pd'" and "pd_inv X pd'" and "keeps (c_data x) pd pd'"
    and "c_data x \<in> set (queued pd')" and "heap pd' (c_data x) = Some d'" and "update_type d' \<noteq> 0"
proof -
  let ?a = "c_data x"
  define pd0 where "pd0 = pd\<lparr>cap_stats := account_capture (c_pkt x) (c_is_tx x) (cap_stats pd)\<rparr>"
  have i0: "pd_inv X pd0" using i pd_inv_same [of pd0 pd X] by (simp add: same_mem_def pd0_def)
  have h0: "heap pd0 ?a = Some d" by (simp add: pd0_def h)
  note s1 = upd_conn_ok [where f = "account_conn (c_pkt x) (c_is_tx x)", OF i0 h0 benign_account]
  let ?d1 = "account_conn (c_pkt x) (c_is_tx x) d"
  let ?pd1 = "put_conn ?a ?d1 pd0"
  have k1: "keeps ?a pd ?pd1" using s1(3) by (simp add: keeps_def stable_def pd0_def)
  have h1: "heap ?pd1 ?a = Some ?d1" by simp
  obtain pd2 where n: "notify env (c_tuple x) ?a ?pd1 = Some pd2" "pd_inv X pd2" "keeps ?a ?pd1 pd2" "?a \<in> set (queued pd2)"
    by (rule notify_ok [OF s1(2) h1]) (use x in auto)
  obtain d2 where h2: "heap pd2 ?a = Some d2" "update_type d2 \<noteq> 0"
    using n(3) account_update_type [of "c_pkt x" "c_is_tx x" d] by (auto simp: keeps_def)
  obtain dm out where w: "pd_dump_packet env (pkt_bytes (c_pkt x)) (c_sec x) (c_usec x) (uid d2) pd2 =
      Some (pd2\<lparr>dumper := dm, dumped := out\<rparr>)" "pd_inv X (pd2\<lparr>dumper := dm, dumped := out\<rparr>)"
    by (rule pd_dump_packet_ok [OF n(2) p])
  have eq: "pd_account_stats env x pd =
    (if dumper pd2 \<noteq> None \<and> (max_pkts_per_flow pd2 \<le> 0 \<or> sent_pkts d2 + rcvd_pkts d2 \<le> max_pkts_per_flow pd2)
     then Some (pd2\<lparr>dumper := dm, dumped := out\<rparr>) else Some pd2)"
    unfolding pd_account_stats_def Let_def pd0_def [symmetric] s1(1) bind.simps n(1) h2(1) w(1) ..
  have k: "keeps ?a pd pd2" by (rule keeps_trans [OF k1 n(3)])
  let ?pd3 = "pd2\<lparr>dumper := dm, dumped := out\<rparr>"
  have "keeps ?a pd ?pd3" using k by (simp add: keeps_def stable_def)
  moreover have "?a \<in> set (queued ?pd3)" using n(4) by (simp add: queued_def)
  moreover have "heap ?pd3 ?a = Some d2" by (simp add: h2(1))
  ultimately show ?thesis
  proof (cases "dumper pd2 \<noteq> None \<and> (max_pkts_per_flow pd2 \<le> 0 \<or> sent_pkts d2 + rcvd_pkts d2 \<le> max_pkts_per_flow pd2)")
    case True
    from eq [unfolded if_P [OF True]] w(2) show ?thesis by (rule that) fact+
  next
    case False
    from eq [unfolded if_not_P [OF False]] n(2) show ?thesis by (rule that) fact+
  qed
qed

end
