(* ===== verification/Conn_Housekeeping.thy ===== *)
theory Conn_Housekeeping
  imports Conn_Heap
begin

text \<open>
  The periodic tasks of the capture core keep the invariant: reload of the lists with a re-check of
  the active connections, dump to the application, which frees the connections that are to be purged.
\<close>

text \<open>Connections of the table are not marked for purging; \<open>X\<close> are connections the invariant exempts.\<close>

definition live :: "pcapdroid \<Rightarrow> bool" where
  "live pd \<longleftrightarrow> (\<forall>a \<in> set (table pd). \<forall>d. heap pd a = Some d \<longrightarrow> \<not> to_purge d)"

lemma pd_inv_live: "pd_inv {} pd \<Longrightarrow> live pd"
  unfolding live_def using pd_inv_conn [of "{}" pd] by (auto simp: conn_inv_def)

lemma live_stable: "live pd \<Longrightarrow> pd_inv X pd \<Longrightarrow> stable pd pd' \<Longrightarrow> connections pd' = connections pd \<Longrightarrow> live pd'"
  unfolding live_def stable_def table_def using mem_ok_valid(2) [of pd] pd_inv_mem [of X pd] by (fastforce simp: table_def)

section \<open>Callbacks over the active connections\<close>

text \<open>
  The contract of a callback of \<open>iter_active_connections\<close>: on a connection of the table it keeps the
  invariant and the table. \<open>ok\<close> is what it needs of the configuration.
\<close>

locale conn_callback =
  fixes cb :: "zdtun_5tuple \<Rightarrow> addr \<Rightarrow> pcapdroid \<Rightarrow> pcapdroid option"
    and ok :: "pd_cfg \<Rightarrow> bool"
  assumes cb_ok: "pd_inv X pd \<Longrightarrow> ok (cfg pd) \<Longrightarrow> a \<in> set (table pd) \<Longrightarrow>
    \<exists>pd'. cb t a pd = Some pd' \<and> pd_inv X pd' \<and> keeps a pd pd'"
begin

lemma iter_ok:
  "pd_inv X pd \<Longrightarrow> ok (cfg pd) \<Longrightarrow> set (map snd l) \<subseteq> set (table pd) \<Longrightarrow>
     \<exists>pd'. iter_conns cb l pd = Some pd' \<and> pd_inv X pd' \<and> connections pd' = connections pd \<and> cfg pd' = cfg pd \<and>
       now_ms pd' = now_ms pd \<and> stable pd pd'"
proof (induction l arbitrary: pd)
  case (Cons e l)
  obtain t a where e: "e = (t, a)" by (cases e)
  from Cons.prems(3) have a: "a \<in> set (table pd)" and l: "set (map snd l) \<subseteq> set (table pd)" by (auto simp: e)
  from cb_ok [OF Cons.prems(1,2) a] obtain pd1 where 1: "cb t a pd = Some pd1" "pd_inv X pd1" "keeps a pd pd1" by blast
  have k: "connections pd1 = connections pd" "cfg pd1 = cfg pd" "now_ms pd1 = now_ms pd" "table pd1 = table pd" "stable pd pd1"
    using 1(3) by (simp_all add: keeps_def table_def)
  from Cons.IH [of pd1] obtain pd' where "iter_conns cb l pd1 = Some pd' \<and> pd_inv X pd' \<and>
      connections pd' = connections pd1 \<and> cfg pd' = cfg pd1 \<and> now_ms pd' = now_ms pd1 \<and> stable pd1 pd'"
    using 1(2) Cons.prems(2) l k by auto
  then show ?case using 1(1) k stable_trans [of pd pd1 pd'] by (auto simp: e)
qed simp

lemma libpcap_iter_ok:
  assumes "pd_inv X pd" "ok (cfg pd)"
  obtains pd' where "libpcap_iter_connections cb pd = Some pd'" and "pd_inv X pd'"
    and "connections pd' = connections pd" and "cfg pd' = cfg pd" and "now_ms pd' = now_ms pd" and "stable pd pd'"
  using iter_ok [OF assms, of "connections pd"] by (auto simp: libpcap_iter_connections_def table_def)

end

lemma check_blocked_ok:
  assumes i: "pd_inv X pd" and h: "heap pd a = Some d"
  shows "\<exists>pd'. check_blocked_conn_cb env t a pd = Some pd' \<and> pd_inv X pd' \<and> keeps a pd pd'"
proof -
  let ?d1 = "recheck_block (env_ndpi env) (cfg pd) t d" and ?d2 = "touch_update CONN_UPDATE_STATS (recheck_block (env_ndpi env) (cfg pd) t d)"
  have b: "benign d ?d1" "benign d ?d2" by (rule benign_recheck, rule benign_trans [OF benign_recheck benign_touch])
  have h2: "heap (put_conn a ?d2 pd) a = Some ?d2" by simp
  obtain pd2 where "notify env t a (put_conn a ?d2 pd) = Some pd2" "pd_inv X pd2" "keeps a (put_conn a ?d2 pd) pd2"
    by (rule notify_ok [OF put_conn_inv [OF i h b(2)] h2]) (simp_all add: update_type_touch)
  with put_conn_inv [OF i h b(1)] keeps_put [OF h b(1)] keeps_trans [OF keeps_put [OF h b(2)]] show ?thesis
    by (auto simp: check_blocked_conn_cb_def h Let_def)
qed

interpretation blocked: conn_callback "check_blocked_conn_cb env" "\<lambda>c. True" for env
  by unfold_locales (metis check_blocked_ok mem_ok_valid(2) pd_inv_mem)

lemma check_blacklisted_ok:
  assumes i: "pd_inv X pd" and w: "malware_wl (cfg pd) = Some wl" and h: "heap pd a = Some d0"
  shows "\<exists>pd'. check_blacklisted_conn_cb env t a pd = Some pd' \<and> pd_inv X pd' \<and> keeps a pd pd'"
proof -
  define d where "d = d0\<lparr>whitelisted_app := blacklist_match_uid wl (uid d0)\<rparr>"
  define unip where "unip = (blacklisted_ip d \<and> (whitelisted_app d \<or>
      blacklist_match_ip (nd_ops (env_ndpi env)) wl (dst_ip t) (uint (ipver t))))"
  have co: "blacklisted_domain d \<longrightarrow> info d \<noteq> None"
    using pd_inv_conn [OF i h] by (simp add: conn_inv_def conn_ok_def d_def)
  obtain undom where u: "(if blacklisted_domain d then if whitelisted_app d then Some True
      else do { i \<leftarrow> info d; Some (blacklist_match_domain wl i) } else Some False) = Some undom"
    using co by (cases "blacklisted_domain d"; cases "whitelisted_app d") auto
  define d1 where "d1 = d\<lparr>blacklisted_ip := blacklisted_ip d \<and> \<not> unip, blacklisted_domain := blacklisted_domain d \<and> \<not> undom\<rparr>"
  let ?pd1 = "put_conn a d1 pd"
  have b: "benign d0 d1" by (auto simp: benign_def conn_ok_def d1_def d_def)
  have i1: "pd_inv X ?pd1" and k1: "keeps a pd ?pd1" by (rule put_conn_inv [OF i h b], rule keeps_put [OF h b])
  have h1: "heap ?pd1 a = Some d1" by simp
  obtain pd2 where s2: "(if fw_bl (cfg ?pd1) \<noteq> None then check_blocked_conn_cb env t a ?pd1 else Some ?pd1) = Some pd2"
    and i2: "pd_inv X pd2" and k2: "keeps a ?pd1 pd2"
    using check_blocked_ok [OF i1 h1, of env t] i1 keeps_refl [OF h1] by (cases "fw_bl (cfg ?pd1) \<noteq> None") auto
  obtain d2 where h2: "heap pd2 a = Some d2" using keeps_heap [OF k2] by blast
  note s3 = upd_conn_ok [where f = "touch_update CONN_UPDATE_STATS", OF i2 h2 benign_touch]
  let ?pd3 = "put_conn a (touch_update CONN_UPDATE_STATS d2) pd2"
  have h3: "heap ?pd3 a = Some (touch_update CONN_UPDATE_STATS d2)" by simp
  obtain pd4 where n: "notify env t a ?pd3 = Some pd4" "pd_inv X pd4" "keeps a ?pd3 pd4"
    by (rule notify_ok [OF s3(2) h3]) (simp_all add: update_type_touch)
  have k4: "keeps a pd pd4" by (rule keeps_trans [OF k1 keeps_trans [OF k2 keeps_trans [OF s3(3) n(3)]]])
  have "check_blacklisted_conn_cb env t a pd = (if unip \<or> undom then Some pd4 else Some ?pd1)"
    unfolding check_blacklisted_conn_cb_def h bind.simps w Let_def d_def [symmetric] unip_def [symmetric] u
      d1_def [symmetric] s2 s3(1) n(1) ..
  then show ?thesis using n(2) k4 i1 k1 by simp
qed

interpretation blacklisted: conn_callback "check_blacklisted_conn_cb env" "\<lambda>c. malware_wl c \<noteq> None" for env
  by unfold_locales (metis check_blacklisted_ok mem_ok_valid(2) pd_inv_mem not_None_eq)

section \<open>Reload of the lists\<close>

lemma reload_lists_ok:
  assumes i: "pd_inv X pd"
  obtains pd' where "reload_lists env pd = Some pd'" and "pd_inv X pd'" and "connections pd' = connections pd"
    and "now_ms pd' = now_ms pd" and "stable pd pd'"
proof -
  have same: "pd_inv X (p\<lparr>cfg := c, mw_new_wl := w\<rparr>)" "pd_inv X (p\<lparr>cfg := c, fw_new_bl := w\<rparr>)"
    "pd_inv X (p\<lparr>cfg := c, fw_new_wl := w\<rparr>)" "pd_inv X (p\<lparr>cfg := c, tls_new_list := w\<rparr>)" if "pd_inv X p" for p c w
    using that by (simp_all add: pd_inv_def mem_ok_def queued_def table_def dump_ok_def)
  obtain pd1 where 1: "(case mw_new_wl pd of
      Some w \<Rightarrow> libpcap_iter_connections (check_blacklisted_conn_cb env) (pd\<lparr>cfg := (cfg pd)\<lparr>malware_wl := Some w\<rparr>, mw_new_wl := None\<rparr>)
    | None \<Rightarrow> Some pd) = Some pd1" "pd_inv X pd1" "connections pd1 = connections pd" "now_ms pd1 = now_ms pd" "stable pd pd1"
  proof (cases "mw_new_wl pd")
    case (Some w)
    let ?p = "pd\<lparr>cfg := (cfg pd)\<lparr>malware_wl := Some w\<rparr>, mw_new_wl := None\<rparr>"
    have ip: "pd_inv X ?p" "malware_wl (cfg ?p) \<noteq> None" using same(1) [OF i] by simp_all
    obtain pd1 where "libpcap_iter_connections (check_blacklisted_conn_cb env) ?p = Some pd1"
      "pd_inv X pd1" "connections pd1 = connections ?p" "now_ms pd1 = now_ms ?p" "stable ?p pd1"
      by (rule blacklisted.libpcap_iter_ok [OF ip, of env])
    moreover have "stable ?p pd1 = stable pd pd1" by (rule stable_same) simp_all
    ultimately have "libpcap_iter_connections (check_blacklisted_conn_cb env) ?p = Some pd1 \<and>
      pd_inv X pd1 \<and> connections pd1 = connections pd \<and> now_ms pd1 = now_ms pd \<and> stable pd pd1" by simp
    then show ?thesis using that Some by simp
  qed (use that i in simp)
  let ?step = "\<lambda>p. libpcap_iter_connections (check_blocked_conn_cb env) p"
  have blk: "\<exists>q. ?step p = Some q \<and> pd_inv X q \<and> connections q = connections p \<and> now_ms q = now_ms p \<and> stable p q" if "pd_inv X p" for p
    using blocked.libpcap_iter_ok [OF that TrueI, of env] by blast
  obtain pd2 where 2: "(case fw_new_bl pd1 of
      Some b \<Rightarrow> ?step (pd1\<lparr>cfg := (cfg pd1)\<lparr>fw_bl := Some b\<rparr>, fw_new_bl := None\<rparr>)
    | None \<Rightarrow> (case fw_new_wl pd1 of
        Some w \<Rightarrow> ?step (pd1\<lparr>cfg := (cfg pd1)\<lparr>fw_wl := Some w\<rparr>, fw_new_wl := None\<rparr>) | None \<Rightarrow> Some pd1)) = Some pd2"
    "pd_inv X pd2" "connections pd2 = connections pd" "now_ms pd2 = now_ms pd" "stable pd1 pd2"
    using blk [OF same(2) [OF 1(2)]] blk [OF same(3) [OF 1(2)]] 1(2-4)
    by (cases "fw_new_bl pd1"; cases "fw_new_wl pd1") (fastforce simp: stable_def)+
  have "reload_lists env pd = Some (case tls_new_list pd2 of
      Some l \<Rightarrow> pd2\<lparr>cfg := (cfg pd2)\<lparr>tls_list := Some l\<rparr>, tls_new_list := None\<rparr> | None \<Rightarrow> pd2)"
    unfolding reload_lists_def 1(1) bind.simps 2(1) ..
  moreover have "stable pd pd2" by (rule stable_trans [OF 1(5) 2(5)])
  then have "stable pd (case tls_new_list pd2 of
      Some l \<Rightarrow> pd2\<lparr>cfg := (cfg pd2)\<lparr>tls_list := Some l\<rparr>, tls_new_list := None\<rparr> | None \<Rightarrow> pd2)"
    by (simp add: stable_def split: option.split)
  ultimately show ?thesis using that 2(2-4) same(4) [OF 2(2)] by (cases "tls_new_list pd2") simp_all
qed

lemma load_files_ok:
  "st_cur_items arr \<le> st_size arr \<Longrightarrow> \<exists>st. load_files ops files [] (b, arr) = Some st"
proof (induction files arbitrary: b arr)
  case (Cons f files)
  obtain fname btype content where f: "f = (fname, btype, content)" by (cases f)
  obtain rv rules failed b1 where l: "blacklist_load_file ops btype content b = (rv, (rules, failed), b1)" by (metis prod.exhaust)
  show ?case using Cons l by (auto simp: f Let_def split: option.splits)
qed simp

lemma load_new_blacklists_ok:
  assumes i: "pd_inv X pd"
  obtains pd' where "load_new_blacklists env files pd = Some pd'" and "pd_inv X pd'"
    and "connections pd' = connections pd" and "now_ms pd' = now_ms pd"
proof -
  have al: "allocs pd = []" by (rule mem_okD(1) [OF pd_inv_mem [OF i]])
  have j: "pd_inv X (pd\<lparr>reload_done := True\<rparr>)" "pd_inv X (pd\<lparr>mw_new_bl := Some b, mw_status_arr := Some s, reload_done := True\<rparr>)"
    for b s using i by (simp_all add: pd_inv_def mem_ok_def queued_def table_def dump_ok_def)
  show ?thesis
  proof (cases "blacklist_init (nd_ops (env_ndpi env)) True")
    case None
    then show ?thesis using that j(1) by (simp add: load_new_blacklists_def take_alloc_ok al)
  next
    case (Some b0)
    obtain b s where l: "load_files (nd_ops (env_ndpi env)) files [] (b0, \<lparr>st_items = None, st_size = 0, st_cur_items = 0\<rparr>) = Some (b, s)"
      using load_files_ok [of "\<lparr>st_items = None, st_size = 0, st_cur_items = 0\<rparr>" "nd_ops (env_ndpi env)" files b0] by auto
    show ?thesis using that j(2) by (simp add: load_new_blacklists_def take_alloc_ok al Some l Let_def)
  qed
qed

lemma reload_malware_ok:
  assumes i: "pd_inv X pd"
  obtains pd' where "reload_malware pd = Some pd'" and "pd_inv X pd'" and "connections pd' = connections pd"
    and "now_ms pd' = now_ms pd" and "heap pd' = heap pd"
proof -
  have s: "mw_new_bl pd \<noteq> None \<longrightarrow> mw_status_arr pd \<noteq> None" by (rule mem_okD(8) [OF pd_inv_mem [OF i]])
  have "\<exists>pd'. reload_malware pd = Some pd' \<and> pd_inv X pd' \<and> connections pd' = connections pd \<and> now_ms pd' = now_ms pd \<and> heap pd' = heap pd"
    using i s by (cases "mw_new_bl pd")
      (auto simp: reload_malware_def use_new_blacklists_def pd_inv_def mem_ok_def queued_def table_def dump_ok_def)
  then show ?thesis using that by blast
qed

section \<open>Dump to the application\<close>

text \<open>Dumping resets the notification of exactly the connections dumped.\<close>

definition dumped_conn :: "pd_conn \<Rightarrow> pd_conn \<Rightarrow> bool" where
  "dumped_conn d d' \<longleftrightarrow> \<not> pending_notification d' \<and> to_purge d' = to_purge d \<and> conn_ok d' = conn_ok d"

definition conn_report :: "pd_env \<Rightarrow> pcapdroid \<Rightarrow> bool \<Rightarrow> zdtun_5tuple \<times> addr \<Rightarrow> conn_descriptor option \<times> conn_update" where
  "conn_report env pd is_new e =
     fst (dump_conn env (cfg pd) is_new (fst e) ((the (heap pd (snd e)))\<lparr>pending_notification := False\<rparr>))"

lemma dump_conn_dumped:
  "dump_conn env c is_new t (d\<lparr>pending_notification := False\<rparr>) = (r, d') \<Longrightarrow> dumped_conn d d'"
  by (auto simp: dump_conn_def dumpNewConnection_def getConnUpdate_def dumped_conn_def conn_ok_def Let_def split: if_splits)

lemma dump_conns_spec:
  "distinct (map snd l) \<Longrightarrow> set (map snd l) \<subseteq> dom (heap pd) \<Longrightarrow>
     \<exists>h. dump_conns env is_new None l pd = Some (Some (map (conn_report env pd is_new) l), None, pd\<lparr>heap := h\<rparr>) \<and>
       (\<forall>a. a \<notin> set (map snd l) \<longrightarrow> h a = heap pd a) \<and>
       (\<forall>a \<in> set (map snd l). \<exists>d d'. heap pd a = Some d \<and> h a = Some d' \<and> dumped_conn d d')"
proof (induction l arbitrary: pd)
  case Nil
  show ?case by (rule exI [of _ "heap pd"]) simp
next
  case (Cons e l)
  obtain t a where e: "e = (t, a)" by (cases e)
  obtain d0 where d0: "heap pd a = Some d0" using Cons.prems(2) by (auto simp: e)
  obtain r d1 where d1: "dump_conn env (cfg pd) is_new t (d0\<lparr>pending_notification := False\<rparr>) = (r, d1)"
    by (cases "dump_conn env (cfg pd) is_new t (d0\<lparr>pending_notification := False\<rparr>)")
  have r: "r = conn_report env pd is_new e" by (simp add: conn_report_def e d0 d1)
  let ?pd1 = "put_conn a d1 pd"
  have na: "a \<notin> set (map snd l)" using Cons.prems(1) by (simp add: e)
  have "set (map snd l) \<subseteq> dom (heap ?pd1)" using Cons.prems(2) by (auto simp: e)
  moreover have "distinct (map snd l)" using Cons.prems(1) by (simp add: e)
  ultimately obtain h where IH: "dump_conns env is_new None l ?pd1 = Some (Some (map (conn_report env ?pd1 is_new) l), None, ?pd1\<lparr>heap := h\<rparr>)"
    "\<forall>b. b \<notin> set (map snd l) \<longrightarrow> h b = heap ?pd1 b"
    "\<forall>b \<in> set (map snd l). \<exists>d d'. heap ?pd1 b = Some d \<and> h b = Some d' \<and> dumped_conn d d'"
    using Cons.IH [of ?pd1] by blast
  have rl: "map (conn_report env ?pd1 is_new) l = map (conn_report env pd is_new) l"
    using na by (intro map_cong refl) (auto simp: conn_report_def)
  have eq: "dump_conns env is_new None (e # l) pd = Some (Some (map (conn_report env pd is_new) (e # l)), None, pd\<lparr>heap := h\<rparr>)"
    unfolding e dump_conns.simps d0 bind.simps Let_def d1 prod.case using IH(1)
    by (simp add: put_conn_def rl [unfolded put_conn_def] r e)
  have dc: "dumped_conn d0 d1" by (rule dump_conn_dumped [OF d1])
  have "h a = Some d1" using IH(2) na by simp
  moreover have "heap ?pd1 b = heap pd b" if "b \<in> set (map snd l)" for b using na that by auto
  ultimately have mem: "\<forall>b \<in> set (map snd (e # l)). \<exists>d d'. heap pd b = Some d \<and> h b = Some d' \<and> dumped_conn d d'"
    using IH(3) d0 dc by (auto simp: e)
  have "\<forall>b. b \<notin> set (map snd (e # l)) \<longrightarrow> h b = heap pd b" using IH(2) by (simp add: e)
  with eq mem show ?case by blast
qed

text \<open>Clearing an array frees exactly the connections that are to be purged (or all).\<close>

definition freed_by :: "bool \<Rightarrow> addr list \<Rightarrow> (addr \<Rightarrow> pd_conn option) \<Rightarrow> addr \<Rightarrow> pd_conn option" where
  "freed_by free_all as h a = (if a \<in> set as \<and> (free_all \<or> to_purge (the (h a))) then None else h a)"

lemma clear_slots_spec:
  "distinct (map snd l) \<Longrightarrow> set (map snd l) \<subseteq> dom (heap pd) \<Longrightarrow>
     clear_slots free_all l pd = Some (pd\<lparr>heap := freed_by free_all (map snd l) (heap pd)\<rparr>)"
proof (induction l arbitrary: pd)
  case Nil
  have "freed_by free_all [] (heap pd) = heap pd" by (simp add: freed_by_def fun_eq_iff)
  then show ?case by simp
next
  case (Cons e l)
  obtain t a where e: "e = (t, a)" by (cases e)
  obtain d where d: "heap pd a = Some d" using Cons.prems(2) by (auto simp: e)
  define h1 where "h1 = (if to_purge d \<or> free_all then (heap pd)(a := None) else heap pd)"
  have na: "a \<notin> set (map snd l)" using Cons.prems(1) by (simp add: e)
  have s: "(if to_purge d \<or> free_all then pd_purge_connection a pd else Some pd) = Some (pd\<lparr>heap := h1\<rparr>)"
    by (simp add: h1_def pd_purge_connection_def d)
  have "set (map snd l) \<subseteq> dom h1" using Cons.prems(2) na by (auto simp: e h1_def)
  then have "clear_slots free_all l (pd\<lparr>heap := h1\<rparr>) = Some (pd\<lparr>heap := freed_by free_all (map snd l) h1\<rparr>)"
    using Cons.IH [of "pd\<lparr>heap := h1\<rparr>"] Cons.prems(1) by (simp add: e)
  moreover have "freed_by free_all (map snd l) h1 = freed_by free_all (map snd (e # l)) (heap pd)"
    using na d by (auto simp: freed_by_def h1_def e fun_eq_iff)
  ultimately show ?case unfolding e clear_slots.simps d bind.simps s by simp
qed

text \<open>What a dump reports: every connection of the two arrays, with its current fields.\<close>

definition dump_reports :: "pd_env \<Rightarrow> pcapdroid \<Rightarrow>
    (conn_descriptor option \<times> conn_update) list \<times> (conn_descriptor option \<times> conn_update) list" where
  "dump_reports env pd =
     (map (conn_report env pd True) (arr_list (new_conns pd)), map (conn_report env pd False) (arr_list (conns_updates pd)))"

lemma sendConnectionsDump_spec:
  assumes m: "mem_ok pd" and j: "jni_limit env = None"
  obtains h where "sendConnectionsDump env pd = Some (pd\<lparr>heap := h, sent := sent pd @ [dump_reports env pd]\<rparr>)"
    and "\<forall>a. a \<notin> set (queued pd) \<longrightarrow> h a = heap pd a"
    and "\<forall>a \<in> set (queued pd). \<exists>d d'. heap pd a = Some d \<and> h a = Some d' \<and> dumped_conn d d'"
proof -
  let ?l1 = "arr_list (new_conns pd)" and ?l2 = "arr_list (conns_updates pd)"
  have dq: "distinct (map snd ?l1)" "distinct (map snd ?l2)" "set (map snd ?l1) \<inter> set (map snd ?l2) = {}"
    using mem_okD(2) [OF m] by (auto simp: queued_def)
  have v: "set (queued pd) \<subseteq> dom (heap pd)" using m unfolding mem_ok_def by blast
  have v1: "set (map snd ?l1) \<subseteq> dom (heap pd)" and v2: "set (map snd ?l2) \<subseteq> dom (heap pd)"
    using v unfolding queued_def by simp_all
  obtain h1 where 1: "dump_conns env True None ?l1 pd = Some (Some (map (conn_report env pd True) ?l1), None, pd\<lparr>heap := h1\<rparr>)"
    "\<forall>a. a \<notin> set (map snd ?l1) \<longrightarrow> h1 a = heap pd a"
    "\<forall>a \<in> set (map snd ?l1). \<exists>d d'. heap pd a = Some d \<and> h1 a = Some d' \<and> dumped_conn d d'"
    using dump_conns_spec [OF dq(1) v1, of env True] by blast
  have e2: "h1 a = heap pd a" if "a \<in> set (map snd ?l2)" for a using 1(2) dq(3) that by blast
  have "set (map snd ?l2) \<subseteq> dom (heap (pd\<lparr>heap := h1\<rparr>))"
  proof
    fix a assume a: "a \<in> set (map snd ?l2)"
    from e2 [OF a] subsetD [OF v2 a] show "a \<in> dom (heap (pd\<lparr>heap := h1\<rparr>))" by (simp add: domIff)
  qed
  from dump_conns_spec [OF dq(2) this, of env False] obtain h where
    2: "dump_conns env False None ?l2 (pd\<lparr>heap := h1\<rparr>) =
      Some (Some (map (conn_report env (pd\<lparr>heap := h1\<rparr>) False) ?l2), None, pd\<lparr>heap := h\<rparr>)"
    "\<forall>a. a \<notin> set (map snd ?l2) \<longrightarrow> h a = h1 a"
    "\<forall>a \<in> set (map snd ?l2). \<exists>d d'. h1 a = Some d \<and> h a = Some d' \<and> dumped_conn d d'" by auto
  have r2: "map (conn_report env (pd\<lparr>heap := h1\<rparr>) False) ?l2 = map (conn_report env pd False) ?l2"
    using e2 by (intro map_cong refl) (simp add: conn_report_def)
  have eq: "sendConnectionsDump env pd = Some (pd\<lparr>heap := h, sent := sent pd @ [dump_reports env pd]\<rparr>)"
    unfolding sendConnectionsDump_def j using 1(1) 2(1) arr_slots_ok [OF mem_okD(5) [OF m]] arr_slots_ok [OF mem_okD(6) [OF m]]
    by (simp add: r2 dump_reports_def)
  have nq: "\<forall>a. a \<notin> set (queued pd) \<longrightarrow> h a = heap pd a" using 1(2) 2(2) by (auto simp: queued_def)
  have "\<exists>d d'. heap pd a = Some d \<and> h a = Some d' \<and> dumped_conn d d'" if "a \<in> set (queued pd)" for a
  proof (cases "a \<in> set (map snd ?l2)")
    case True
    with 2(3) e2 [OF True] show ?thesis by metis
  next
    case False
    with that have "a \<in> set (map snd ?l1)" by (auto simp: queued_def)
    with 1(3) 2(2) False show ?thesis by metis
  qed
  with eq nq show ?thesis by (intro that) blast+
qed

lemma conns_clear_spec:
  assumes "arr_ok (get_arr i pd)" "distinct (map snd (arr_list (get_arr i pd)))"
    "set (map snd (arr_list (get_arr i pd))) \<subseteq> dom (heap pd)"
  shows "conns_clear i fa pd =
    Some (set_arr i no_conns (pd\<lparr>heap := freed_by fa (map snd (arr_list (get_arr i pd))) (heap pd)\<rparr>))"
proof (cases "items (get_arr i pd)")
  case None
  have "freed_by fa [] (heap pd) = heap pd" by (simp add: freed_by_def fun_eq_iff)
  then show ?thesis using None by (simp add: conns_clear_def arr_list_def)
next
  case (Some l)
  then have "take (cur_items (get_arr i pd)) l = l" using assms(1) by (simp add: arr_ok_def arr_list_def)
  then show ?thesis using Some clear_slots_spec [of l pd fa] assms(2,3) by (simp add: conns_clear_def arr_list_def)
qed

text \<open>Both arrays are dumped and cleared.\<close>

definition dump_and_clear :: "bool \<Rightarrow> pd_env \<Rightarrow> pcapdroid \<Rightarrow> pcapdroid option" where
  "dump_and_clear fa env pd = do {
     p1 \<leftarrow> sendConnectionsDump env pd; p2 \<leftarrow> conns_clear New_Conns fa p1; conns_clear Conns_Updates fa p2 }"

lemma dump_and_clear_spec:
  assumes m: "mem_ok pd" and j: "jni_limit env = None"
  obtains h where "dump_and_clear fa env pd =
      Some (pd\<lparr>heap := h, new_conns := no_conns, conns_updates := no_conns, sent := sent pd @ [dump_reports env pd]\<rparr>)"
    and "\<forall>a. a \<notin> set (queued pd) \<longrightarrow> h a = heap pd a"
    and "\<forall>a \<in> set (queued pd). \<exists>d. heap pd a = Some d \<and>
      (if fa \<or> to_purge d then h a = None else \<exists>d'. h a = Some d' \<and> dumped_conn d d')"
proof -
  let ?l1 = "map snd (arr_list (new_conns pd))" and ?l2 = "map snd (arr_list (conns_updates pd))"
  obtain h1 where s: "sendConnectionsDump env pd = Some (pd\<lparr>heap := h1, sent := sent pd @ [dump_reports env pd]\<rparr>)"
    "\<forall>a. a \<notin> set (queued pd) \<longrightarrow> h1 a = heap pd a"
    "\<forall>a \<in> set (queued pd). \<exists>d d'. heap pd a = Some d \<and> h1 a = Some d' \<and> dumped_conn d d'"
    by (rule sendConnectionsDump_spec [OF m j])
  have dq: "distinct ?l1" "distinct ?l2" "set ?l1 \<inter> set ?l2 = {}" using mem_okD(2) [OF m] by (auto simp: queued_def)
  have v: "set ?l1 \<subseteq> dom h1" "set ?l2 \<subseteq> dom h1" using s(3) unfolding queued_def by (fastforce simp: dom_def)+
  let ?p1 = "pd\<lparr>heap := h1, sent := sent pd @ [dump_reports env pd]\<rparr>"
  let ?h2 = "freed_by fa ?l1 h1"
  have c1: "conns_clear New_Conns fa ?p1 = Some (set_arr New_Conns no_conns (?p1\<lparr>heap := ?h2\<rparr>))"
    using conns_clear_spec [of New_Conns ?p1 fa] mem_okD(5) [OF m] dq(1) v(1) by (simp add: get_arr_def)
  let ?p2 = "set_arr New_Conns no_conns (?p1\<lparr>heap := ?h2\<rparr>)"
  have v2: "set ?l2 \<subseteq> dom ?h2" using v(2) dq(3) by (auto simp: freed_by_def dom_def)
  have c2: "conns_clear Conns_Updates fa ?p2 = Some (set_arr Conns_Updates no_conns (?p2\<lparr>heap := freed_by fa ?l2 ?h2\<rparr>))"
    using conns_clear_spec [of Conns_Updates ?p2 fa] mem_okD(6) [OF m] dq(2) v2 by (simp add: get_arr_def set_arr_def)
  let ?h = "freed_by fa ?l2 ?h2"
  have eq: "dump_and_clear fa env pd =
      Some (pd\<lparr>heap := ?h, new_conns := no_conns, conns_updates := no_conns, sent := sent pd @ [dump_reports env pd]\<rparr>)"
    unfolding dump_and_clear_def s(1) bind.simps c1 c2 by (simp add: set_arr_def)
  have "?h a = heap pd a" if "a \<notin> set (queued pd)" for a using that s(2) by (auto simp: freed_by_def queued_def)
  moreover have "\<exists>d. heap pd a = Some d \<and> (if fa \<or> to_purge d then ?h a = None else \<exists>d'. ?h a = Some d' \<and> dumped_conn d d')"
    if a: "a \<in> set (queued pd)" for a
  proof -
    obtain d d' where d: "heap pd a = Some d" "h1 a = Some d'" "dumped_conn d d'" using s(3) a by blast
    have "?h a = (if fa \<or> to_purge d then None else Some d')"
      using a d by (auto simp: freed_by_def queued_def dumped_conn_def)
    with d show ?thesis by (cases "fa \<or> to_purge d") auto
  qed
  ultimately show ?thesis using eq by (intro that) blast+
qed

lemma dump_and_clear_ok:
  assumes i: "pd_inv X pd" and lv: "live pd" and j: "jni_limit env = None"
  obtains pd' where "dump_and_clear False env pd = Some pd'" and "pd_inv X pd'" and "connections pd' = connections pd"
    and "now_ms pd' = now_ms pd" and "live pd'"
proof -
  note m = pd_inv_mem [OF i]
  obtain h where s: "dump_and_clear False env pd =
      Some (pd\<lparr>heap := h, new_conns := no_conns, conns_updates := no_conns, sent := sent pd @ [dump_reports env pd]\<rparr>)"
    "\<forall>a. a \<notin> set (queued pd) \<longrightarrow> h a = heap pd a"
    "\<forall>a \<in> set (queued pd). \<exists>d. heap pd a = Some d \<and>
      (if False \<or> to_purge d then h a = None else \<exists>d'. h a = Some d' \<and> dumped_conn d d')"
    by (rule dump_and_clear_spec [OF m j])
  let ?pd = "pd\<lparr>heap := h, new_conns := no_conns, conns_updates := no_conns, sent := sent pd @ [dump_reports env pd]\<rparr>"
  have q: "queued ?pd = []" "table ?pd = table pd" by (simp_all add: queued_def table_def no_conns_def arr_list_def)
  have sub: "dom h \<subseteq> dom (heap pd)"
  proof
    fix a assume "a \<in> dom h"
    then show "a \<in> dom (heap pd)" using s(2,3) by (cases "a \<in> set (queued pd)") (auto simp: dom_def)
  qed
  have tab: "a \<in> dom h" if t: "a \<in> set (table pd)" for a
  proof (cases "a \<in> set (queued pd)")
    case True
    obtain d where d: "heap pd a = Some d" using mem_ok_valid(2) [OF m t] by blast
    have "\<not> to_purge d" using lv d t by (simp add: live_def)
    with bspec [OF s(3) True] d show ?thesis by (auto simp: dom_def)
  next
    case False
    then show ?thesis using s(2) mem_ok_valid(2) [OF m t] by (auto simp: dom_def)
  qed
  have "dom h \<subseteq> {..<next_addr pd}" using sub m unfolding mem_ok_def by blast
  then have mo: "mem_ok ?pd" using m tab unfolding mem_ok_def q
    by (simp add: arr_ok_def no_conns_def arr_list_def dump_ok_def subset_iff)
  have "conn_inv (queued ?pd) (table ?pd) X a d" if h: "heap ?pd a = Some d" for a d
  proof (cases "a \<in> set (queued pd)")
    case True
    then obtain d0 where d0: "heap pd a = Some d0" "\<not> to_purge d0" "dumped_conn d0 d"
      using s(3) h by (fastforce split: if_splits)
    then show ?thesis using pd_inv_conn [OF i d0(1)] unfolding q conn_inv_def dumped_conn_def by auto
  next
    case False
    then have "heap pd a = Some d" using s(2) h by simp
    from pd_inv_conn [OF i this] False show ?thesis unfolding q conn_inv_def by auto
  qed
  with mo have "pd_inv X ?pd" by (intro pd_invI)
  moreover have "live ?pd" unfolding live_def q
  proof (intro ballI allI impI)
    fix a d assume a: "a \<in> set (table pd)" and d: "heap ?pd a = Some d"
    obtain d0 where d0: "heap pd a = Some d0" using mem_ok_valid(2) [OF m a] by blast
    then have np: "\<not> to_purge d0" using lv a by (simp add: live_def)
    show "\<not> to_purge d"
    proof (cases "a \<in> set (queued pd)")
      case True
      from bspec [OF s(3) True] d0 np d show ?thesis by (auto simp: dumped_conn_def)
    qed (use s(2) d d0 np in simp)
  qed
  ultimately show ?thesis using s(1) by (intro that [of ?pd]) simp_all
qed

lemma dump_connections_ok:
  assumes i: "pd_inv X pd" and lv: "live pd" and j: "jni_limit env = None"
  obtains pd' where "dump_connections env pd = Some pd'" and "pd_inv X pd'" and "connections pd' = connections pd"
    and "now_ms pd' = now_ms pd" and "live pd'"
proof -
  obtain pd1 where 1: "dump_and_clear False env pd = Some pd1" "pd_inv X pd1" "connections pd1 = connections pd"
    "now_ms pd1 = now_ms pd" "live pd1" by (rule dump_and_clear_ok [OF i lv j])
  define p where "p = (if cur_items (new_conns pd) \<noteq> 0 \<or> cur_items (conns_updates pd) \<noteq> 0 then pd1 else pd)"
  have p: "pd_inv X p" "connections p = connections pd" "now_ms p = now_ms pd" "live p" using 1 i lv by (simp_all add: p_def)
  let ?pd' = "p\<lparr>last_connections_dump := now_ms p,
      next_connections_dump := now_ms p + CONNECTION_DUMP_UPDATE_FREQUENCY_MS, netd_resolve_waiting := 0\<rparr>"
  have "same_mem ?pd' p" by (simp add: same_mem_def)
  from pd_inv_same [OF this] p(1) have "pd_inv X ?pd'" by blast
  moreover have "dump_connections env pd = Some ?pd'"
    unfolding dump_connections_def dump_and_clear_def [symmetric] 1(1) p_def
    by (cases "cur_items (new_conns pd) \<noteq> 0 \<or> cur_items (conns_updates pd) \<noteq> 0") simp_all
  moreover have "live ?pd'" using p(4) by (simp add: live_def table_def)
  ultimately show ?thesis using p by (intro that [of ?pd']) simp_all
qed

lemma dumper_set_inv:
  "pd_inv X pd \<Longrightarrow> dumper_inv dm \<Longrightarrow> 0 < d_snaplen dm \<Longrightarrow> pd_inv X (pd\<lparr>dumper := Some dm\<rparr>)"
  by (simp add: pd_inv_def mem_ok_def queued_def table_def dump_ok_def)

lemma export_or_reload_ok:
  assumes i: "pd_inv X pd"
  shows "\<exists>pd'. (case dumper pd of
        Some dm \<Rightarrow> do {
          (exported, dm') \<leftarrow> pcap_check_export (unat (now_ms pd)) dm;
          let p = pd\<lparr>dumper := Some dm'\<rparr>;
          if exported then Some p else reload_malware p }
      | None \<Rightarrow> reload_malware pd) = Some pd' \<and> pd_inv X pd' \<and> connections pd' = connections pd \<and> now_ms pd' = now_ms pd \<and> heap pd' = heap pd"
proof (cases "dumper pd")
  case None
  obtain pd' where "reload_malware pd = Some pd'" "pd_inv X pd'" "connections pd' = connections pd" "now_ms pd' = now_ms pd" "heap pd' = heap pd"
    by (rule reload_malware_ok [OF i])
  with None show ?thesis by simp
next
  case (Some dm)
  have d: "dumper_inv dm" "0 < d_snaplen dm" using mem_okD(7) [OF pd_inv_mem [OF i]] Some by (simp_all add: dump_ok_def)
  obtain b dm' where c: "pcap_check_export (unat (now_ms pd)) dm = Some (b, dm')" "dumper_inv dm'" "dump_config dm' = dump_config dm"
    using d(1) by (rule check_export_inv)
  let ?p = "pd\<lparr>dumper := Some dm'\<rparr>"
  have "0 < d_snaplen dm'" using c(3) d(2) by (simp add: dump_config_def)
  with i c(2) have ip: "pd_inv X ?p" by (rule dumper_set_inv)
  obtain pd' where "reload_malware ?p = Some pd'" "pd_inv X pd'" "connections pd' = connections ?p" "now_ms pd' = now_ms ?p" "heap pd' = heap ?p"
    by (rule reload_malware_ok [OF ip])
  with ip c(1) Some show ?thesis by (cases b) simp_all
qed

lemma pd_housekeeping_ok:
  assumes i: "pd_inv X pd" and lv: "live pd" and j: "jni_limit env = None"
  obtains pd' where "pd_housekeeping env pd = Some pd'" and "pd_inv X pd'" and "connections pd' = connections pd"
    and "now_ms pd' = now_ms pd" and "live pd'"
proof -
  let ?stats = "dump_capture_stats_now pd \<or>
      (new_stats (cap_stats pd) \<and> CAPTURE_STATS_UPDATE_FREQUENCY_MS \<le> now_ms pd - cs_last_update_ms (cap_stats pd))"
  let ?ps = "pd\<lparr>dump_capture_stats_now := False, stats_sent := stats_sent pd + 1,
      cap_stats := (cap_stats pd)\<lparr>new_stats := False, cs_last_update_ms := now_ms pd\<rparr>\<rparr>"
  let ?task = "if ?stats then Some ?ps
        else if next_connections_dump pd \<le> now_ms pd then dump_connections env pd
        else (case dumper pd of
                Some dm \<Rightarrow> do {
                  (exported, dm') \<leftarrow> pcap_check_export (unat (now_ms pd)) dm;
                  let p = pd\<lparr>dumper := Some dm'\<rparr>;
                  if exported then Some p else reload_malware p }
              | None \<Rightarrow> reload_malware pd)"
  have ip: "pd_inv X ?ps" using i by (simp add: pd_inv_def mem_ok_def queued_def table_def dump_ok_def)
  obtain pd1 where 1: "?task = Some pd1" "pd_inv X pd1" "connections pd1 = connections pd" "now_ms pd1 = now_ms pd" "live pd1"
  proof (cases ?stats)
    case True
    have "?task = Some ?ps" by (rule if_P [OF True])
    then show ?thesis using ip by (rule that) (use lv in \<open>simp_all add: live_def table_def\<close>)
  next
    case False
    show ?thesis
    proof (cases "next_connections_dump pd \<le> now_ms pd")
      case True
      obtain p where "dump_connections env pd = Some p" "pd_inv X p" "connections p = connections pd" "now_ms p = now_ms pd" "live p"
        by (rule dump_connections_ok [OF i lv j])
      moreover have "?task = dump_connections env pd" by (rule trans [OF if_not_P [OF False] if_P [OF True]])
      ultimately show ?thesis using that [of p] by simp
    next
      case nd: False
      note task = trans [OF if_not_P [OF False] if_not_P [OF nd]]
      show ?thesis using export_or_reload_ok [OF i] that lv unfolding task live_def table_def by metis
    qed
  qed
  obtain pd2 where "reload_lists env pd1 = Some pd2" "pd_inv X pd2" "connections pd2 = connections pd1" "now_ms pd2 = now_ms pd1" "stable pd1 pd2"
    by (rule reload_lists_ok [OF 1(2)])
  moreover have "pd_housekeeping env pd = reload_lists env pd1" unfolding pd_housekeeping_def 1(1) bind.simps ..
  ultimately show ?thesis using that 1(3,4) live_stable [OF 1(5,2)] by simp
qed

text \<open>At the end of the run, with an empty table, everything is freed.\<close>

lemma pd_run_end_ok:
  assumes i: "pd_inv X pd" and j: "jni_limit env = None" and e: "connections pd = []"
  obtains pd' where "pd_run_end env pd = Some pd'" and "dom (heap pd') \<subseteq> X" and "dumper pd' = None"
proof -
  let ?pd0 = "pd\<lparr>stats_sent := stats_sent pd + 1\<rparr>"
  have "same_mem ?pd0 pd" by (simp add: same_mem_def)
  with i have i0: "pd_inv X ?pd0" using pd_inv_same by blast
  obtain h where s: "dump_and_clear True env ?pd0 =
      Some (?pd0\<lparr>heap := h, new_conns := no_conns, conns_updates := no_conns, sent := sent ?pd0 @ [dump_reports env ?pd0]\<rparr>)"
    "\<forall>a. a \<notin> set (queued ?pd0) \<longrightarrow> h a = heap ?pd0 a"
    "\<forall>a \<in> set (queued ?pd0). \<exists>d. heap ?pd0 a = Some d \<and>
      (if True \<or> to_purge d then h a = None else \<exists>d'. h a = Some d' \<and> dumped_conn d d')"
    by (rule dump_and_clear_spec [OF pd_inv_mem [OF i0] j])
  have "h a = None" if nX: "a \<notin> X" for a
  proof (cases "a \<in> set (queued ?pd0)")
    case True
    with s(3) show ?thesis by auto
  next
    case False
    have "heap pd a = None"
    proof (cases "heap pd a")
      case (Some d)
      with pd_inv_conn [OF i0, of a d] False e nX show ?thesis by (simp add: conn_inv_def table_def)
    qed
    with s(2) False show ?thesis by simp
  qed
  then have h: "dom h \<subseteq> X" using domIff by fastforce
  let ?p = "?pd0\<lparr>heap := h, new_conns := no_conns, conns_updates := no_conns, sent := sent ?pd0 @ [dump_reports env ?pd0]\<rparr>"
  have eq: "pd_run_end env pd = (if dumper ?p \<noteq> None then stop_pcap_dump ?p else Some ?p)"
  proof -
    obtain p1 p2 where "sendConnectionsDump env ?pd0 = Some p1" "conns_clear New_Conns True p1 = Some p2"
      "conns_clear Conns_Updates True p2 = Some ?p"
      using s(1) by (auto simp: dump_and_clear_def bind_eq_Some_conv)
    then show ?thesis unfolding pd_run_end_def by simp
  qed
  show ?thesis
  proof (cases "dumper pd")
    case None
    with eq h show ?thesis by (intro that [of ?p]) simp_all
  next
    case (Some dm)
    have "dumper_inv dm" using mem_okD(7) [OF pd_inv_mem [OF i]] Some by (simp add: dump_ok_def)
    then obtain d' where "export_buffer (unat (now_ms pd)) dm = Some d'" by (rule export_buffer_inv)
    with Some eq h show ?thesis
      by (intro that [of "?p\<lparr>dumper := None, dumped := d_out d'\<rparr>"]) (simp_all add: stop_pcap_dump_def pcap_destroy_dumper_def)
  qed
qed

end
