(* ===== verification/Capture_Libpcap.thy ===== *)
theory Capture_Libpcap
  imports Pcapdroid
begin

text \<open>
  The root capture (\<^verbatim>\<open>core/capture_libpcap.c\<close>): packets read from the \<open>pcapd\<close> daemon are assigned to
  connections, whose state machine decides when they end; expired connections are purged.
\<close>

section \<open>Frames\<close>

record pcapd_hdr =
  hdr_sec :: u64
  hdr_usec :: u64
  hdr_pkt_drops :: u32
  hdr_uid :: int
  hdr_len :: u16
  hdr_linktype :: u16
  hdr_flags :: u8
  hdr_ifid :: u8

abbreviation PCAPD_FLAG_TX :: u8 where "PCAPD_FLAG_TX \<equiv> 1"
abbreviation PCAPD_DLT_ETHERNET :: u16 where "PCAPD_DLT_ETHERNET \<equiv> 1"
abbreviation PCAPD_DLT_RAW :: u16 where "PCAPD_DLT_RAW \<equiv> 12"
abbreviation PCAPD_DLT_LINUX_SLL :: u16 where "PCAPD_DLT_LINUX_SLL \<equiv> 113"
abbreviation PCAPD_DLT_LINUX_SLL2 :: u16 where "PCAPD_DLT_LINUX_SLL2 \<equiv> 276"
abbreviation PCAPDROID_TRAILER_MAGIC :: u32 where "PCAPDROID_TRAILER_MAGIC \<equiv> 0x01072021"
abbreviation TH_FIN :: u8 where "TH_FIN \<equiv> 0x01"
abbreviation TH_SYN :: u8 where "TH_SYN \<equiv> 0x02"
abbreviation TH_RST :: u8 where "TH_RST \<equiv> 0x04"
abbreviation TH_ACK :: u8 where "TH_ACK \<equiv> 0x10"
abbreviation DNS_FLAGS_MASK :: u16 where "DNS_FLAGS_MASK \<equiv> 0x8000"
abbreviation DNS_TYPE_REQUEST :: u16 where "DNS_TYPE_REQUEST \<equiv> 0x0000"
abbreviation DNS_TYPE_RESPONSE :: u16 where "DNS_TYPE_RESPONSE \<equiv> 0x8000"
abbreviation PERIODIC_PURGE_TIMEOUT_MS :: u64 where "PERIODIC_PURGE_TIMEOUT_MS \<equiv> 5000"

definition get_ip_offset :: "u16 \<Rightarrow> int" where
  "get_ip_offset linktype =
     (if linktype = PCAPD_DLT_RAW then 0
      else if linktype = PCAPD_DLT_ETHERNET then 14
      else if linktype = PCAPD_DLT_LINUX_SLL then 16
      else if linktype = PCAPD_DLT_LINUX_SLL2 then 20
      else -1)"

section \<open>Connection table\<close>

definition count_closed :: "u8 \<Rightarrow> zdtun_statistics \<Rightarrow> zdtun_statistics" where
  "count_closed proto s =
     (if proto = IPPROTO_TCP then s\<lparr>num_tcp_conn := num_tcp_conn s - 1\<rparr>
      else if proto = IPPROTO_UDP then s\<lparr>num_udp_conn := num_udp_conn s - 1\<rparr>
      else if proto = IPPROTO_ICMP then s\<lparr>num_icmp_conn := num_icmp_conn s - 1\<rparr>
      else s)"

definition count_opened :: "u8 \<Rightarrow> zdtun_statistics \<Rightarrow> zdtun_statistics" where
  "count_opened proto s =
     (if proto = IPPROTO_TCP
      then s\<lparr>num_tcp_conn := num_tcp_conn s + 1, num_tcp_opened := num_tcp_opened s + 1\<rparr>
      else if proto = IPPROTO_UDP
      then s\<lparr>num_udp_conn := num_udp_conn s + 1, num_udp_opened := num_udp_opened s + 1\<rparr>
      else if proto = IPPROTO_ICMP
      then s\<lparr>num_icmp_conn := num_icmp_conn s + 1, num_icmp_opened := num_icmp_opened s + 1\<rparr>
      else s)"

definition remove_connection :: "zdtun_5tuple \<Rightarrow> pcapdroid \<Rightarrow> pcapdroid" where
  "remove_connection tuple pd =
     pd\<lparr>zstats := count_closed (ipproto tuple) (zstats pd), connections := ut_del tuple (connections pd)\<rparr>"

section \<open>Connection status\<close>

text \<open>The TCP state machine: \<open>th\<close> are the flags of the packet, \<open>dir\<close> its direction index is 1.\<close>

definition tcp_status :: "u8 \<Rightarrow> bool \<Rightarrow> nat \<Rightarrow> pd_conn \<Rightarrow> pd_conn" where
  "tcp_status th dir l7_len d0 =
     (let d = (if dir then d0\<lparr>tcp_flags1 := tcp_flags1 d0 OR th\<rparr> else d0\<lparr>tcp_flags0 := tcp_flags0 d0 OR th\<rparr>);
          seen_flags = tcp_flags0 d AND tcp_flags1 d
      in if th AND TH_RST \<noteq> 0 then d\<lparr>status := CONN_STATUS_RESET\<rparr>
         else if seen_flags AND TH_FIN \<noteq> 0
         then if last_ack d = 0 then d\<lparr>last_ack := 1\<rparr>
              else if th AND TH_ACK \<noteq> 0 then d\<lparr>status := CONN_STATUS_CLOSED\<rparr> else d
         else if status d < CONN_STATUS_CONNECTED
         then if 0 < l7_len \<or> seen_flags AND (TH_SYN OR TH_ACK) = TH_SYN OR TH_ACK
              then d\<lparr>status := CONN_STATUS_CONNECTED\<rparr> else d\<lparr>status := CONN_STATUS_CONNECTING\<rparr>
         else d)"

text \<open>
  A DNS packet: requests and responses are counted in \<open>pending_dns_queries\<close> (the byte \<open>last_ack\<close>);
  the flags are those of the packet, unconverted. Closing asks for the removal of the connection.
\<close>

definition dns_status :: "u16 \<Rightarrow> pd_conn \<Rightarrow> pd_conn" where
  "dns_status flags d =
     (if flags AND DNS_FLAGS_MASK = DNS_TYPE_REQUEST then d\<lparr>last_ack := last_ack d + 1\<rparr>
      else if flags AND DNS_FLAGS_MASK = DNS_TYPE_RESPONSE
      then if last_ack d - 1 = 0
           then d\<lparr>last_ack := 0, status := CONN_STATUS_CLOSED, to_purge := True\<rparr>
           else d\<lparr>last_ack := last_ack d - 1\<rparr>
      else d)"

definition is_dns_pkt :: "zdtun_5tuple \<Rightarrow> zdtun_pkt \<Rightarrow> bool" where
  "is_dns_pkt tuple pkt \<longleftrightarrow> ipproto tuple = IPPROTO_UDP \<and> 12 \<le> unat (p_l7_len pkt) \<and> dst_port tuple = ntohs 53"

definition update_connection_status ::
    "zdtun_5tuple \<Rightarrow> addr \<Rightarrow> zdtun_pkt \<Rightarrow> bool \<Rightarrow> pcapdroid \<Rightarrow> pcapdroid option" where
  "update_connection_status tuple a pkt dir pd = do {
     d \<leftarrow> heap pd a;
     if closed (status d) \<or> has_flag (p_flags pkt) ZDTUN_PKT_IS_FRAGMENT then Some pd
     else if ipproto tuple = IPPROTO_TCP
     then do {
       th \<leftarrow> rd8 (p_buf pkt) (unat (p_ip_hdr_len pkt) + 13);
       Some (put_conn a (tcp_status th dir (unat (p_l7_len pkt)) d) pd) }
     else do {
       let d1 = (if status d < CONN_STATUS_CONNECTED then d\<lparr>status := CONN_STATUS_CONNECTED\<rparr> else d);
       if is_dns_pkt tuple pkt
       then do {
         flags \<leftarrow> rd16 (pkt_l7 pkt) 2;
         let d2 = dns_status flags d1;
         Some (if closed (status d2) then remove_connection tuple (put_conn a d2 pd) else put_conn a d2 pd) }
       else Some (put_conn a d1 pd) } }"

section \<open>Packets\<close>

text \<open>The UID that the PCAPdroid trailer of a captured file carries.\<close>

definition trailer_uid :: "pcapd_hdr \<Rightarrow> byte list \<Rightarrow> zdtun_pkt \<Rightarrow> pcapdroid \<Rightarrow> (int \<times> pcapdroid) option" where
  "trailer_uid hdr buf pkt pd =
     (if pcap_file_capture pd \<and> hdr_uid hdr = UID_UNKNOWN \<and> 32 \<le> unat (hdr_len hdr) - unat (p_len pkt)
      then do {
        magic \<leftarrow> rd32 buf (unat (hdr_len hdr) - 32);
        if ntohl magic = PCAPDROID_TRAILER_MAGIC
        then do {
          u \<leftarrow> rd32 buf (unat (hdr_len hdr) - 32 + 4);
          Some (sint (ntohl u), pd\<lparr>has_seen_pcapdroid_trailer := True\<rparr>) }
        else Some (hdr_uid hdr, pd) }
      else Some (hdr_uid hdr, pd))"

text \<open>
  The connection of a packet: looked up in the direction of the flag and in the other one, and
  created when there is none. The result is the tuple of the connection, its data and the direction.
\<close>

datatype lookup_result = Discarded | Conn zdtun_5tuple addr bool

definition create_conn ::
    "pd_env \<Rightarrow> pcapd_hdr \<Rightarrow> byte list \<Rightarrow> int \<Rightarrow> zdtun_5tuple \<Rightarrow> bool \<Rightarrow> pcapdroid \<Rightarrow> (lookup_result \<times> pcapdroid) option" where
  "create_conn env hdr buf u tuple is_tx pd0 = do {
     let (ok, pd) = take_alloc pd0;
     if \<not> ok then Some (Discarded, pd)
     else do {
       (r, pd1) \<leftarrow> pd_new_connection env tuple u pd;
       case r of
         None \<Rightarrow> Some (Discarded, pd1)
       | Some a \<Rightarrow> do {
           ifidx \<leftarrow> (if hdr_linktype hdr = PCAPD_DLT_LINUX_SLL2 then rd32 buf 4 else Some 0);
           pd2 \<leftarrow> upd_conn a (\<lambda>d. d\<lparr>conn_ifidx := (if hdr_linktype hdr = PCAPD_DLT_LINUX_SLL2 then ntohl ifidx else conn_ifidx d),
                      proxied := (tls_enabled (cfg pd1) \<and> ipproto tuple = IPPROTO_TCP)\<rparr>) pd1;
           Some (Conn tuple a is_tx,
             pd2\<lparr>connections := ut_add tuple a (connections pd2),
                 zstats := count_opened (ipproto tuple) (zstats pd2)\<rparr>) } } }"

definition discard_fragment :: "pcapdroid \<Rightarrow> pcapdroid" where
  "discard_fragment pd = pd\<lparr>num_discarded_fragments := num_discarded_fragments pd + 1\<rparr>"

definition find_conn ::
    "pd_env \<Rightarrow> pcapd_hdr \<Rightarrow> byte list \<Rightarrow> int \<Rightarrow> zdtun_pkt \<Rightarrow> pcapdroid \<Rightarrow> (lookup_result \<times> pcapdroid) option" where
  "find_conn env hdr buf u pkt pd =
     (let is_tx = (hdr_flags hdr AND PCAPD_FLAG_TX \<noteq> 0);
          tuple = (if is_tx then p_tuple pkt else tupleSwapPeers (p_tuple pkt))
      in case ut_find tuple (connections pd) of
           Some a \<Rightarrow> Some (Conn tuple a is_tx, pd)
         | None \<Rightarrow>
             (case ut_find (tupleSwapPeers tuple) (connections pd) of
                Some a \<Rightarrow> Some (Conn (tupleSwapPeers tuple) a (\<not> is_tx), pd)
              | None \<Rightarrow>
                  if has_flag (p_flags pkt) ZDTUN_PKT_IS_FRAGMENT \<and> \<not> has_flag (p_flags pkt) ZDTUN_PKT_IS_FIRST_FRAGMENT
                  then Some (Discarded, discard_fragment pd)
                  else create_conn env hdr buf u tuple is_tx pd))"

text \<open>
  \<open>handle_packet\<close>: \<open>buf\<close> is the whole receive buffer. The result is whether the packet was handled and
  the UID, which the trailer may have set.
\<close>

definition handle_packet ::
    "pd_env \<Rightarrow> pcapd_hdr \<Rightarrow> byte list \<Rightarrow> nat \<Rightarrow> pcapdroid \<Rightarrow> (bool \<times> int \<times> pcapdroid) option" where
  "handle_packet env hdr buf ipoffset pd = do {
     r \<leftarrow> zdtun_parse_pkt (fragments pd) (drop ipoffset buf) (hdr_len hdr - of_nat ipoffset);
     case r of
       Inl rv \<Rightarrow> Some (False, hdr_uid hdr, pd)
     | Inr (pkt, ids) \<Rightarrow> do {
         (u, pd1) \<leftarrow> trailer_uid hdr buf pkt (pd\<lparr>fragments := ids\<rparr>);
         if has_flag (p_flags pkt) ZDTUN_PKT_IS_FRAGMENT \<and> src_port (p_tuple pkt) = 0 \<and> dst_port (p_tuple pkt) = 0
         then Some (False, u, discard_fragment pd1)
         else do {
           (f, pd2) \<leftarrow> find_conn env hdr buf u pkt pd1;
           case f of
             Discarded \<Rightarrow> Some (False, u, pd2)
           | Conn tuple a is_tx \<Rightarrow> do {
               pd3 \<leftarrow> upd_conn a (\<lambda>d. d\<lparr>last_update_ms := now_ms pd2\<rparr>) pd2;
               let x = \<lparr>c_pkt = pkt\<lparr>p_tuple := tuple\<rparr>, c_sec = hdr_sec hdr, c_usec = hdr_usec hdr, c_is_tx = is_tx,
                        c_tuple = tuple, c_data = a\<rparr>;
               pd4 \<leftarrow> pd_process_packet env x pd3;
               pd5 \<leftarrow> update_connection_status tuple a (c_pkt x) (\<not> is_tx) pd4;
               pd6 \<leftarrow> pd_account_stats env x pd5;
               Some (True, u, pd6) } } } }"

section \<open>Expiry\<close>

definition conn_timeout :: "u8 \<Rightarrow> pd_conn \<Rightarrow> u64" where
  "conn_timeout proto d =
     (if proto = IPPROTO_TCP then if closed (status d) then 60 * 1000 else 300 * 1000
      else if proto = IPPROTO_UDP then 30 * 1000
      else if proto = IPPROTO_ICMP then 5 + 1000
      else 0)"

text \<open>The body of the loop for a connection that is dropped.\<close>

definition purge_one :: "pd_env \<Rightarrow> zdtun_5tuple \<Rightarrow> addr \<Rightarrow> pcapdroid \<Rightarrow> pcapdroid option" where
  "purge_one env tuple a pd = do {
     d \<leftarrow> heap pd a;
     let d1 = (if closed (status d) then d\<lparr>to_purge := True\<rparr>
               else touch_update CONN_UPDATE_STATS (d\<lparr>to_purge := True, status := CONN_STATUS_CLOSED\<rparr>));
     let pd1 = put_conn a d1 pd;
     (sent_ok, pd2) \<leftarrow> (if update_type d1 = 0 then Some (False, pd1)
                         else pd_notify_connection_update env tuple a pd1);
     pd3 \<leftarrow> (if sent_ok then Some pd2 else pd_purge_connection a pd2);
     Some (remove_connection tuple pd3) }"

fun purge_conns :: "pd_env \<Rightarrow> bool \<Rightarrow> (zdtun_5tuple \<times> addr) list \<Rightarrow> pcapdroid \<Rightarrow> pcapdroid option" where
  "purge_conns env purge_all [] pd = Some pd"
| "purge_conns env purge_all ((tuple, a) # conns) pd = do {
     d \<leftarrow> heap pd a;
     if purge_all \<or> last_update_ms d + conn_timeout (ipproto tuple) d \<le> now_ms pd
     then do { pd1 \<leftarrow> purge_one env tuple a pd; purge_conns env purge_all conns pd1 }
     else purge_conns env purge_all conns pd }"

definition purge_expired_connections :: "pd_env \<Rightarrow> bool \<Rightarrow> pcapdroid \<Rightarrow> pcapdroid option" where
  "purge_expired_connections env purge_all pd = purge_conns env purge_all (connections pd) pd"

section \<open>The capture loop\<close>

text \<open>
  What the loop sees: the time of each iteration and the frame read in it, if any. The other threads
  ask for a reload of lists, or are the reload worker itself.
\<close>

datatype capture_event =
    Idle u64
  | Frame u64 pcapd_hdr "byte list"
  | New_Malware_Whitelist bl
  | New_Blocklist bl
  | New_Fw_Whitelist bl
  | New_Decryption_List bl
  | Reload_Request
  | Reload_Worker "(string \<times> blacklist_type \<times> string option) list"

definition loop_tail :: "pd_env \<Rightarrow> u64 \<times> pcapdroid \<Rightarrow> (u64 \<times> pcapdroid) option" where
  "loop_tail env st = (case st of (next_purge_ms, pd) \<Rightarrow> do {
     pd1 \<leftarrow> pd_housekeeping env pd;
     if next_purge_ms \<le> now_ms pd1
     then do { pd2 \<leftarrow> purge_expired_connections env False pd1; Some (now_ms pd2 + PERIODIC_PURGE_TIMEOUT_MS, pd2) }
     else Some (next_purge_ms, pd1) })"

definition loop_frame :: "pd_env \<Rightarrow> pcapd_hdr \<Rightarrow> byte list \<Rightarrow> u64 \<times> pcapdroid \<Rightarrow> (u64 \<times> pcapdroid) option" where
  "loop_frame env hdr buf st = (case st of (next_purge_ms, pd0) \<Rightarrow>
     let pd = pd0\<lparr>num_dropped_pkts := hdr_pkt_drops hdr\<rparr>;
         ipoffset = get_ip_offset (hdr_linktype hdr)
     in if ipoffset < 0 \<or> int (unat (hdr_len hdr)) < ipoffset then Some (next_purge_ms, pd)
        else do {
          (ok, u, pd1) \<leftarrow> handle_packet env hdr buf (nat ipoffset) pd;
          pd2 \<leftarrow> (if ok then Some pd1
                  else pd_dump_packet env (take (unat (hdr_len hdr) - nat ipoffset) (drop (nat ipoffset) buf))
                         (hdr_sec hdr) (hdr_usec hdr) u pd1);
          loop_tail env (next_purge_ms, pd2) })"

fun capture_step :: "pd_env \<Rightarrow> capture_event \<Rightarrow> u64 \<times> pcapdroid \<Rightarrow> (u64 \<times> pcapdroid) option" where
  "capture_step env (Idle now) (np, pd) = loop_tail env (np, pd\<lparr>now_ms := now\<rparr>)"
| "capture_step env (Frame now hdr buf) (np, pd) = loop_frame env hdr buf (np, pd\<lparr>now_ms := now\<rparr>)"
| "capture_step env (New_Malware_Whitelist l) (np, pd) = Some (np, pd\<lparr>mw_new_wl := Some l\<rparr>)"
| "capture_step env (New_Blocklist l) (np, pd) = Some (np, pd\<lparr>fw_new_bl := Some l\<rparr>)"
| "capture_step env (New_Fw_Whitelist l) (np, pd) = Some (np, pd\<lparr>fw_new_wl := Some l\<rparr>)"
| "capture_step env (New_Decryption_List l) (np, pd) = Some (np, pd\<lparr>tls_new_list := Some l\<rparr>)"
| "capture_step env Reload_Request (np, pd) = Some (np, pd\<lparr>reload_blacklists_now := True\<rparr>)"
| "capture_step env (Reload_Worker files) (np, pd) =
     (if reload_in_progress pd \<and> \<not> reload_done pd then map_option (Pair np) (load_new_blacklists env files pd)
      else Some (np, pd))"

text \<open>\<open>run_libpcap\<close> after the loop, and the end of \<open>pd_run\<close>.\<close>

definition capture_end :: "pd_env \<Rightarrow> pcapdroid \<Rightarrow> pcapdroid option" where
  "capture_end env pd = do { pd1 \<leftarrow> purge_expired_connections env True pd; pd_run_end env pd1 }"

fun run_libpcap :: "pd_env \<Rightarrow> capture_event list \<Rightarrow> u64 \<times> pcapdroid \<Rightarrow> pcapdroid option" where
  "run_libpcap env [] st = capture_end env (snd st)"
| "run_libpcap env (ev # evs) st = do { st1 \<leftarrow> capture_step env ev st; run_libpcap env evs st1 }"

end
