(* ===== verification/Conn_Lifecycle.thy ===== *)
theory Conn_Lifecycle
  imports Conn_Housekeeping Capture_Libpcap
begin

text \<open>
  Memory safety of the root capture: whatever the sequence of frames, time outs and list reloads, the
  connection data shared by the table and the notification arrays is used only while allocated, freed
  once, and all of it is freed when the capture ends.
\<close>

section \<open>The connection table\<close>

lemma table_add:
  assumes i: "pd_inv X pd" and h: "heap pd a = Some d" and t: "a \<notin> set (table pd)" and k: "ut_find tuple (connections pd) = None"
    and x: "a \<in> X"
  shows "pd_inv X (pd\<lparr>connections := ut_add tuple a (connections pd), zstats := z\<rparr>)" (is "pd_inv X ?pd'")
proof (rule pd_invI)
  note m = pd_inv_mem [OF i]
  have q: "queued ?pd' = queued pd" "table ?pd' = table pd @ [a]" by (simp_all add: queued_def table_def ut_add_def)
  have "distinct (ut_keys (connections ?pd'))" using ut.add_distinct [OF mem_okD(4) [OF m] k] by simp
  then show "mem_ok ?pd'" using m t h unfolding mem_ok_def q by (auto simp: dump_ok_def)
  fix b e assume hb: "heap ?pd' b = Some e"
  then have "conn_inv (queued pd) (table pd) X b e" using pd_inv_conn [OF i, of b e] by simp
  then show "conn_inv (queued ?pd') (table ?pd') X b e" using x unfolding q conn_inv_def by auto
qed

lemma table_del:
  fixes c :: "('k, 'v) ut_hash"
  assumes "distinct (map snd c)" "distinct (ut_keys c)" "(tuple, a) \<in> set c"
  shows "set (map snd (ut_del tuple c)) = set (map snd c) - {a}" "distinct (map snd (ut_del tuple c))"
    "set (ut_del tuple c) = set c - {(tuple, a)}" "distinct (ut_keys (ut_del tuple c))"
proof -
  have f: "ut_del tuple c = filter (\<lambda>e. fst e \<noteq> tuple) c" by (rule ut_del_filter [OF assms(2)])
  have u: "b = a" if "(tuple, b) \<in> set c" for b
    using eq_key_imp_eq_value [of c tuple b a] assms(2,3) that by (simp add: ut_keys_def)
  have v: "t = tuple" if "(t, a) \<in> set c" for t
  proof -
    have "inj_on snd (set c)" using assms(1) by (simp add: distinct_map)
    from inj_onD [OF this _ that assms(3)] show ?thesis by simp
  qed
  show "set (map snd (ut_del tuple c)) = set (map snd c) - {a}" 
  proof (intro set_eqI iffI)
    fix b assume "b \<in> set (map snd (ut_del tuple c))"
    then obtain k where k: "(k, b) \<in> set c" "k \<noteq> tuple" unfolding f by auto
    moreover have "b \<noteq> a" using v k by blast
    ultimately show "b \<in> set (map snd c) - {a}" by force
  next
    fix b assume "b \<in> set (map snd c) - {a}"
    then obtain k where k: "(k, b) \<in> set c" "b \<noteq> a" by auto
    moreover have "k \<noteq> tuple" using u k by blast
    ultimately show "b \<in> set (map snd (ut_del tuple c))" unfolding f by force
  qed
  show "set (ut_del tuple c) = set c - {(tuple, a)}" unfolding f by (auto dest: u)
  show "distinct (map snd (ut_del tuple c))" unfolding f using assms(1) by (simp add: distinct_map_filter)
  show "distinct (ut_keys (ut_del tuple c))" unfolding f using assms(2) by (simp add: ut_keys_def distinct_map_filter)
qed

lemma remove_inv:
  assumes i: "pd_inv X pd" and m: "(tuple, a) \<in> set (connections pd)" and x: "a \<in> X"
  shows "pd_inv X (remove_connection tuple pd)" "set (table (remove_connection tuple pd)) = set (table pd) - {a}"
    "set (connections (remove_connection tuple pd)) = set (connections pd) - {(tuple, a)}"
proof -
  let ?pd' = "remove_connection tuple pd"
  note mo = pd_inv_mem [OF i]
  note d = table_del [OF mem_okD(3) [OF mo, unfolded table_def] mem_okD(4) [OF mo] m]
  show t: "set (table ?pd') = set (table pd) - {a}" and "set (connections ?pd') = set (connections pd) - {(tuple, a)}"
    using d(1,3) by (simp_all add: remove_connection_def table_def)
  have q: "queued ?pd' = queued pd" by (simp add: queued_def remove_connection_def)
  show "pd_inv X ?pd'"
  proof (rule pd_invI)
    have "distinct (table ?pd')" "distinct (ut_keys (connections ?pd'))" using d(2,4) by (simp_all add: remove_connection_def table_def)
    moreover have "set (table ?pd') \<subseteq> dom (heap pd)" using mo unfolding t mem_ok_def by blast
    ultimately show "mem_ok ?pd'" using mo unfolding mem_ok_def q by (simp add: remove_connection_def dump_ok_def)
    fix b e assume "heap ?pd' b = Some e"
    then have "conn_inv (queued pd) (table pd) X b e" using pd_inv_conn [OF i, of b e] by (simp add: remove_connection_def)
    then show "conn_inv (queued ?pd') (table ?pd') X b e" using x unfolding q t conn_inv_def by auto
  qed
qed

text \<open>A connection in progress may be marked for purging.\<close>

lemma put_conn_X:
  assumes i: "pd_inv X pd" and h: "heap pd a = Some d" and x: "a \<in> X"
    and p: "pending_notification d' = pending_notification d" and c: "conn_ok d \<longrightarrow> conn_ok d'"
  shows "pd_inv X (put_conn a d' pd)"
proof (rule pd_invI)
  show "mem_ok (put_conn a d' pd)" using put_conn_mem [OF pd_inv_mem [OF i] h] .
  fix b e assume hb: "heap (put_conn a d' pd) b = Some e"
  show "conn_inv (queued (put_conn a d' pd)) (table (put_conn a d' pd)) X b e"
  proof (cases "b = a")
    case True
    with hb have "e = d'" by simp
    with True pd_inv_conn [OF i h] x p c show ?thesis by (simp add: conn_inv_def)
  next
    case False
    with hb pd_inv_conn [OF i, of b e] show ?thesis by simp
  qed
qed

text \<open>Freeing a connection that is in no array, and dropping it from the table.\<close>

lemma purge_inv:
  assumes i: "pd_inv {a} pd" and h: "heap pd a = Some d" and q: "a \<notin> set (queued pd)" and m: "(tuple, a) \<in> set (connections pd)"
  obtains pd' where "pd_purge_connection a pd = Some pd'" and "pd_inv {} (remove_connection tuple pd')"
    and "set (connections (remove_connection tuple pd')) = set (connections pd) - {(tuple, a)}"
    and "now_ms pd' = now_ms pd" and "cfg pd' = cfg pd"
proof -
  let ?pd' = "pd\<lparr>heap := (heap pd)(a := None)\<rparr>"
  note r = remove_inv [OF i m]
  have eq: "remove_connection tuple ?pd' = (remove_connection tuple pd)\<lparr>heap := (heap pd)(a := None)\<rparr>"
    by (simp add: remove_connection_def)
  let ?r = "remove_connection tuple pd"
  have same: "heap ?r = heap pd" "next_addr ?r = next_addr pd" by (simp_all add: remove_connection_def)
  have qt: "queued (?r\<lparr>heap := k\<rparr>) = queued ?r" "table (?r\<lparr>heap := k\<rparr>) = table ?r" for k by (simp_all add: queued_def table_def)
  have nq: "a \<notin> set (queued ?r)" "a \<notin> set (table ?r)" using q r(2) by (simp_all add: queued_def remove_connection_def)
  have "pd_inv {} (?r\<lparr>heap := (heap pd)(a := None)\<rparr>)"
  proof (rule pd_invI)
    show "mem_ok (?r\<lparr>heap := (heap pd)(a := None)\<rparr>)"
      using pd_inv_mem [OF r(1)] nq unfolding mem_ok_def qt by (auto simp: dump_ok_def same)
    fix b e assume "heap (?r\<lparr>heap := (heap pd)(a := None)\<rparr>) b = Some e"
    then have "b \<noteq> a" "heap ?r b = Some e" by (auto simp: same split: if_splits)
    with pd_inv_conn [OF r(1), of b e] show "conn_inv (queued (?r\<lparr>heap := (heap pd)(a := None)\<rparr>)) (table (?r\<lparr>heap := (heap pd)(a := None)\<rparr>)) {} b e"
      unfolding qt by (simp add: conn_inv_def)
  qed
  with r(3) show ?thesis by (intro that [of ?pd']) (simp_all add: eq pd_purge_connection_def h)
qed

section \<open>Expiry\<close>

lemma pd_inv_singleton: "pd_inv {} pd \<Longrightarrow> pd_inv {a} pd"
  by (erule pd_inv_mono) simp

lemma purge_one_ok:
  assumes i: "pd_inv {} pd" and m: "(tuple, a) \<in> set (connections pd)" and h: "heap pd a = Some d"
  obtains pd' where "purge_one env tuple a pd = Some pd'" and "pd_inv {} pd'" and "now_ms pd' = now_ms pd"
    and "set (connections pd') = set (connections pd) - {(tuple, a)}"
proof -
  note ci = pd_inv_conn [OF i h]
  define d1 where "d1 = (if closed (status d) then d\<lparr>to_purge := True\<rparr>
      else touch_update CONN_UPDATE_STATS (d\<lparr>to_purge := True, status := CONN_STATUS_CLOSED\<rparr>))"
  have d1: "pending_notification d1 = pending_notification d" "conn_ok d1 = conn_ok d" "to_purge d1"
    "update_type d1 = 0 \<longrightarrow> update_type d = 0"
    by (simp_all add: d1_def conn_ok_def touch_update_def or_eq_0_iff)
  let ?pd1 = "put_conn a d1 pd"
  have i1: "pd_inv {a} ?pd1" by (rule put_conn_X [OF pd_inv_singleton [OF i] h]) (simp_all add: d1)
  have h1: "heap ?pd1 a = Some d1" by simp
  have m1: "(tuple, a) \<in> set (connections ?pd1)" using m by simp
  have eq: "purge_one env tuple a pd =
    do { (sent_ok, pd2) \<leftarrow> (if update_type d1 = 0 then Some (False, ?pd1) else pd_notify_connection_update env tuple a ?pd1);
         pd3 \<leftarrow> (if sent_ok then Some pd2 else pd_purge_connection a pd2);
         Some (remove_connection tuple pd3) }"
    unfolding purge_one_def h bind.simps Let_def d1_def [symmetric] ..
  show ?thesis
  proof (cases "update_type d1 = 0")
    case True
    then have "a \<notin> set (queued ?pd1)" using d1(4) ci by (simp add: conn_inv_def)
    from purge_inv [OF i1 h1 this m1] obtain pd' where "pd_purge_connection a ?pd1 = Some pd'"
      "pd_inv {} (remove_connection tuple pd')" "now_ms pd' = now_ms ?pd1"
      "set (connections (remove_connection tuple pd')) = set (connections ?pd1) - {(tuple, a)}" by blast
    with True eq show ?thesis by (intro that [of "remove_connection tuple pd'"]) (simp_all add: remove_connection_def)
  next
    case False
    obtain pd2 where n: "notif_connection env Conns_Updates tuple a ?pd1 = Some (True, pd2)" "pd_inv {a} pd2"
      "keeps a ?pd1 pd2" "a \<in> set (queued pd2)"
      by (rule notif_connection_ok [OF i1 h1, of env Conns_Updates tuple]) simp_all
    have m2: "(tuple, a) \<in> set (connections pd2)" and nw: "now_ms pd2 = now_ms pd" "connections pd2 = connections pd"
      using n(3) m by (simp_all add: keeps_def)
    let ?p = "remove_connection tuple pd2"
    note r = remove_inv [OF n(2) m2]
    have q: "queued ?p = queued pd2" "heap ?p = heap pd2" by (simp_all add: queued_def remove_connection_def)
    have "pd_inv {} ?p"
    proof (rule pd_inv_exit [OF r(1)])
      fix e assume "heap ?p a = Some e"
      with n(3) d1(3) False h1 q(2) have "to_purge e" "update_type e \<noteq> 0" by (auto simp: keeps_def)
      then show "(a \<in> set (table ?p) \<longrightarrow> \<not> to_purge e) \<and> (a \<notin> set (table ?p) \<longrightarrow> to_purge e \<and> a \<in> set (queued ?p)) \<and>
          (a \<in> set (queued ?p) \<longrightarrow> update_type e \<noteq> 0)"
        unfolding q(1) using r(2) n(4) by simp
    qed simp
    moreover have "purge_one env tuple a pd = Some ?p"
      unfolding eq using False n(1) by (simp add: pd_notify_connection_update_def)
    ultimately show ?thesis using r(3) nw by (intro that [of ?p]) (simp_all add: remove_connection_def)
  qed
qed

text \<open>Purging a connection leaves the others alone.\<close>

lemma notif_connection_other:
  assumes "notif_connection env i tuple a pd = Some (ok, pd')" "b \<noteq> a"
  shows "heap pd' b = heap pd b"
proof -
  have s: "heap (set_arr i arr p) = heap p" for arr p by (simp add: set_arr_def split: arr_id.splits)
  obtain d0 where d0: "heap pd a = Some d0" using assms(1) by (auto simp: notif_connection_def bind_eq_Some_conv)
  obtain d where d: "(if closed (status d0) then pd_giveup_dpi (env_ndpi env) (cfg pd) tuple d0 else Some d0) = Some d"
    using assms(1) unfolding notif_connection_def d0 bind.simps bind_eq_Some_conv by blast
  define pd1 where "pd1 = put_conn a d pd"
  define full where "full = (arr_size (get_arr i pd1) \<le> cur_items (get_arr i pd1))"
  obtain ok2 pd2 where 2: "(if full then take_alloc pd1 else (True, pd1)) = (ok2, pd2)" by (cases "if full then take_alloc pd1 else (True, pd1)")
  define arr where "arr = (if full then extend_array (get_arr i pd2) ok2 else get_arr i pd2)"
  have h: "heap pd1 b = heap pd b" "heap pd2 = heap pd1"
    using 2 assms(2) by (auto simp: pd1_def put_conn_def take_alloc_def split: if_splits list.splits)
  have eq: "(if pending_notification d then Some (True, pd1)
     else if \<not> ok2 then Some (False, set_arr i arr pd2)
     else do { l \<leftarrow> items arr;
       Some (True, put_conn a (d\<lparr>pending_notification := True\<rparr>)
         (set_arr i (arr\<lparr>items := Some (l @ [(tuple, a)]), cur_items := cur_items arr + 1\<rparr>) pd2)) }) = Some (ok, pd')"
    using assms(1) unfolding notif_connection_def d0 bind.simps d Let_def pd1_def [symmetric] full_def [symmetric] 2 prod.case arr_def [symmetric] .
  show ?thesis using eq h s assms(2) by (auto simp: bind_eq_Some_conv put_conn_def split: if_splits)
qed

lemma purge_one_other:
  assumes "purge_one env tuple a pd = Some pd'" "b \<noteq> a"
  shows "heap pd' b = heap pd b"
proof -
  obtain d where d: "heap pd a = Some d" using assms(1) by (auto simp: purge_one_def bind_eq_Some_conv)
  define d1 where "d1 = (if closed (status d) then d\<lparr>to_purge := True\<rparr>
      else touch_update CONN_UPDATE_STATS (d\<lparr>to_purge := True, status := CONN_STATUS_CLOSED\<rparr>))"
  from assms(1) obtain ok pd2 pd3 where
    s: "(if update_type d1 = 0 then Some (False, put_conn a d1 pd) else pd_notify_connection_update env tuple a (put_conn a d1 pd)) = Some (ok, pd2)"
    "(if ok then Some pd2 else pd_purge_connection a pd2) = Some pd3" "pd' = remove_connection tuple pd3"
    unfolding purge_one_def d bind.simps Let_def d1_def [symmetric] bind_eq_Some_conv by (auto simp: bind_eq_Some_conv)
  have "heap pd2 b = heap pd b"
    using s(1) notif_connection_other [of env Conns_Updates tuple a "put_conn a d1 pd" ok pd2 b] assms(2)
    by (auto simp: pd_notify_connection_update_def split: if_splits)
  moreover have "heap pd3 b = heap pd2 b" using s(2) assms(2) by (auto simp: pd_purge_connection_def bind_eq_Some_conv split: if_splits)
  ultimately show ?thesis by (simp add: s(3) remove_connection_def)
qed

definition expired :: "pcapdroid \<Rightarrow> zdtun_5tuple \<times> addr \<Rightarrow> bool" where
  "expired pd e = (case heap pd (snd e) of
     Some d \<Rightarrow> last_update_ms d + conn_timeout (ipproto (fst e)) d \<le> now_ms pd
   | None \<Rightarrow> False)"

lemma table_inj: "pd_inv X pd \<Longrightarrow> (t, a) \<in> set (connections pd) \<Longrightarrow> (t', a) \<in> set (connections pd) \<Longrightarrow> t' = t"
  using mem_okD(3) [OF pd_inv_mem, of X pd] inj_onD [of snd "set (connections pd)" "(t, a)" "(t', a)"]
  by (simp add: table_def distinct_map)

lemma purge_conns_ok:
  "pd_inv {} pd \<Longrightarrow> set l \<subseteq> set (connections pd) \<Longrightarrow> distinct l \<Longrightarrow>
     \<exists>pd'. purge_conns env purge_all l pd = Some pd' \<and> pd_inv {} pd' \<and> now_ms pd' = now_ms pd \<and>
       set (connections pd') = set (connections pd) - {e \<in> set l. purge_all \<or> expired pd e} \<and>
       (\<forall>e \<in> set (connections pd'). heap pd' (snd e) = heap pd (snd e))"
proof (induction l arbitrary: pd)
  case (Cons e l)
  obtain tuple a where e: "e = (tuple, a)" by (cases e)
  have m: "(tuple, a) \<in> set (connections pd)" using Cons.prems(2) by (simp add: e)
  then have "a \<in> set (table pd)" by (force simp: table_def)
  then obtain d where h: "heap pd a = Some d" using mem_ok_valid(2) [OF pd_inv_mem [OF Cons.prems(1)]] by blast
  have x: "expired pd e \<longleftrightarrow> last_update_ms d + conn_timeout (ipproto tuple) d \<le> now_ms pd" by (simp add: expired_def e h)
  show ?case
  proof (cases "purge_all \<or> last_update_ms d + conn_timeout (ipproto tuple) d \<le> now_ms pd")
    case False
    then have ne: "\<not> (purge_all \<or> expired pd e)" by (simp add: x)
    have "{f \<in> set (e # l). purge_all \<or> expired pd f} = {f \<in> set l. purge_all \<or> expired pd f}" using ne by auto
    moreover have "purge_conns env purge_all (e # l) pd = purge_conns env purge_all l pd"
      unfolding e purge_conns.simps h bind.simps if_not_P [OF False] ..
    moreover have "set l \<subseteq> set (connections pd)" "distinct l" using Cons.prems(2,3) by simp_all
    ultimately show ?thesis using Cons.IH [OF Cons.prems(1)] by metis
  next
    case True
    then have ex: "purge_all \<or> expired pd e" by (simp add: x)
    obtain p where p: "purge_one env tuple a pd = Some p" "pd_inv {} p" "now_ms p = now_ms pd"
      "set (connections p) = set (connections pd) - {(tuple, a)}" by (rule purge_one_ok [OF Cons.prems(1) m h])
    have step: "purge_conns env purge_all (e # l) pd = purge_conns env purge_all l p"
      unfolding e purge_conns.simps h bind.simps if_P [OF True] p(1) ..
    have l: "set l \<subseteq> set (connections p)" "distinct l" using Cons.prems(2,3) p(4) by (auto simp: e)
    have same: "heap p (snd f) = heap pd (snd f)" if "f \<in> set (connections p)" for f
    proof (rule purge_one_other [OF p(1)])
      show "snd f \<noteq> a"
      proof
        assume s: "snd f = a"
        have "(fst f, a) \<in> set (connections pd)" using that unfolding p(4) s [symmetric] by simp
        from table_inj [OF Cons.prems(1) m this] s have "f = (tuple, a)" by (simp add: prod_eq_iff)
        with that p(4) show False by simp
      qed
    qed
    then have xs: "{f \<in> set l. purge_all \<or> expired p f} = {f \<in> set l. purge_all \<or> expired pd f}"
      using l(1) by (intro Collect_cong conj_cong refl) (simp add: expired_def p(3) subsetD split: option.split)
    from Cons.IH [OF p(2) l, unfolded xs] obtain pd' where q: "purge_conns env purge_all l p = Some pd'" "pd_inv {} pd'" "now_ms pd' = now_ms p"
      "set (connections pd') = set (connections p) - {f \<in> set l. purge_all \<or> expired pd f}"
      "\<forall>f \<in> set (connections pd'). heap pd' (snd f) = heap p (snd f)" by blast
    have "set (connections pd') = set (connections pd) - {f \<in> set (e # l). purge_all \<or> expired pd f}"
      using q(4) p(4) ex by (auto simp: e)
    moreover have "\<forall>f \<in> set (connections pd'). heap pd' (snd f) = heap pd (snd f)" using q(4,5) same by simp
    ultimately show ?thesis unfolding step using q(1,2) q(3) [unfolded p(3)] by blast
  qed
qed simp

lemma purge_expired_spec:
  assumes i: "pd_inv {} pd"
  obtains pd' where "purge_expired_connections env purge_all pd = Some pd'" and "pd_inv {} pd'" and "now_ms pd' = now_ms pd"
    and "set (connections pd') = {e \<in> set (connections pd). \<not> purge_all \<and> \<not> expired pd e}"
    and "\<forall>e \<in> set (connections pd'). heap pd' (snd e) = heap pd (snd e)"
proof -
  have "distinct (connections pd)" using mem_okD(4) [OF pd_inv_mem [OF i]] by (simp add: ut_keys_def distinct_map)
  from purge_conns_ok [OF i subset_refl this, of env purge_all] obtain pd' where "purge_conns env purge_all (connections pd) pd = Some pd'"
    "pd_inv {} pd'" "now_ms pd' = now_ms pd" "set (connections pd') = set (connections pd) - {e \<in> set (connections pd). purge_all \<or> expired pd e}"
    "\<forall>e \<in> set (connections pd'). heap pd' (snd e) = heap pd (snd e)" by blast
  then show ?thesis by (intro that [of pd']) (auto simp: purge_expired_connections_def)
qed

lemma purge_expired_ok:
  assumes i: "pd_inv {} pd"
  obtains pd' where "purge_expired_connections env purge_all pd = Some pd'" and "pd_inv {} pd'" and "now_ms pd' = now_ms pd"
    and "purge_all \<longrightarrow> connections pd' = []"
  using purge_expired_spec [OF i, of env purge_all] by (metis (no_types, lifting) empty_Collect_eq set_empty)

section \<open>Connection status\<close>

lemma benign_tcp [intro]: "benign d (tcp_status th dir n d)"
proof -
  have b: "benign d (if dir then d\<lparr>tcp_flags1 := tcp_flags1 d OR th\<rparr> else d\<lparr>tcp_flags0 := tcp_flags0 d OR th\<rparr>)" by (simp add: benign_fields)
  show ?thesis unfolding tcp_status_def Let_def
    by (intro benign_steps(1)) (rule benign_trans [OF b] benign_fields benign_refl)+
qed

text \<open>
  The state of a connection in progress after its status was updated: still allocated, to be purged
  exactly when it has left the table.
\<close>

lemma update_connection_status_ok:
  assumes i: "pd_inv {a} pd" and h: "heap pd a = Some d" and p: "\<not> to_purge d"
    and m: "(tuple, a) \<in> set (connections pd)"
    and tcp: "ipproto tuple = IPPROTO_TCP \<Longrightarrow> \<not> has_flag (p_flags pkt) ZDTUN_PKT_IS_FRAGMENT \<Longrightarrow>
      unat (p_ip_hdr_len pkt) + 13 < length (p_buf pkt)"
    and r: "readable pkt"
  shows "\<exists>pd' d'. update_connection_status tuple a pkt dir pd = Some pd' \<and> pd_inv {a} pd' \<and>
    heap pd' a = Some d' \<and> (to_purge d' \<longleftrightarrow> a \<notin> set (table pd')) \<and> now_ms pd' = now_ms pd"
proof -
  have ta: "a \<in> set (table pd)" using m by (force simp: table_def)
  have keep: ?thesis if "update_connection_status tuple a pkt dir pd = Some (put_conn a d1 pd)" "benign d d1" for d1
    using that(1) put_conn_inv [OF i h that(2)] p that(2) ta
    by (intro exI [of _ "put_conn a d1 pd"] exI [of _ d1]) (simp add: benign_def)
  let ?skip = "closed (status d) \<or> has_flag (p_flags pkt) ZDTUN_PKT_IS_FRAGMENT"
  show ?thesis
  proof (cases ?skip)
    case True
    have "update_connection_status tuple a pkt dir pd = Some pd"
      unfolding update_connection_status_def h bind.simps if_P [OF True] ..
    with i h p ta show ?thesis by auto
  next
    case ns: False
    note eq = update_connection_status_def [of tuple a pkt dir pd, unfolded h bind.simps if_not_P [OF ns]]
    show ?thesis
    proof (cases "ipproto tuple = IPPROTO_TCP")
      case True
      obtain th where "rd8 (p_buf pkt) (unat (p_ip_hdr_len pkt) + 13) = Some th" using tcp [OF True] ns by auto
      with True show ?thesis by (intro keep [OF _ benign_tcp]) (simp add: eq)
    next
      case False
      define d1 where "d1 = (if status d < CONN_STATUS_CONNECTED then d\<lparr>status := CONN_STATUS_CONNECTED\<rparr> else d)"
      have b1: "benign d d1" by (simp add: d1_def benign_fields)
      have nc: "\<not> closed (status d1)" using ns by (auto simp: d1_def)
      show ?thesis
      proof (cases "is_dns_pkt tuple pkt")
        case nd: False
        have "update_connection_status tuple a pkt dir pd = Some (put_conn a d1 pd)"
          unfolding eq if_not_P [OF False] Let_def d1_def [symmetric] if_not_P [OF nd] ..
        then show ?thesis using b1 by (rule keep)
      next
        case True
        obtain flags where fl: "rd16 (pkt_l7 pkt) 2 = Some flags" 
          using r rd_in_range(2) [of 2 "pkt_l7 pkt"] by (auto simp: readable_def)
        define d2 where "d2 = dns_status flags d1"
        have e2: "update_connection_status tuple a pkt dir pd =
            Some (if closed (status d2) then remove_connection tuple (put_conn a d2 pd) else put_conn a d2 pd)"
          unfolding eq if_not_P [OF False] Let_def d1_def [symmetric] if_P [OF True] fl bind.simps d2_def ..
        have d2: "pending_notification d2 = pending_notification d" "conn_ok d2 = conn_ok d" "closed (status d2) \<longleftrightarrow> to_purge d2"
          using nc p unfolding d2_def by (auto simp: dns_status_def conn_ok_def d1_def)
        have i2: "pd_inv {a} (put_conn a d2 pd)" by (rule put_conn_X [OF i h]) (simp_all add: d2)
        have m2: "(tuple, a) \<in> set (connections (put_conn a d2 pd))" using m by simp
        note rm = remove_inv [OF i2 m2]
        show ?thesis
        proof (cases "closed (status d2)")
          case True
          with rm(1,2) e2 d2(3) show ?thesis
            by (intro exI [of _ "remove_connection tuple (put_conn a d2 pd)"] exI [of _ d2]) (simp add: remove_connection_def)
        next
          case False
          with i2 e2 d2(3) ta show ?thesis by (intro exI [of _ "put_conn a d2 pd"] exI [of _ d2]) simp
        qed
      qed
    qed
  qed
qed

section \<open>Packets\<close>

lemma create_conn_ok:
  assumes i: "pd_inv {} pd" and k: "ut_find tuple (connections pd) = None" and b: "8 \<le> length buf"
  shows "\<exists>a pd' d. create_conn env hdr buf u tuple is_tx pd = Some (Conn tuple a is_tx, pd') \<and> pd_inv {a} pd' \<and>
    heap pd' a = Some d \<and> \<not> to_purge d \<and> (tuple, a) \<in> set (connections pd') \<and> now_ms pd' = now_ms pd"
proof -
  obtain a pd1 where n: "pd_new_connection env tuple u pd = Some (Some a, pd1)" and i1: "pd_inv {a} pd1"
    and c: "connections pd1 = connections pd" "cfg pd1 = cfg pd" "now_ms pd1 = now_ms pd" and t: "a \<notin> set (table pd)"
    and d: "\<exists>d. heap pd1 a = Some d \<and> \<not> to_purge d" by (rule pd_new_connection_ok [OF i])
  obtain d1 where d1: "heap pd1 a = Some d1" "\<not> to_purge d1" using d by blast
  obtain ifidx where ix: "(if hdr_linktype hdr = PCAPD_DLT_LINUX_SLL2 then rd32 buf 4 else Some 0) = Some ifidx"
    using rd_in_range(3) [of 4 buf] b by (cases "hdr_linktype hdr = PCAPD_DLT_LINUX_SLL2") auto
  define f where "f d = d\<lparr>conn_ifidx := (if hdr_linktype hdr = PCAPD_DLT_LINUX_SLL2 then ntohl ifidx else conn_ifidx d),
      proxied := (tls_enabled (cfg pd1) \<and> ipproto tuple = IPPROTO_TCP)\<rparr>" for d :: pd_conn
  have bf: "benign d1 (f d1)" unfolding f_def by (rule benign_fields)
  note s = upd_conn_ok [where f = f, OF i1 d1(1) bf]
  let ?pd2 = "put_conn a (f d1) pd1"
  have h2: "heap ?pd2 a = Some (f d1)" by simp
  have t2: "a \<notin> set (table ?pd2)" "ut_find tuple (connections ?pd2) = None" using t k c(1) by (simp_all add: table_def)
  let ?pd3 = "?pd2\<lparr>connections := ut_add tuple a (connections ?pd2), zstats := count_opened (ipproto tuple) (zstats ?pd2)\<rparr>"
  have i3: "pd_inv {a} ?pd3" by (rule table_add [OF s(2) h2 t2]) simp
  have "create_conn env hdr buf u tuple is_tx pd = Some (Conn tuple a is_tx, ?pd3)"
    unfolding create_conn_def take_alloc_ok [OF mem_okD(1) [OF pd_inv_mem [OF i]]] Let_def
    by (simp add: n ix f_def [symmetric] s(1))
  moreover have "\<not> to_purge (f d1)" using d1(2) by (simp add: f_def)
  ultimately show ?thesis using i3 c(3) by (intro exI [of _ a] exI [of _ ?pd3] exI [of _ "f d1"]) (simp add: ut_add_def)
qed

lemma found_conn:
  assumes i: "pd_inv {} pd" and f: "ut_find tuple (connections pd) = Some a"
  shows "\<exists>d. pd_inv {a} pd \<and> heap pd a = Some d \<and> \<not> to_purge d \<and> (tuple, a) \<in> set (connections pd)"
proof -
  have m: "(tuple, a) \<in> set (connections pd)" by (rule ut_find_mem [OF f])
  then have ta: "a \<in> set (table pd)" by (force simp: table_def)
  then obtain d where d: "heap pd a = Some d" using mem_ok_valid(2) [OF pd_inv_mem [OF i]] by blast
  from pd_inv_conn [OF i d] ta have "\<not> to_purge d" by (simp add: conn_inv_def)
  with d m pd_inv_singleton [OF i] show ?thesis by blast
qed

lemma discard_inv: "pd_inv X pd \<Longrightarrow> pd_inv X (discard_fragment pd)" "now_ms (discard_fragment pd) = now_ms pd"
  using pd_inv_same [of "discard_fragment pd" pd X] by (simp_all add: discard_fragment_def same_mem_def)

definition conn_ready :: "lookup_result \<Rightarrow> zdtun_pkt \<Rightarrow> pcapdroid \<Rightarrow> bool" where
  "conn_ready f pkt pd = (case f of
     Discarded \<Rightarrow> pd_inv {} pd
   | Conn tuple a is_tx \<Rightarrow> pd_inv {a} pd \<and> ipproto tuple = ipproto (p_tuple pkt) \<and>
       (\<exists>d. heap pd a = Some d \<and> \<not> to_purge d) \<and> (tuple, a) \<in> set (connections pd))"

lemma find_conn_ok:
  assumes i: "pd_inv {} pd" and b: "8 \<le> length buf"
  obtains f pd' where "find_conn env hdr buf u pkt pd = Some (f, pd')" and "conn_ready f pkt pd'" and "now_ms pd' = now_ms pd"
proof -
  let ?tx = "hdr_flags hdr AND PCAPD_FLAG_TX \<noteq> 0"
  define t where "t = (if ?tx then p_tuple pkt else tupleSwapPeers (p_tuple pkt))"
  have pr: "ipproto t = ipproto (p_tuple pkt)" "ipproto (tupleSwapPeers t) = ipproto (p_tuple pkt)" by (simp_all add: t_def)
  have "\<exists>f pd'. find_conn env hdr buf u pkt pd = Some (f, pd') \<and> conn_ready f pkt pd' \<and> now_ms pd' = now_ms pd"
  proof (cases "ut_find t (connections pd)")
    case (Some a)
    with found_conn [OF i Some] pr show ?thesis
      unfolding find_conn_def Let_def t_def [symmetric] by (auto simp: conn_ready_def)
  next
    case None
    show ?thesis
    proof (cases "ut_find (tupleSwapPeers t) (connections pd)")
      case (Some a)
      with None found_conn [OF i Some] pr show ?thesis
        unfolding find_conn_def Let_def t_def [symmetric] by (auto simp: conn_ready_def)
    next
      case n2: None
      show ?thesis
        using None n2 create_conn_ok [OF i None b, where env = env and hdr = hdr and u = u and is_tx = ?tx] discard_inv(1) [OF i] discard_inv(2) [of pd] i pr
        unfolding find_conn_def Let_def t_def [symmetric]
        by (cases "later_fragment (p_flags pkt)") (auto simp: conn_ready_def)
    qed
  qed
  then show ?thesis using that by blast
qed

text \<open>
  A frame the daemon can send: the receive buffer is \<open>PCAPD_SNAPLEN\<close> bytes long, the frame leaves a
  margin of sixteen bytes in it, is longer than its link header, and an IPv4 header has its minimal length.
\<close>

definition good_frame :: "pcapd_hdr \<Rightarrow> byte list \<Rightarrow> bool" where
  "good_frame hdr buf \<longleftrightarrow> length buf = 65535 \<and> unat (hdr_len hdr) + 16 \<le> 65535 \<and>
     (let off = get_ip_offset (hdr_linktype hdr) in
        0 \<le> off \<longrightarrow> off < int (unat (hdr_len hdr)) \<and>
          (drop_bit 4 (buf ! nat off) = 4 \<longrightarrow> 5 \<le> unat (buf ! nat off AND 0x0F)))"

lemma trailer_uid_ok:
  assumes "unat (hdr_len hdr) \<le> length buf"
  obtains u pd' where "trailer_uid hdr buf pkt pd = Some (u, pd')" and "same_mem pd' pd" and "now_ms pd' = now_ms pd"
proof -
  have "\<exists>u pd'. trailer_uid hdr buf pkt pd = Some (u, pd') \<and> same_mem pd' pd \<and> now_ms pd' = now_ms pd"
  proof (cases "pcap_file_capture pd \<and> hdr_uid hdr = UID_UNKNOWN \<and> 32 \<le> unat (hdr_len hdr) - unat (p_len pkt)")
    case True
    then have l: "unat (hdr_len hdr) - 32 + 3 < length buf" "unat (hdr_len hdr) - 32 + 4 + 3 < length buf"
      using assms by linarith+
    obtain m where "rd32 buf (unat (hdr_len hdr) - 32) = Some m" using rd_in_range(3) [OF l(1)] by blast
    moreover obtain u where "rd32 buf (unat (hdr_len hdr) - 32 + 4) = Some u" using rd_in_range(3) [OF l(2)] by blast
    ultimately show ?thesis using True
      by (cases "ntohl m = PCAPDROID_TRAILER_MAGIC") (simp_all add: trailer_uid_def same_mem_def)
  next
    case False
    show ?thesis unfolding trailer_uid_def if_not_P [OF False] by (simp add: same_mem_def)
  qed
  then show ?thesis using that by blast
qed

lemma unat_u16: "unat (n :: u16) < 65536"
  using unsigned_less [of n] by simp

lemma good_packet:
  assumes p: "zdtun_parse_pkt ids (drop off buf) (n - of_nat off) = Some (Inr (pkt, ids'))"
    and l: "off < unat n" "unat n + 16 \<le> length buf"
    and v: "drop_bit 4 (buf ! off) = 4 \<longrightarrow> 5 \<le> unat (buf ! off AND 0x0F)"
  shows "readable pkt" "pkt_bytes pkt \<noteq> []"
    "ipproto (p_tuple pkt) = IPPROTO_TCP \<Longrightarrow> \<not> has_flag (p_flags pkt) ZDTUN_PKT_IS_FRAGMENT \<Longrightarrow>
       unat (p_ip_hdr_len pkt) + 13 < length (p_buf pkt)"
proof -
  have "unat n < 2 ^ 16" using unat_u16 [of n] by simp
  with l(1) have "unat (of_nat off :: u16) = off" by (simp add: unat_of_nat)
  with l(1) have n: "unat (n - of_nat off) = unat n - off" by (simp add: unat_sub word_le_nat_alt)
  have b: "p_buf pkt = drop off buf" by (rule zdtun_parse_pkt_buf [OF p])
  have s: "unat (p_ip_hdr_len pkt) + unat (p_l4_hdr_len pkt) + unat (p_l7_len pkt) = unat (p_len pkt)"
    "unat (p_len pkt) \<le> unat n - off"
    using zdtun_parse_pkt_lengths [OF p] n by (simp_all add: word_le_nat_alt)
  with l show "readable pkt" by (simp add: readable_def pkt_l7_def b)
  have "drop off buf ! 0 = buf ! off" using l by simp
  with zdtun_parse_pkt_pos [OF p] v have "0 < unat (p_len pkt)" by simp
  with l show "pkt_bytes pkt \<noteq> []" by (simp add: pkt_bytes_def b)
  assume "ipproto (p_tuple pkt) = IPPROTO_TCP" "\<not> has_flag (p_flags pkt) ZDTUN_PKT_IS_FRAGMENT"
  from zdtun_parse_pkt_tcp [OF p this] l n show "unat (p_ip_hdr_len pkt) + 13 < length (p_buf pkt)" by (simp add: b)
qed

text \<open>What \<open>handle_packet\<close> does with the connection of a packet.\<close>

lemma conn_packet_ok:
  assumes c: "conn_ready (Conn tuple a is_tx) pkt0 pd"
    and x: "x = \<lparr>c_pkt = pkt, c_sec = s, c_usec = us, c_is_tx = is_tx, c_tuple = tuple, c_data = a\<rparr>"
    and r: "readable pkt" "pkt_bytes pkt \<noteq> []"
    and tcp: "ipproto tuple = IPPROTO_TCP \<Longrightarrow> \<not> has_flag (p_flags pkt) ZDTUN_PKT_IS_FRAGMENT \<Longrightarrow>
      unat (p_ip_hdr_len pkt) + 13 < length (p_buf pkt)"
  shows "\<exists>pd'. do { pd3 \<leftarrow> upd_conn a (\<lambda>d. d\<lparr>last_update_ms := now_ms pd\<rparr>) pd;
      pd4 \<leftarrow> pd_process_packet env x pd3;
      pd5 \<leftarrow> update_connection_status tuple a (c_pkt x) (\<not> is_tx) pd4;
      pd_account_stats env x pd5 } = Some pd' \<and> pd_inv {} pd' \<and> now_ms pd' = now_ms pd"
proof -
  from c obtain d where i: "pd_inv {a} pd" and d: "heap pd a = Some d" "\<not> to_purge d" and m: "(tuple, a) \<in> set (connections pd)"
    by (auto simp: conn_ready_def)
  have f: "c_data x = a" "c_pkt x = pkt" by (simp_all add: x)
  have "benign d (d\<lparr>last_update_ms := now_ms pd\<rparr>)" by (simp add: benign_def conn_ok_def)
  note u = upd_conn_ok [where f = "\<lambda>d. d\<lparr>last_update_ms := now_ms pd\<rparr>", OF i d(1) this]
  let ?pd3 = "put_conn a (d\<lparr>last_update_ms := now_ms pd\<rparr>) pd"
  have h3: "heap ?pd3 (c_data x) = Some (d\<lparr>last_update_ms := now_ms pd\<rparr>)" by (simp add: f)
  obtain pd4 where p4: "pd_process_packet env x ?pd3 = Some pd4" and i4: "pd_inv {a} pd4" and k4: "keeps (c_data x) ?pd3 pd4"
    by (rule pd_process_packet_ok [OF u(2) _ h3]) (simp_all add: f r)
  from k4 h3 d(2) obtain d4 where d4: "heap pd4 a = Some d4" "\<not> to_purge d4" by (auto simp: keeps_def f)
  have m4: "(tuple, a) \<in> set (connections pd4)" "now_ms pd4 = now_ms pd" using k4 m by (simp_all add: keeps_def)
  from update_connection_status_ok [OF i4 d4 m4(1) tcp r(1)] obtain pd5 d5 where
    p5: "update_connection_status tuple a (c_pkt x) (\<not> is_tx) pd4 = Some pd5" and i5: "pd_inv {a} pd5"
    and d5: "heap pd5 a = Some d5" "to_purge d5 \<longleftrightarrow> a \<notin> set (table pd5)" and n5: "now_ms pd5 = now_ms pd4"
    unfolding f by blast
  have h5: "heap pd5 (c_data x) = Some d5" using d5(1) by (simp add: f)
  obtain pd6 d6 where p6: "pd_account_stats env x pd5 = Some pd6" and i6: "pd_inv {a} pd6" and k6: "keeps (c_data x) pd5 pd6"
    and q6: "c_data x \<in> set (queued pd6)" "heap pd6 (c_data x) = Some d6" "update_type d6 \<noteq> 0"
    by (rule pd_account_stats_ok [OF i5 _ h5]) (simp_all add: f r)
  have t6: "table pd6 = table pd5" "to_purge d6 = to_purge d5" "now_ms pd6 = now_ms pd"
    using k6 h5 q6(2) n5 m4(2) by (auto simp: keeps_def table_def)
  have "pd_inv {} pd6" by (rule pd_inv_exit [OF i6]) (use q6 t6 d5(2) f in auto)
  then show ?thesis using u(1) p4 p5 p6 t6(3) by simp
qed

lemma handle_packet_ok:
  assumes i: "pd_inv {} pd" and l: "length buf = 65535" "off < unat (hdr_len hdr)" "unat (hdr_len hdr) + 16 \<le> 65535"
    and v: "drop_bit 4 (buf ! off) = 4 \<longrightarrow> 5 \<le> unat (buf ! off AND 0x0F)"
  shows "\<exists>ok u pd'. handle_packet env hdr buf off pd = Some (ok, u, pd') \<and> pd_inv {} pd' \<and> now_ms pd' = now_ms pd"
proof -
  have "unat (hdr_len hdr - of_nat off) \<le> length (drop off buf)"
  proof -
    have "of_nat off \<le> hdr_len hdr" using l(2) unat_u16 [of "hdr_len hdr"] by (simp add: word_le_nat_alt unat_of_nat)
    then show ?thesis using l by (simp add: unat_sub unat_of_nat)
  qed
  then obtain r where r: "zdtun_parse_pkt (fragments pd) (drop off buf) (hdr_len hdr - of_nat off) = Some r"
    using zdtun_parse_pkt_bounds by blast
  show ?thesis
  proof (cases r)
    case (Inl e)
    then show ?thesis using i r by (auto simp: handle_packet_def)
  next
    case (Inr pi)
    obtain pkt ids where pi: "pi = (pkt, ids)" by (cases pi)
    note r' = r [unfolded Inr pi]
    have l': "unat (hdr_len hdr) + 16 \<le> length buf" using l by simp
    note g = good_packet [OF r' l(2) l' v]
    have sm: "pd_inv {} (pd\<lparr>fragments := ids\<rparr>)" using i pd_inv_same [of "pd\<lparr>fragments := ids\<rparr>" pd "{}"] by (simp add: same_mem_def)
    have le: "unat (hdr_len hdr) \<le> length buf" using l by simp
    obtain u pd1 where t: "trailer_uid hdr buf pkt (pd\<lparr>fragments := ids\<rparr>) = Some (u, pd1)"
      and s1: "same_mem pd1 (pd\<lparr>fragments := ids\<rparr>)" and n1: "now_ms pd1 = now_ms pd"
      by (rule trailer_uid_ok [OF le, of pkt "pd\<lparr>fragments := ids\<rparr>"]) simp
    have i1: "pd_inv {} pd1" using sm pd_inv_same [OF s1] by simp
    show ?thesis
    proof (cases "has_flag (p_flags pkt) ZDTUN_PKT_IS_FRAGMENT \<and> src_port (p_tuple pkt) = 0 \<and> dst_port (p_tuple pkt) = 0")
      case True
      then show ?thesis using r' t discard_inv(1) [OF i1] discard_inv(2) [of pd1] n1 by (auto simp: handle_packet_def)
    next
      case False
      have b8: "8 \<le> length buf" using l by simp
      obtain f pd2 where f: "find_conn env hdr buf u pkt pd1 = Some (f, pd2)" and c: "conn_ready f pkt pd2" and n2: "now_ms pd2 = now_ms pd1"
        by (rule find_conn_ok [OF i1 b8])
      show ?thesis
      proof (cases f)
        case Discarded
        show ?thesis using c r' t f n1 n2 unfolding Discarded handle_packet_def conn_ready_def
          by (auto simp add: if_not_P [OF False])
      next
        case (Conn tuple a is_tx)
        let ?x = "\<lparr>c_pkt = pkt\<lparr>p_tuple := tuple\<rparr>, c_sec = hdr_sec hdr, c_usec = hdr_usec hdr, c_is_tx = is_tx,
                   c_tuple = tuple, c_data = a\<rparr>"
        have pr: "ipproto tuple = ipproto (p_tuple pkt)" using c by (simp add: Conn conn_ready_def)
        from conn_packet_ok [OF c [unfolded Conn] refl, where pkt = "pkt\<lparr>p_tuple := tuple\<rparr>" and s = "hdr_sec hdr" and us = "hdr_usec hdr" and env = env] g pr
        obtain pd3 pd4 pd5 pd6 where "upd_conn a (\<lambda>d. d\<lparr>last_update_ms := now_ms pd2\<rparr>) pd2 = Some pd3"
          "pd_process_packet env ?x pd3 = Some pd4" "update_connection_status tuple a (c_pkt ?x) (\<not> is_tx) pd4 = Some pd5"
          "pd_account_stats env ?x pd5 = Some pd6" "pd_inv {} pd6" "now_ms pd6 = now_ms pd2"
          by (auto simp: bind_eq_Some_conv readable_def pkt_l7_def pkt_bytes_def)
        then show ?thesis using r' t f n1 n2 unfolding Conn handle_packet_def
          by (auto simp add: if_not_P [OF False] Let_def)
      qed
    qed
  qed
qed

section \<open>The capture loop\<close>

lemma loop_tail_ok:
  assumes i: "pd_inv {} pd" and j: "jni_limit env = None"
  shows "\<exists>np' pd'. loop_tail env (np, pd) = Some (np', pd') \<and> pd_inv {} pd'"
proof -
  obtain pd1 where h: "pd_housekeeping env pd = Some pd1" and i1: "pd_inv {} pd1" by (rule pd_housekeeping_ok [OF i pd_inv_live [OF i] j])
  obtain pd2 where p: "purge_expired_connections env False pd1 = Some pd2" and i2: "pd_inv {} pd2" by (rule purge_expired_ok [OF i1])
  show ?thesis using h i1 p i2 by (simp add: loop_tail_def)
qed

lemma loop_frame_ok:
  assumes i: "pd_inv {} pd" and j: "jni_limit env = None" and g: "good_frame hdr buf"
  shows "\<exists>np' pd'. loop_frame env hdr buf (np, pd) = Some (np', pd') \<and> pd_inv {} pd'"
proof -
  define pd0 where "pd0 = pd\<lparr>num_dropped_pkts := hdr_pkt_drops hdr\<rparr>"
  define off where "off = get_ip_offset (hdr_linktype hdr)"
  have i0: "pd_inv {} pd0" using i pd_inv_same [of pd0 pd "{}"] by (simp add: pd0_def same_mem_def)
  have u: "loop_frame env hdr buf (np, pd) = (if off < 0 \<or> int (unat (hdr_len hdr)) < off then Some (np, pd0)
      else do {
        (ok, u, pd1) \<leftarrow> handle_packet env hdr buf (nat off) pd0;
        pd2 \<leftarrow> (if ok then Some pd1
                else pd_dump_packet env (take (unat (hdr_len hdr) - nat off) (drop (nat off) buf))
                       (hdr_sec hdr) (hdr_usec hdr) u pd1);
        loop_tail env (np, pd2) })"
    unfolding loop_frame_def Let_def pd0_def off_def prod.case ..
  show ?thesis
  proof (cases "off < 0")
    case True
    then show ?thesis using i0 by (simp add: u)
  next
    case False
    then have o: "0 \<le> off" by simp
    with g have l0: "length buf = 65535" "off < int (unat (hdr_len hdr))" "unat (hdr_len hdr) + 16 \<le> 65535"
      and v: "drop_bit 4 (buf ! nat off) = 4 \<longrightarrow> 5 \<le> unat (buf ! nat off AND 0x0F)"
      unfolding good_frame_def Let_def off_def [symmetric] by blast+
    have "nat off < unat (hdr_len hdr)" using l0(2) o by (simp only: nat_less_iff)
    note l = l0(1) this l0(3)
    have n: "\<not> (off < 0 \<or> int (unat (hdr_len hdr)) < off)" using False l(2) by linarith
    from handle_packet_ok [OF i0 l v] obtain ok us pd1 where h: "handle_packet env hdr buf (nat off) pd0 = Some (ok, us, pd1)"
      and i1: "pd_inv {} pd1" by blast
    have ne: "take (unat (hdr_len hdr) - nat off) (drop (nat off) buf) \<noteq> []" using l by simp
    have "\<exists>pd2. (if ok then Some pd1 else pd_dump_packet env (take (unat (hdr_len hdr) - nat off) (drop (nat off) buf))
        (hdr_sec hdr) (hdr_usec hdr) us pd1) = Some pd2 \<and> pd_inv {} pd2"
      using i1 by (cases ok) (auto intro: pd_dump_packet_ok [OF i1 ne])
    then obtain pd2 where p: "(if ok then Some pd1 else pd_dump_packet env (take (unat (hdr_len hdr) - nat off) (drop (nat off) buf))
        (hdr_sec hdr) (hdr_usec hdr) us pd1) = Some pd2" and i2: "pd_inv {} pd2" by blast
    from loop_tail_ok [OF i2 j] show ?thesis unfolding u if_not_P [OF n] h by (simp add: p)
  qed
qed

fun good_event :: "capture_event \<Rightarrow> bool" where
  "good_event (Frame now hdr buf) = good_frame hdr buf"
| "good_event e = True"

lemma capture_step_ok:
  assumes i: "pd_inv {} pd" and j: "jni_limit env = None" and g: "good_event ev"
  shows "\<exists>np' pd'. capture_step env ev (np, pd) = Some (np', pd') \<and> pd_inv {} pd'"
proof -
  have same: "pd_inv {} p" if "same_mem p pd" for p using i pd_inv_same [OF that] by simp
  show ?thesis
  proof (cases ev)
    case (Idle now)
    have "pd_inv {} (pd\<lparr>now_ms := now\<rparr>)" by (rule same) (simp add: same_mem_def)
    from loop_tail_ok [OF this j] show ?thesis by (simp add: Idle)
  next
    case (Frame now hdr buf)
    have "pd_inv {} (pd\<lparr>now_ms := now\<rparr>)" by (rule same) (simp add: same_mem_def)
    from loop_frame_ok [OF this j] g show ?thesis by (simp add: Frame)
  next
    case (Reload_Worker files)
    obtain pd' where "load_new_blacklists env files pd = Some pd'" "pd_inv {} pd'" by (rule load_new_blacklists_ok [OF i])
    then show ?thesis using i by (simp add: Reload_Worker)
  qed (simp_all add: same same_mem_def)
qed

interpretation capture: safe_machine "\<lambda>st. pd_inv {} (snd st)" "\<lambda>ev. good_event ev \<and> jni_limit env = None" "capture_step env"
  for env
proof
  fix st :: "u64 \<times> pcapdroid" and ev
  assume "pd_inv {} (snd st)" "good_event ev \<and> jni_limit env = None"
  with capture_step_ok [of "snd st" env ev "fst st"] show "\<exists>st'. capture_step env ev st = Some st' \<and> pd_inv {} (snd st')" by auto
qed

lemma run_libpcap_steps: "run_libpcap env evs st = Option.bind (run_steps (capture_step env) evs st) (\<lambda>st. capture_end env (snd st))"
proof (induction evs arbitrary: st)
  case (Cons ev evs)
  show ?case unfolding run_libpcap.simps run_steps.simps Option.bind_assoc Cons.IH ..
qed (simp only: run_libpcap.simps run_steps.simps bind.simps)

lemma capture_end_ok:
  assumes i: "pd_inv {} pd" and j: "jni_limit env = None"
  shows "\<exists>pd'. capture_end env pd = Some pd' \<and> heap pd' = (\<lambda>a. None) \<and> dumper pd' = None"
proof -
  obtain pd1 where p: "purge_expired_connections env True pd = Some pd1" and i1: "pd_inv {} pd1" and e: "connections pd1 = []"
    by (rule purge_expired_ok [OF i, of env True]) simp
  obtain pd2 where "pd_run_end env pd1 = Some pd2" "dom (heap pd2) \<subseteq> {}" "dumper pd2 = None" by (rule pd_run_end_ok [OF i1 j e])
  with p show ?thesis by (simp add: capture_end_def)
qed

end
