(* ===== verification/Capture_Run.thy ===== *)
theory Capture_Run
  imports Conn_Lifecycle
begin

text \<open>
  A whole root capture: the initial state that \<open>runPacketLoop\<close> (\<^verbatim>\<open>core/jni_impl.c\<close>) builds, the start of
  \<open>pd_run\<close> (\<^verbatim>\<open>core/pcapdroid.c\<close>) and the capture of \<^verbatim>\<open>core/capture_libpcap.c\<close> up to the end of \<open>pd_run\<close>.
\<close>

section \<open>Start of a capture\<close>

record dump_prefs =
  dp_enabled :: bool
  dp_trailer :: bool
  dp_pcapng :: bool
  dp_snaplen :: int
  dp_max_dump_size :: int

abbreviation MAX_HOST_LRU_SIZE :: int where "MAX_HOST_LRU_SIZE \<equiv> 256"
abbreviation VPN_BUFFER_SIZE :: int where "VPN_BUFFER_SIZE \<equiv> 32768"

definition no_zstats :: zdtun_statistics where
  "no_zstats = \<lparr>num_icmp_conn = 0, num_tcp_conn = 0, num_udp_conn = 0, num_icmp_opened = 0, num_tcp_opened = 0, num_udp_opened = 0\<rparr>"

definition no_capture_stats :: capture_stats where
  "no_capture_stats = \<lparr>cs_sent_bytes = 0, cs_rcvd_bytes = 0, cs_ipv6_sent_bytes = 0, cs_ipv6_rcvd_bytes = 0,
     cs_sent_pkts = 0, cs_rcvd_pkts = 0, new_stats = False, cs_last_update_ms = 0\<rparr>"

text \<open>The structure \<open>runPacketLoop\<close> initializes; \<open>reload\<close> is the file-level request flag, which outlives captures.\<close>

definition pcapdroid_init :: "pd_cfg \<Rightarrow> bool \<Rightarrow> bool \<Rightarrow> int \<Rightarrow> bool \<Rightarrow> pcapdroid" where
  "pcapdroid_init c malware file_capture max_pkts reload =
     \<lparr>heap = (\<lambda>a. None), next_addr = 0, allocs = [], new_conn_id = 0, now_ms = 0,
      ip_to_host = \<lparr>il_max_size = 0, il_cache = []\<rparr>, new_conns = no_conns, conns_updates = no_conns, cfg = c,
      connections = [], fragments = (\<lambda>_. (0, 0)), zstats = no_zstats, cap_stats = no_capture_stats, dumper = None,
      max_pkts_per_flow = max_pkts, num_discarded_fragments = 0, num_dropped_pkts = 0, netd_resolve_waiting = 0,
      next_connections_dump = 0, last_connections_dump = 0, bl_num_checked_connections = 0, fw_num_checked_connections = 0,
      dump_capture_stats_now = False, reload_blacklists_now = reload, mw_enabled = malware, reload_in_progress = False,
      reload_done = False, mw_new_bl = None, mw_status_arr = None, mw_new_wl = None, fw_new_bl = None, fw_new_wl = None,
      tls_new_list = None, pcap_file_capture = file_capture, has_seen_pcapdroid_trailer = False, sent = [], stats_sent = 0,
      dumped = []\<rparr>"

definition dump_mode :: "dump_prefs \<Rightarrow> pcap_dump_mode" where
  "dump_mode p = (if dp_pcapng p then PCAPNG_DUMP else if dp_trailer p then PCAP_DUMP_WITH_TRAILER else PCAP_DUMP)"

definition dump_snaplen :: "bool \<Rightarrow> dump_prefs \<Rightarrow> int" where
  "dump_snaplen vpn p =
     (let max_snaplen = (if vpn then VPN_BUFFER_SIZE else int PCAPD_SNAPLEN)
      in if dp_snaplen p \<le> 0 \<or> max_snaplen < dp_snaplen p then max_snaplen else dp_snaplen p)"

text \<open>
  \<open>pd_run\<close> up to the capture: the initial load of the blacklists, the PCAP dumper (whose failure stops the
  capture before it starts) and the timers. \<open>calloc\<close>, \<open>junk\<close> and \<open>mutex\<close> are the outcomes of the allocations
  and of the mutex initialization of the dumper.
\<close>

definition pd_run_start ::
    "pd_env \<Rightarrow> dump_prefs \<Rightarrow> bool \<times> byte list option \<times> bool \<Rightarrow> u64 \<Rightarrow> (string \<times> blacklist_type \<times> string option) list \<Rightarrow>
     pcapdroid \<Rightarrow> (bool \<times> pcapdroid) option" where
  "pd_run_start env p alloc now files pd0 = (case alloc of (calloc, junk, mutex) \<Rightarrow> do {
     lru \<leftarrow> ip_lru_init True MAX_HOST_LRU_SIZE;
     let pd1 = pd0\<lparr>has_seen_pcapdroid_trailer := False, netd_resolve_waiting := 0, ip_to_host := lru\<rparr>;
     pd2 \<leftarrow> (if mw_enabled pd1 \<and> reload_blacklists_now pd1
             then do { pd \<leftarrow> load_new_blacklists env files (pd1\<lparr>reload_blacklists_now := False\<rparr>); use_new_blacklists pd }
             else Some pd1);
     let dm = (if dp_enabled p
               then pcap_new_dumper calloc junk mutex (dump_mode p) (nat (dump_snaplen (vpn_capture (cfg pd2)) p))
                      (nat (dp_max_dump_size p mod 2 ^ 64)) True
               else None);
     Some (\<not> dp_enabled p \<or> dm \<noteq> None,
       pd2\<lparr>dumper := dm, zstats := no_zstats, now_ms := now, last_connections_dump := now,
           next_connections_dump := now + 500, bl_num_checked_connections := 0, fw_num_checked_connections := 0\<rparr>) })"

definition pd_run ::
    "pd_env \<Rightarrow> dump_prefs \<Rightarrow> bool \<times> byte list option \<times> bool \<Rightarrow> u64 \<times> u64 \<Rightarrow> (string \<times> blacklist_type \<times> string option) list \<Rightarrow>
     capture_event list \<Rightarrow> pcapdroid \<Rightarrow> pcapdroid option" where
  "pd_run env p alloc clk files evs pd0 = do {
     (running, pd1) \<leftarrow> pd_run_start env p alloc (fst clk) files pd0;
     let pd2 = pd1\<lparr>now_ms := snd clk\<rparr>;
     run_libpcap env (if running then evs else []) (now_ms pd2 + PERIODIC_PURGE_TIMEOUT_MS, pd2) }"

section \<open>Memory safety of a capture\<close>

lemma pcapdroid_init_inv: "pd_inv {} (pcapdroid_init c malware fc max_pkts reload)"
  by (simp add: pcapdroid_init_def pd_inv_def mem_ok_def queued_def table_def dump_ok_def arr_ok_def no_conns_def arr_list_def ut_keys_def)

lemma new_dumper_inv:
  assumes "pcap_new_dumper calloc junk mutex mode snaplen max_size True = Some dm" "0 < snaplen"
    and "\<forall>b. junk = Some b \<longrightarrow> length b = PCAP_BUFFER_SIZE"
  shows "dumper_inv dm \<and> 0 < d_snaplen dm"
  using assms by (auto simp: pcap_new_dumper_def dumper_inv_def out_bytes_def PCAP_BUFFER_SIZE_def split: if_splits option.splits)

lemma dump_snaplen_pos: "0 < nat (dump_snaplen v p)"
  by (simp add: dump_snaplen_def Let_def)

lemma use_new_blacklists_ok:
  assumes "pd_inv X pd"
  shows "\<exists>pd'. use_new_blacklists pd = Some pd' \<and> pd_inv X pd'"
  using assms by (cases "mw_new_bl pd")
    (auto simp: use_new_blacklists_def pd_inv_def mem_ok_def queued_def table_def dump_ok_def)

lemma set_dumper_inv:
  assumes "pd_inv X pd" "same_mem (pd'\<lparr>dumper := dumper pd\<rparr>) pd" "dump_ok pd'"
  shows "pd_inv X pd'"
  using assms by (simp add: same_mem_def pd_inv_def mem_ok_def queued_def table_def)

lemma pd_run_start_ok:
  assumes i: "pd_inv {} pd" and b: "\<forall>b. junk = Some b \<longrightarrow> length b = PCAP_BUFFER_SIZE"
  shows "\<exists>r pd'. pd_run_start env p (calloc, junk, mutex) now files pd = Some (r, pd') \<and> pd_inv {} pd'"
proof -
  define pd1 where "pd1 = pd\<lparr>has_seen_pcapdroid_trailer := False, netd_resolve_waiting := 0,
    ip_to_host := \<lparr>il_max_size = MAX_HOST_LRU_SIZE, il_cache = []\<rparr>\<rparr>"
  have i1: "pd_inv {} pd1" "pd_inv {} (pd1\<lparr>reload_blacklists_now := False\<rparr>)"
    using i pd_inv_same [of pd1 pd] pd_inv_same [of "pd1\<lparr>reload_blacklists_now := False\<rparr>" pd] by (simp_all add: pd1_def same_mem_def)
  have "\<exists>pd2. (if mw_enabled pd1 \<and> reload_blacklists_now pd1
       then do { pd \<leftarrow> load_new_blacklists env files (pd1\<lparr>reload_blacklists_now := False\<rparr>); use_new_blacklists pd }
       else Some pd1) = Some pd2 \<and> pd_inv {} pd2"
  proof -
    obtain q where q: "load_new_blacklists env files (pd1\<lparr>reload_blacklists_now := False\<rparr>) = Some q" "pd_inv {} q"
      by (rule load_new_blacklists_ok [OF i1(2)])
    with use_new_blacklists_ok [OF q(2)] i1(1) show ?thesis by auto
  qed
  then obtain pd2 where p2: "(if mw_enabled pd1 \<and> reload_blacklists_now pd1
       then do { pd \<leftarrow> load_new_blacklists env files (pd1\<lparr>reload_blacklists_now := False\<rparr>); use_new_blacklists pd }
       else Some pd1) = Some pd2" and i2: "pd_inv {} pd2" by blast
  define dm where "dm = (if dp_enabled p
     then pcap_new_dumper calloc junk mutex (dump_mode p) (nat (dump_snaplen (vpn_capture (cfg pd2)) p))
            (nat (dp_max_dump_size p mod 2 ^ 64)) True else None)"
  define pd3 where "pd3 = pd2\<lparr>dumper := dm, zstats := no_zstats, now_ms := now, last_connections_dump := now,
     next_connections_dump := now + 500, bl_num_checked_connections := 0, fw_num_checked_connections := 0\<rparr>"
  have "dumper_inv x \<and> 0 < d_snaplen x" if "dm = Some x" for x
  proof -
    from that have "pcap_new_dumper calloc junk mutex (dump_mode p) (nat (dump_snaplen (vpn_capture (cfg pd2)) p))
      (nat (dp_max_dump_size p mod 2 ^ 64)) True = Some x" by (simp add: dm_def split: if_splits)
    from new_dumper_inv [OF this dump_snaplen_pos b] show ?thesis .
  qed
  then have "dump_ok pd3" by (simp add: dump_ok_def pd3_def)
  then have "pd_inv {} pd3" by (rule set_dumper_inv [OF i2, rotated]) (simp add: pd3_def same_mem_def)
  moreover have "pd_run_start env p (calloc, junk, mutex) now files pd = Some (\<not> dp_enabled p \<or> dm \<noteq> None, pd3)"
    unfolding pd_run_start_def prod.case ip_lru_init_def if_True bind.simps Let_def pd1_def [symmetric] p2
      dm_def [symmetric] pd3_def ..
  ultimately show ?thesis by blast
qed

lemma pd_run_ok:
  assumes i: "pd_inv {} pd" and b: "\<forall>b. junk = Some b \<longrightarrow> length b = PCAP_BUFFER_SIZE"
    and j: "jni_limit env = None" and g: "\<forall>ev \<in> set evs. good_event ev"
  shows "\<exists>pd'. pd_run env p (calloc, junk, mutex) clk files evs pd = Some pd' \<and> heap pd' = (\<lambda>a. None) \<and> dumper pd' = None"
proof -
  from pd_run_start_ok [OF i b] obtain r pd1 where s: "pd_run_start env p (calloc, junk, mutex) (fst clk) files pd = Some (r, pd1)"
    and i1: "pd_inv {} pd1" by blast
  define pd2 where "pd2 = pd1\<lparr>now_ms := snd clk\<rparr>"
  let ?st = "(now_ms pd2 + PERIODIC_PURGE_TIMEOUT_MS, pd2)" and ?evs = "if r then evs else []"
  have "pd_inv {} (snd ?st)" using i1 pd_inv_same [of pd2 pd1] by (simp add: pd2_def same_mem_def)
  moreover have "\<forall>ev \<in> set ?evs. good_event ev \<and> jni_limit env = None" using g j by simp
  ultimately obtain st where st: "run_steps (capture_step env) ?evs ?st = Some st" "pd_inv {} (snd st)"
    using capture.run_ok [of ?st ?evs env] by blast
  from capture_end_ok [OF st(2) j] show ?thesis
    unfolding pd_run_def s bind.simps prod.case Let_def pd2_def [symmetric] run_libpcap_steps st(1) .
qed

section \<open>Reachable states\<close>

text \<open>
  The states of a capture between two iterations of its loop: those after the start of \<open>pd_run\<close> and those a
  good event leads to. \<open>next_purge_ms\<close> is the first component.
\<close>

inductive capture_reachable :: "pd_env \<Rightarrow> u64 \<times> pcapdroid \<Rightarrow> bool" for env where
  capture_start: "pd_run_start env p (calloc, junk, mutex) now files (pcapdroid_init c malware fc max_pkts reload) = Some (True, pd) \<Longrightarrow>
    \<forall>b. junk = Some b \<longrightarrow> length b = PCAP_BUFFER_SIZE \<Longrightarrow>
    capture_reachable env (now' + PERIODIC_PURGE_TIMEOUT_MS, pd\<lparr>now_ms := now'\<rparr>)"
| capture_next: "capture_reachable env st \<Longrightarrow> good_event ev \<Longrightarrow> capture_step env ev st = Some st' \<Longrightarrow> capture_reachable env st'"

lemma reachable_inv:
  assumes "capture_reachable env st" "jni_limit env = None"
  shows "pd_inv {} (snd st)"
  using assms
proof (induction rule: capture_reachable.induct)
  case (capture_start p calloc junk mutex now files c malware fc max_pkts reload pd now')
  from pd_run_start_ok [OF pcapdroid_init_inv [of c malware fc max_pkts reload] capture_start.hyps(2),
      of env p calloc mutex now files] capture_start.hyps(1) have "pd_inv {} pd" by simp
  then show ?case using pd_inv_same [of "pd\<lparr>now_ms := now'\<rparr>" pd "{}"] by (simp add: same_mem_def)
next
  case (capture_next st ev st')
  show ?case by (rule capture.step_invar [of st ev env]) (use capture_next in simp_all)
qed

lemma start_reachable:
  fixes p :: dump_prefs
  assumes "\<not> dp_enabled p" "\<not> malware"
  shows "capture_reachable env (now' + PERIODIC_PURGE_TIMEOUT_MS, (pcapdroid_init c malware fc max_pkts reload)
    \<lparr>ip_to_host := \<lparr>il_max_size = MAX_HOST_LRU_SIZE, il_cache = []\<rparr>, last_connections_dump := now,
     next_connections_dump := now + 500, now_ms := now'\<rparr>)" (is "capture_reachable env (_, ?s)")
proof -
  have "pd_run_start env p (True, None, True) now [] (pcapdroid_init c malware fc max_pkts reload) =
    Some (True, ?s\<lparr>now_ms := now\<rparr>)"
    using assms by (simp add: pd_run_start_def ip_lru_init_def pcapdroid_init_def Let_def)
  from capture_start [OF this, of now'] show ?thesis by simp
qed

section \<open>Properties\<close>


definition sample_env :: pd_env where
  "sample_env = \<lparr>env_ndpi = sample_ndpi, chunk_cb = (\<lambda>d n. (True, False)), appname_of = (\<lambda>u. []), jni_limit = None, proto_name_of = (\<lambda>p. [])\<rparr>"

definition sample_prefs :: dump_prefs where
  "sample_prefs = \<lparr>dp_enabled = True, dp_trailer = True, dp_pcapng = False, dp_snaplen = 0, dp_max_dump_size = 0\<rparr>"

text \<open>A raw IPv4 packet: UDP from 10.0.0.1 port 1000 to 8.8.8.8 port 80, no payload.\<close>

definition sample_frame :: "u64 \<Rightarrow> capture_event" where
  "sample_frame now = Frame now
     \<lparr>hdr_sec = 1, hdr_usec = 2, hdr_pkt_drops = 0, hdr_uid = 10123, hdr_len = 28, hdr_linktype = PCAPD_DLT_RAW, hdr_flags = 1, hdr_ifid = 0\<rparr>
     ([0x45, 0, 0, 28, 0, 0, 0, 0, 64, 17, 0, 0, 10, 0, 0, 1, 8, 8, 8, 8, 3, 0xE8, 0, 80, 0, 8, 0, 0] @ replicate 65507 0)"


text \<open>
  C6: who owns a connection. In every state a capture can be in between two iterations, the two notification
  arrays hold no connection twice and exactly those whose \<open>pending_notification\<close> flag is set; the connection
  table holds no tuple and no connection twice, all of them allocated; and an allocated connection is marked
  \<open>to_purge\<close> exactly when it has left the table, in which case it still waits in an array, so that the next
  dump frees it.
\<close>

theorem connection_ownership:
  assumes "capture_reachable env (np, pd)" and "jni_limit env = None"
  shows "distinct (map snd (arr_list (new_conns pd) @ arr_list (conns_updates pd))) \<and>
    distinct (map fst (connections pd)) \<and> distinct (map snd (connections pd)) \<and>
    (\<forall>a \<in> snd ` set (connections pd). heap pd a \<noteq> None) \<and>
    (\<forall>a d. heap pd a = Some d \<longrightarrow>
       (pending_notification d \<longleftrightarrow> a \<in> snd ` set (arr_list (new_conns pd) @ arr_list (conns_updates pd))) \<and>
       (to_purge d \<longleftrightarrow> a \<notin> snd ` set (connections pd)) \<and> (to_purge d \<longrightarrow> pending_notification d))"
proof -
  have i: "pd_inv {} pd" using reachable_inv [OF assms] by simp
  note m = pd_inv_mem [OF i]
  have q: "set (queued pd) = snd ` set (arr_list (new_conns pd) @ arr_list (conns_updates pd))"
    by (simp add: queued_def image_Un)
  have t: "set (table pd) = snd ` set (connections pd)" by (simp add: table_def)
  have "\<forall>a d. heap pd a = Some d \<longrightarrow> (pending_notification d \<longleftrightarrow> a \<in> set (queued pd)) \<and>
       (to_purge d \<longleftrightarrow> a \<notin> set (table pd)) \<and> (to_purge d \<longrightarrow> pending_notification d)"
    using pd_inv_conn [OF i] unfolding conn_inv_def by blast
  moreover have "distinct (map snd (arr_list (new_conns pd) @ arr_list (conns_updates pd)))"
    using mem_okD(2) [OF m] by (simp only: queued_def map_append)
  moreover have "distinct (map fst (connections pd))" "distinct (map snd (connections pd))"
    using mem_okD(3,4) [OF m] by (simp_all add: table_def ut_keys_def)
  moreover have "\<forall>a \<in> set (table pd). heap pd a \<noteq> None" using m unfolding mem_ok_def by blast
  ultimately show ?thesis unfolding q t by blast
qed

text \<open>The witness is the state right after the start of a capture.\<close>

theorem connection_ownership_witness:
  "distinct (map fst (connections ((pcapdroid_init sample_cfg False False 0 False)
    \<lparr>ip_to_host := \<lparr>il_max_size = MAX_HOST_LRU_SIZE, il_cache = []\<rparr>, last_connections_dump := 0,
     next_connections_dump := 0 + 500, now_ms := 0\<rparr>)))"
  using connection_ownership [OF start_reachable [where env = sample_env and p = "sample_prefs\<lparr>dp_enabled := False\<rparr>" and
      malware = False and c = sample_cfg and fc = False and max_pkts = 0 and reload = False and now = 0 and now' = 0]]
  by (simp add: sample_env_def)

text \<open>
  C7: the capture never gets stuck and idle connections go away. In every state a capture can be in, an iteration
  of the loop without a packet succeeds; if it happens at or after the time planned for the next purge, then
  afterwards no connection of the table has been idle for its time out or longer, no connection was added, and the
  next purge is planned five seconds later.
\<close>

theorem idle_connections_purged:
  assumes "capture_reachable env (np, pd)" and "jni_limit env = None" and "np \<le> now"
  shows "\<exists>pd'. capture_step env (Idle now) (np, pd) = Some (now + PERIODIC_PURGE_TIMEOUT_MS, pd') \<and>
    set (connections pd') \<subseteq> set (connections pd) \<and>
    (\<forall>(tuple, a) \<in> set (connections pd'). \<exists>d. heap pd' a = Some d \<and>
       now < last_update_ms d + conn_timeout (ipproto tuple) d)"
proof -
  let ?pd = "pd\<lparr>now_ms := now\<rparr>"
  have i: "pd_inv {} ?pd" using reachable_inv [OF assms(1,2)] pd_inv_same [of ?pd pd "{}"] by (simp add: same_mem_def)
  obtain pd1 where h: "pd_housekeeping env ?pd = Some pd1" "pd_inv {} pd1" "connections pd1 = connections ?pd" "now_ms pd1 = now_ms ?pd"
    by (rule pd_housekeeping_ok [OF i pd_inv_live [OF i] assms(2)])
  obtain pd2 where p: "purge_expired_connections env False pd1 = Some pd2" "pd_inv {} pd2" "now_ms pd2 = now_ms pd1"
    "set (connections pd2) = {e \<in> set (connections pd1). \<not> False \<and> \<not> expired pd1 e}"
    "\<forall>e \<in> set (connections pd2). heap pd2 (snd e) = heap pd1 (snd e)"
    by (rule purge_expired_spec [OF h(2), of env False])
  have step: "capture_step env (Idle now) (np, pd) = Some (now + PERIODIC_PURGE_TIMEOUT_MS, pd2)"
    using h(1,4) p(1,3) assms(3) by (simp add: loop_tail_def)
  have "\<exists>d. heap pd2 a = Some d \<and> now < last_update_ms d + conn_timeout (ipproto tuple) d"
    if e: "(tuple, a) \<in> set (connections pd2)" for tuple a
  proof -
    have "a \<in> set (table pd2)" using e by (force simp: table_def)
    then obtain d where d: "heap pd2 a = Some d" using mem_ok_valid(2) [OF pd_inv_mem [OF p(2)]] by blast
    have "heap pd1 a = Some d" using bspec [OF p(5) e] d by simp
    moreover have "\<not> expired pd1 (tuple, a)" using e p(4) by blast
    ultimately show ?thesis using d h(4) by (simp add: expired_def linorder_not_le)
  qed
  moreover have "set (connections pd2) \<subseteq> set (connections pd)" using p(4) h(3) by auto
  ultimately show ?thesis using step by blast
qed

theorem idle_connections_purged_witness:
  "\<exists>pd'. capture_step sample_env (Idle 6000) (1000 + PERIODIC_PURGE_TIMEOUT_MS, (pcapdroid_init sample_cfg False False 0 False)
    \<lparr>ip_to_host := \<lparr>il_max_size = MAX_HOST_LRU_SIZE, il_cache = []\<rparr>, last_connections_dump := 1000,
     next_connections_dump := 1000 + 500, now_ms := 1000\<rparr>) = Some (6000 + PERIODIC_PURGE_TIMEOUT_MS, pd')"
  using idle_connections_purged [OF start_reachable [where env = sample_env and p = "sample_prefs\<lparr>dp_enabled := False\<rparr>" and
      malware = False and c = sample_cfg and fc = False and max_pkts = 0 and reload = False and now = 1000 and now' = 1000], of 6000]
  by (auto simp: sample_env_def)

text \<open>
  C8: the periodic dump tells the application everything it has to know, once. In every state a capture can be in,
  the dump hands over one list of new connections (descriptor, statistics and information) and one of updates, with
  exactly the connections of the two arrays, in order, each with its current fields; it leaves no notification
  pending, and frees exactly the connections that had left the table. With nothing pending, nothing is sent.
\<close>

theorem dump_complete:
  assumes "capture_reachable env (np, pd)" and "jni_limit env = None"
  shows "\<exists>pd'. dump_connections env pd = Some pd' \<and>
    sent pd' = sent pd @ (if arr_list (new_conns pd) = [] \<and> arr_list (conns_updates pd) = [] then [] else [dump_reports env pd]) \<and>
    arr_list (new_conns pd') = [] \<and> arr_list (conns_updates pd') = [] \<and>
    (\<forall>a d. heap pd a = Some d \<longrightarrow>
       (if to_purge d then heap pd' a = None else \<exists>d'. heap pd' a = Some d' \<and> \<not> pending_notification d'))"
proof -
  have i: "pd_inv {} pd" using reachable_inv [OF assms] by simp
  note m = pd_inv_mem [OF i]
  have e: "cur_items (new_conns pd) = length (arr_list (new_conns pd))" "cur_items (conns_updates pd) = length (arr_list (conns_updates pd))"
    using mem_okD(5,6) [OF m] by (simp_all add: arr_ok_def)
  show ?thesis
  proof (cases "arr_list (new_conns pd) = [] \<and> arr_list (conns_updates pd) = []")
    case True
    then have "queued pd = []" by (simp add: queued_def)
    then have "\<not> to_purge d \<and> \<not> pending_notification d" if "heap pd a = Some d" for a d
      using pd_inv_conn [OF i that] by (auto simp: conn_inv_def)
    then show ?thesis using True e by (auto simp: dump_connections_def)
  next
    case False
    then have c: "cur_items (new_conns pd) \<noteq> 0 \<or> cur_items (conns_updates pd) \<noteq> 0" using e by simp
    obtain h where h: "dump_and_clear False env pd =
        Some (pd\<lparr>heap := h, new_conns := no_conns, conns_updates := no_conns, sent := sent pd @ [dump_reports env pd]\<rparr>)"
      "\<forall>a. a \<notin> set (queued pd) \<longrightarrow> h a = heap pd a"
      "\<forall>a \<in> set (queued pd). \<exists>d. heap pd a = Some d \<and>
        (if False \<or> to_purge d then h a = None else \<exists>d'. h a = Some d' \<and> dumped_conn d d')"
      by (rule dump_and_clear_spec [OF m assms(2), of False])
    let ?pd1 = "pd\<lparr>heap := h, new_conns := no_conns, conns_updates := no_conns, sent := sent pd @ [dump_reports env pd]\<rparr>"
    have eq: "dump_connections env pd = Some (?pd1\<lparr>last_connections_dump := now_ms ?pd1,
        next_connections_dump := now_ms ?pd1 + CONNECTION_DUMP_UPDATE_FREQUENCY_MS, netd_resolve_waiting := 0\<rparr>)"
      unfolding dump_connections_def if_P [OF c] dump_and_clear_def [symmetric] h(1) bind.simps ..
    have "if to_purge d then h a = None else \<exists>d'. h a = Some d' \<and> \<not> pending_notification d'" if d: "heap pd a = Some d" for a d
    proof (cases "a \<in> set (queued pd)")
      case True
      with bspec [OF h(3) True] d show ?thesis by (auto simp: dumped_conn_def)
    next
      case False
      with h(2) d pd_inv_conn [OF i d] show ?thesis by (auto simp: conn_inv_def)
    qed
    with eq False show ?thesis by (auto simp: arr_list_def no_conns_def)
  qed
qed

theorem dump_complete_witness:
  "\<exists>pd'. dump_connections sample_env ((pcapdroid_init sample_cfg False False 0 False)
    \<lparr>ip_to_host := \<lparr>il_max_size = MAX_HOST_LRU_SIZE, il_cache = []\<rparr>, last_connections_dump := 0,
     next_connections_dump := 0 + 500, now_ms := 0\<rparr>) = Some pd' \<and> arr_list (new_conns pd') = []"
  using dump_complete [OF start_reachable [where env = sample_env and p = "sample_prefs\<lparr>dp_enabled := False\<rparr>" and
      malware = False and c = sample_cfg and fc = False and max_pkts = 0 and reload = False and now = 0 and now' = 0]]
  by (auto simp: sample_env_def)

end
