(* ===== verification/Tcp_Status.thy ===== *)
theory Tcp_Status
  imports Capture_Libpcap
begin

text \<open>
  The TCP state machine of a captured connection (\<open>update_connection_status\<close> of \<^verbatim>\<open>core/capture_libpcap.c\<close>),
  run over a whole sequence of packets, against a specification of when a connection is over.
\<close>

section \<open>Runs\<close>

text \<open>Flags, direction and payload length of each unfragmented packet; a closed connection no longer changes.\<close>

type_synonym tcp_pkt = "u8 \<times> bool \<times> nat"

fun tcp_run :: "tcp_pkt list \<Rightarrow> pd_conn \<Rightarrow> pd_conn" where
  "tcp_run [] d = d"
| "tcp_run ((th, dir, l7_len) # pkts) d = tcp_run pkts (if closed (status d) then d else tcp_status th dir l7_len d)"

lemma tcp_run_snoc: "tcp_run (pkts @ [(th, dir, n)]) d =
  (if closed (status (tcp_run pkts d)) then tcp_run pkts d else tcp_status th dir n (tcp_run pkts d))"
  by (induction pkts d rule: tcp_run.induct) simp_all

section \<open>Specification\<close>

definition has_flags :: "u8 \<Rightarrow> tcp_pkt \<Rightarrow> bool" where
  "has_flags f p \<longleftrightarrow> fst p AND f \<noteq> 0"

definition sent_flags :: "u8 \<Rightarrow> bool \<Rightarrow> tcp_pkt list \<Rightarrow> bool" where
  "sent_flags f dir pkts \<longleftrightarrow> (\<exists>p \<in> set pkts. fst (snd p) = dir \<and> has_flags f p)"

text \<open>Both peers have sent FIN, and a later packet carries an ACK.\<close>

definition both_fin :: "tcp_pkt list \<Rightarrow> bool" where
  "both_fin pkts \<longleftrightarrow> sent_flags TH_FIN False pkts \<and> sent_flags TH_FIN True pkts"

definition fin_acked :: "tcp_pkt list \<Rightarrow> bool" where
  "fin_acked pkts \<longleftrightarrow> (\<exists>j < length pkts. both_fin (take j pkts) \<and> has_flags TH_ACK (pkts ! j))"

definition was_reset :: "tcp_pkt list \<Rightarrow> bool" where
  "was_reset pkts \<longleftrightarrow> (\<exists>p \<in> set pkts. has_flags TH_RST p)"

lemma spec_snoc:
  "sent_flags f dir (pkts @ [p]) \<longleftrightarrow> sent_flags f dir pkts \<or> (fst (snd p) = dir \<and> has_flags f p)"
  "was_reset (pkts @ [p]) \<longleftrightarrow> was_reset pkts \<or> has_flags TH_RST p"
  by (auto simp: sent_flags_def was_reset_def)

lemma fin_acked_snoc: "fin_acked (pkts @ [p]) \<longleftrightarrow> fin_acked pkts \<or> (both_fin pkts \<and> has_flags TH_ACK p)"
proof -
  have "(\<exists>j < Suc (length pkts). P j) \<longleftrightarrow> (\<exists>j < length pkts. P j) \<or> P (length pkts)" for P by (auto simp: less_Suc_eq)
  then show ?thesis unfolding fin_acked_def by (auto simp: nth_append)
qed

section \<open>Refinement\<close>

lemma flag_or: "(a OR b) AND f \<noteq> 0 \<longleftrightarrow> a AND f \<noteq> 0 \<or> b AND (f :: u8) \<noteq> 0"
  unfolding bit.conj_disj_distrib2 or_eq_0_iff by blast

lemma fin_odd: "x AND TH_FIN \<noteq> 0 \<longleftrightarrow> odd x"
  by (simp add: and_one_eq even_iff_mod_2_eq_zero)

lemma fin_and: "(a AND b) AND TH_FIN \<noteq> 0 \<longleftrightarrow> a AND TH_FIN \<noteq> 0 \<and> b AND TH_FIN \<noteq> 0"
  unfolding fin_odd by (simp add: even_and_iff)

text \<open>What a connection that is not over remembers of the packets seen.\<close>

definition tcp_tracks :: "tcp_pkt list \<Rightarrow> pd_conn \<Rightarrow> bool" where
  "tcp_tracks pkts d \<longleftrightarrow> (tcp_flags0 d AND TH_FIN \<noteq> 0 \<longleftrightarrow> sent_flags TH_FIN False pkts) \<and>
     (tcp_flags1 d AND TH_FIN \<noteq> 0 \<longleftrightarrow> sent_flags TH_FIN True pkts) \<and> (last_ack d \<noteq> 0 \<longleftrightarrow> both_fin pkts)"

lemma tcp_status_tracks:
  assumes t: "tcp_tracks pkts d" and o: "\<not> closed (status d)"
  shows "closed (status (tcp_status th dir n d)) \<longleftrightarrow> has_flags TH_RST (th, dir, n) \<or> both_fin pkts \<and> has_flags TH_ACK (th, dir, n)"
    and "\<not> closed (status (tcp_status th dir n d)) \<Longrightarrow> tcp_tracks (pkts @ [(th, dir, n)]) (tcp_status th dir n d)"
proof -
  define e where "e = (if dir then d\<lparr>tcp_flags1 := tcp_flags1 d OR th\<rparr> else d\<lparr>tcp_flags0 := tcp_flags0 d OR th\<rparr>)"
  have f: "tcp_flags0 e AND TH_FIN \<noteq> 0 \<longleftrightarrow> sent_flags TH_FIN False (pkts @ [(th, dir, n)])"
    "tcp_flags1 e AND TH_FIN \<noteq> 0 \<longleftrightarrow> sent_flags TH_FIN True (pkts @ [(th, dir, n)])"
    using t by (auto simp: e_def tcp_tracks_def spec_snoc flag_or has_flags_def)
  have e: "status e = status d" "last_ack e = last_ack d" by (simp_all add: e_def)
  have l: "last_ack e \<noteq> 0 \<longleftrightarrow> both_fin pkts" using t by (simp add: e tcp_tracks_def)
  have both: "(tcp_flags0 e AND tcp_flags1 e) AND TH_FIN \<noteq> 0 \<longleftrightarrow> both_fin (pkts @ [(th, dir, n)])"
    unfolding fin_and both_fin_def f ..
  have mono: "both_fin pkts \<Longrightarrow> both_fin (pkts @ [(th, dir, n)])" by (simp add: both_fin_def spec_snoc)
  have s: "tcp_status th dir n d =
      (if th AND TH_RST \<noteq> 0 then e\<lparr>status := CONN_STATUS_RESET\<rparr>
       else if both_fin (pkts @ [(th, dir, n)])
       then if last_ack e = 0 then e\<lparr>last_ack := 1\<rparr>
            else if th AND TH_ACK \<noteq> 0 then e\<lparr>status := CONN_STATUS_CLOSED\<rparr> else e
       else if status e < CONN_STATUS_CONNECTED
       then if 0 < n \<or> (tcp_flags0 e AND tcp_flags1 e) AND (TH_SYN OR TH_ACK) = TH_SYN OR TH_ACK
            then e\<lparr>status := CONN_STATUS_CONNECTED\<rparr> else e\<lparr>status := CONN_STATUS_CONNECTING\<rparr>
       else e)"
    unfolding tcp_status_def Let_def e_def [symmetric] both ..
  have o': "\<not> closed (status e)" using o unfolding e .
  show "closed (status (tcp_status th dir n d)) \<longleftrightarrow> has_flags TH_RST (th, dir, n) \<or> both_fin pkts \<and> has_flags TH_ACK (th, dir, n)"
    using l o' mono unfolding s has_flags_def by auto
  assume "\<not> closed (status (tcp_status th dir n d))"
  then show "tcp_tracks (pkts @ [(th, dir, n)]) (tcp_status th dir n d)"
    using l f mono unfolding s tcp_tracks_def by (auto split: if_splits)
qed

lemma tcp_run_invariant:
  assumes "tcp_tracks [] d" "\<not> closed (status d)"
  shows "(closed (status (tcp_run pkts d)) \<longleftrightarrow> was_reset pkts \<or> fin_acked pkts) \<and>
    (\<not> closed (status (tcp_run pkts d)) \<longrightarrow> tcp_tracks pkts (tcp_run pkts d))"
proof (induction pkts rule: rev_induct)
  case Nil
  then show ?case using assms by (simp add: was_reset_def fin_acked_def)
next
  case (snoc p pkts)
  obtain th dir n where p: "p = (th, dir, n)" by (cases p)
  show ?case
  proof (cases "closed (status (tcp_run pkts d))")
    case True
    with snoc show ?thesis unfolding p tcp_run_snoc if_P [OF True] spec_snoc fin_acked_snoc by blast
  next
    case False
    with snoc have t: "tcp_tracks pkts (tcp_run pkts d)" and n: "\<not> (was_reset pkts \<or> fin_acked pkts)" by blast+
    from tcp_status_tracks [OF t False, of th dir n] n show ?thesis
      unfolding p tcp_run_snoc if_not_P [OF False] spec_snoc fin_acked_snoc by blast
  qed
qed

text \<open>
  C5: the TCP state machine closes a connection exactly when it should. For a connection without history and any
  sequence of packets, it ends up closed (or reset) if and only if some packet carried RST, or both peers have sent
  FIN and a later packet carried ACK, whatever the order and the direction of the packets; and further packets do
  not change a closed connection.
\<close>

theorem tcp_close_exact:
  assumes "tcp_flags0 d = 0" "tcp_flags1 d = 0" "last_ack d = 0" "status d = CONN_STATUS_NEW"
  shows "(closed (status (tcp_run pkts d)) \<longleftrightarrow> was_reset pkts \<or> fin_acked pkts) \<and>
    (closed (status (tcp_run pkts d)) \<longrightarrow> tcp_run (pkts @ rest) d = tcp_run pkts d)"
proof
  have "tcp_tracks [] d" "\<not> closed (status d)" using assms by (simp_all add: tcp_tracks_def sent_flags_def both_fin_def)
  from tcp_run_invariant [OF this] show "closed (status (tcp_run pkts d)) \<longleftrightarrow> was_reset pkts \<or> fin_acked pkts" by blast
  have "closed (status e) \<Longrightarrow> tcp_run rest e = e" for e by (induction rest e rule: tcp_run.induct) simp_all
  moreover have "tcp_run (pkts @ rest) d = tcp_run rest (tcp_run pkts d)" by (induction pkts d rule: tcp_run.induct) simp_all
  ultimately show "closed (status (tcp_run pkts d)) \<longrightarrow> tcp_run (pkts @ rest) d = tcp_run pkts d" by simp
qed

theorem tcp_close_exact_witness:
  "closed (status (tcp_run [(TH_SYN, False, 0), (TH_SYN OR TH_ACK, True, 0), (TH_ACK, False, 0),
     (TH_FIN OR TH_ACK, True, 0), (TH_FIN OR TH_ACK, False, 0), (TH_ACK, True, 0)] zero_conn))"
proof (subst conjunct1 [OF tcp_close_exact], simp_all add: zero_conn_def)
  let ?pkts = "[(TH_SYN, False, 0), (18, True, 0), (TH_ACK, False, 0), (TH_FIN OR TH_ACK, True, 0), (TH_FIN OR TH_ACK, False, 0), (TH_ACK, True, 0 :: nat)]"
  have "both_fin (take 5 ?pkts)" "has_flags TH_ACK (?pkts ! 5)" by (simp_all add: both_fin_def sent_flags_def has_flags_def)
  then have "fin_acked ?pkts" unfolding fin_acked_def by (intro exI [of _ 5]) simp
  then show "was_reset [(TH_SYN, False, 0), (18, True, 0), (TH_ACK, False, 0), (17, True, 0), (17, False, 0), (TH_ACK, True, 0)] \<or>
    fin_acked [(TH_SYN, False, 0), (18, True, 0), (TH_ACK, False, 0), (17, True, 0), (17, False, 0), (TH_ACK, True, 0)]" by simp
qed

end
