(* ===== verification/Conn_Report.thy ===== *)
theory Conn_Report
  imports Pcapdroid
begin

text \<open>
  What crosses the JNI boundary: the status word that \<open>getConnUpdate\<close> (\<^verbatim>\<open>core/jni_impl.c\<close>) packs and
  \<open>processUpdate\<close> (\<^verbatim>\<open>ConnectionDescriptor.kt\<close>) takes apart, and the TCP flags of the two directions.
\<close>

record status_fields =
  sf_status :: int
  sf_portMappingApplied :: bool
  sf_decryptionIgnored :: bool
  sf_netdBlockMissed :: bool
  sf_isBlocked :: bool
  sf_blacklistedHost :: bool
  sf_blacklistedIp :: bool

definition processUpdate_status :: "int \<Rightarrow> status_fields" where
  "processUpdate_status s =
     \<lparr>sf_status = s AND 0x00FF, sf_portMappingApplied = (s AND 0x2000 \<noteq> 0), sf_decryptionIgnored = (s AND 0x1000 \<noteq> 0),
      sf_netdBlockMissed = (s AND 0x0800 \<noteq> 0), sf_isBlocked = (s AND 0x0400 \<noteq> 0),
      sf_blacklistedHost = (s AND 0x0200 \<noteq> 0), sf_blacklistedIp = (s AND 0x0100 \<noteq> 0)\<rparr>"

lemma and_mask_bit: "s AND push_bit n 1 \<noteq> 0 \<longleftrightarrow> bit (s :: int) n"
  by (simp add: bit_iff_and_push_bit_not_eq_0)

lemma and_masks:
  "(s :: int) AND 0x2000 \<noteq> 0 \<longleftrightarrow> bit s 13" "s AND 0x1000 \<noteq> 0 \<longleftrightarrow> bit s 12" "s AND 0x0800 \<noteq> 0 \<longleftrightarrow> bit s 11"
  "s AND 0x0400 \<noteq> 0 \<longleftrightarrow> bit s 10" "s AND 0x0200 \<noteq> 0 \<longleftrightarrow> bit s 9" "s AND 0x0100 \<noteq> 0 \<longleftrightarrow> bit s 8"
  using and_mask_bit [of s 13] and_mask_bit [of s 12] and_mask_bit [of s 11] and_mask_bit [of s 10] and_mask_bit [of s 9]
    and_mask_bit [of s 8] by (simp_all add: push_bit_eq_mult)

lemma status_byte: "int (status_num s) AND 0xFF = int (status_num s)" "8 \<le> k \<Longrightarrow> \<not> bit (int (status_num s)) k"
proof -
  show "int (status_num s) AND 0xFF = int (status_num s)" by (cases s) simp_all
  have "status_num s < 2 ^ 8" by (cases s) simp_all
  moreover assume "8 \<le> k"
  then have "(2 :: nat) ^ 8 \<le> 2 ^ k" by (rule power_increasing) simp
  ultimately have "status_num s < 2 ^ k" by linarith
  then have "int (status_num s) div 2 ^ k = 0" by (simp add: div_pos_pos_trivial flip: of_nat_less_iff)
  then show "\<not> bit (int (status_num s)) k" unfolding bit_iff_odd by simp
qed


lemma tcp_flags_roundtrip:
  "us_tcp_flags (conn_update_stats c d) div 256 = uint (tcp_flags0 d) \<and> us_tcp_flags (conn_update_stats c d) mod 256 = uint (tcp_flags1 d)"
proof -
  have "push_bit 8 (uint (tcp_flags0 d)) OR uint (tcp_flags1 d) = uint (tcp_flags0 d) * 256 + uint (tcp_flags1 d)"
  proof -
    have "push_bit 8 (uint (tcp_flags0 d)) AND uint (tcp_flags1 d) = 0"
      by (rule bit_eqI) (auto simp: bit_and_iff bit_push_bit_iff bit_uint_iff)
    then show ?thesis using disjunctive_add_eq_or [of "push_bit 8 (uint (tcp_flags0 d))" "uint (tcp_flags1 d)"] by (simp add: push_bit_eq_mult)
  qed
  moreover have "uint (tcp_flags1 d) < 256" "0 \<le> uint (tcp_flags1 d)" using uint_lt2p [of "tcp_flags1 d"] by simp_all
  ultimately show ?thesis by (simp add: conn_update_stats_def)
qed

end
