(* ===== verification/Pcapd_Args.thy ===== *)
theory Pcapd_Args
  imports Cstr
begin

text \<open>
  The command line of the root daemon: how the capture (\<^verbatim>\<open>core/capture_libpcap.c\<close>) checks and formats the
  arguments of \<open>pcapd\<close>, which a shell started as root splits again, and how the daemon (\<^verbatim>\<open>pcapd/pcapd.c\<close>)
  reads them.
\<close>

section \<open>Decimal numbers\<close>

text \<open>\<open>%u\<close> and \<open>%d\<close>.\<close>

fun dec_nat :: "nat \<Rightarrow> string" where
  "dec_nat n = (if n < 10 then [char_of (48 + n)] else dec_nat (n div 10) @ [char_of (48 + n mod 10)])"

declare dec_nat.simps [simp del]

definition dec_int :: "int \<Rightarrow> string" where
  "dec_int i = (if i < 0 then CHR ''-'' # dec_nat (nat (- i)) else dec_nat (nat i))"

section \<open>Arguments of the daemon\<close>

definition is_alnum :: "char \<Rightarrow> bool" where
  "is_alnum c \<longleftrightarrow> is_digit c \<or> (65 \<le> (of_char c :: nat) \<and> (of_char c :: nat) \<le> 90) \<or> (97 \<le> (of_char c :: nat) \<and> (of_char c :: nat) \<le> 122)"

definition valid_ifname :: "string \<Rightarrow> bool" where
  "valid_ifname name \<longleftrightarrow> name \<noteq> [] \<and> length name < 16 \<and>
     (\<forall>c \<in> set name. c = CHR ''.'' \<or> c = CHR ''_'' \<or> c = CHR ''@'' \<or> is_alnum c)"

definition valid_bpf :: "string \<Rightarrow> bool" where
  "valid_bpf bpf \<longleftrightarrow> (\<forall>c \<in> set bpf. c \<notin> {CHR ''$'', CHR 0x27, CHR 0x22, CHR 0x60, CHR 0x0A, CHR 0x0D})"

text \<open>The list of UIDs, in a buffer of \<open>cap\<close> bytes: \<open>off\<close> is the length that \<open>snprintf\<close> reports, cut or not.\<close>

fun uids_loop :: "nat \<Rightarrow> int list \<Rightarrow> bool \<Rightarrow> string \<Rightarrow> nat \<Rightarrow> string" where
  "uids_loop cap [] first buf off = buf"
| "uids_loop cap (u # us) first buf off =
     (if off < cap
      then let s = (if first then dec_int u else CHR '','' # dec_int u)
           in uids_loop cap us False (buf @ take (cap - off - 1) s) (off + length s)
      else buf)"

definition get_uids_filter :: "bool \<Rightarrow> int list \<Rightarrow> nat \<Rightarrow> string" where
  "get_uids_filter tls_enabled uids buf_size =
     (if tls_enabled \<or> uids = [] then ''-1'' else uids_loop buf_size uids True [] 0)"

text \<open>
  The checks of \<open>connectPcapd\<close> and the arguments it passes to the daemon, cut to 255 characters. The
  error is the one reported; \<open>file_ok\<close> is the result of \<open>access\<close>.
\<close>

datatype connect_error = BPF_suspicious | PCAP_DOES_NOT_EXIST | Invalid_capture_interface

definition snprintf :: "nat \<Rightarrow> string \<Rightarrow> string" where
  "snprintf cap s = take (cap - 1) s"

definition pcapd_args :: "nat \<Rightarrow> string \<Rightarrow> string \<Rightarrow> string \<Rightarrow> bool \<Rightarrow> string" where
  "pcapd_args own_uid ifname uids bpf daemonize =
     ''-l pcapd.log -L '' @ dec_nat own_uid @ '' -i '' @ [CHR 0x27] @ ifname @ [CHR 0x27] @ '' -u '' @ uids @ '' -t -b '' @
     [CHR 0x27] @ bpf @ [CHR 0x27] @ (if daemonize then '' -d'' else [])"

definition connect_args ::
    "nat \<Rightarrow> bool \<Rightarrow> bool \<Rightarrow> bool \<Rightarrow> string \<Rightarrow> string \<Rightarrow> int list \<Rightarrow> connect_error + string \<times> bool" where
  "connect_args own_uid file_capture file_ok tls_enabled ifname bpf uids =
     (if bpf \<noteq> [] \<and> \<not> valid_bpf bpf then Inl BPF_suspicious
      else if file_capture \<and> \<not> file_ok then Inl PCAP_DOES_NOT_EXIST
      else if \<not> file_capture \<and> \<not> valid_ifname ifname then Inl Invalid_capture_interface
      else let daemonize = (\<not> file_capture)
           in Inr (snprintf 256 (pcapd_args own_uid ifname (get_uids_filter tls_enabled uids 128) bpf daemonize), daemonize))"

text \<open>The \<open>iptables\<close> rule that redirects TCP connections to the decryption proxy.\<close>

definition get_mitm_redirection_args :: "int \<Rightarrow> int \<Rightarrow> bool \<Rightarrow> string" where
  "get_mitm_redirection_args mitm_addon_uid uid add =
     ''-t nat -'' @ (if add then ''I'' else ''D'') @ '' OUTPUT -p tcp -m owner '' @
     (if 0 \<le> uid then ''--uid-owner '' @ dec_int uid else ''! --uid-owner '' @ dec_int mitm_addon_uid) @
     '' -j REDIRECT --to 7780''"

section \<open>Exit status of the daemon\<close>

datatype pcapd_rv =
    PCAPD_OK | PCAPD_ERROR | PCAPD_INTERFACE_OPEN_FAILED | PCAPD_NETLINK_ERROR | PCAPD_PCAP_READ_ERROR
  | PCAPD_SOCKET_WRITE_ERROR | PCAPD_UNSUPPORTED_DATALINK | PCAPD_EOF

fun process_pcapd_rv :: "bool \<Rightarrow> pcapd_rv \<Rightarrow> string option" where
  "process_pcapd_rv file_capture PCAPD_OK = None"
| "process_pcapd_rv file_capture PCAPD_INTERFACE_OPEN_FAILED =
     Some (if file_capture then ''Invalid PCAP file'' else ''Could not open the capture interface'')"
| "process_pcapd_rv file_capture PCAPD_UNSUPPORTED_DATALINK = Some ''Unsupported datalink''"
| "process_pcapd_rv file_capture PCAPD_PCAP_READ_ERROR = Some ''PCAP read error''"
| "process_pcapd_rv file_capture PCAPD_SOCKET_WRITE_ERROR = None"
| "process_pcapd_rv file_capture PCAPD_ERROR = Some ''pcapd daemon exited with code 1''"
| "process_pcapd_rv file_capture PCAPD_NETLINK_ERROR = Some ''pcapd daemon exited with code 3''"
| "process_pcapd_rv file_capture PCAPD_EOF = Some ''pcapd daemon exited with code 7''"

section \<open>Arguments as the daemon reads them\<close>

text \<open>\<open>strtok_r\<close> with one separator: the parts between separators, empty ones skipped.\<close>

fun split_on :: "char \<Rightarrow> string \<Rightarrow> string list" where
  "split_on sep [] = [[]]"
| "split_on sep (c # cs) =
     (if c = sep then [] # split_on sep cs
      else case split_on sep cs of t # ts \<Rightarrow> (c # t) # ts | [] \<Rightarrow> [[c]])"

definition tokens :: "char \<Rightarrow> string \<Rightarrow> string list" where
  "tokens sep s = filter (\<lambda>t. t \<noteq> []) (split_on sep s)"

text \<open>The filter without its terminator -1; \<open>Inl\<close> ends the process.\<close>

fun parse_uids :: "string list \<Rightarrow> pcapd_rv + int list" where
  "parse_uids [] = Inr []"
| "parse_uids (token # ts) =
     (let uid = atoi token
      in if uid < -1 then Inl PCAPD_ERROR
         else case parse_uids ts of
                Inl e \<Rightarrow> Inl e
              | Inr us \<Rightarrow> Inr (if uid \<noteq> -1 then uid # us else us))"

definition parse_uid_filter :: "bool \<Rightarrow> string \<Rightarrow> pcapd_rv + int list" where
  "parse_uid_filter malloc_ok s = (if \<not> malloc_ok then Inl PCAPD_ERROR else parse_uids (tokens (CHR '','') s))"

text \<open>
  The loop does not advance its pointer; \<open>None\<close> is not returning.
\<close>

partial_function (option) matches_loop :: "int list \<Rightarrow> int \<Rightarrow> bool option" where
  "matches_loop fs uid =
     (case fs of
        [] \<Rightarrow> Some False
      | f # _ \<Rightarrow> if f = uid then Some True else matches_loop fs uid)"

definition matches_uid_filter :: "int list option \<Rightarrow> int \<Rightarrow> bool option" where
  "matches_uid_filter flt uid =
     (case flt of
        None \<Rightarrow> Some True
      | Some fs \<Rightarrow> if fs = [] then Some True else matches_loop fs uid)"

section \<open>Configuration of the daemon\<close>

abbreviation PCAPD_MAX_INTERFACES :: nat where "PCAPD_MAX_INTERFACES \<equiv> 16"

record pcapd_conf =
  ifnames :: "string list"
  bpf :: "string option"
  log_file :: "string option"
  uid_filter :: "int list option"
  inet_ifid :: int
  dump_datalink :: bool
  daemonize :: bool
  no_client :: bool
  quiet :: bool
  log_uid :: int

definition init_conf :: pcapd_conf where
  "init_conf = \<lparr>ifnames = [], bpf = None, log_file = None, uid_filter = None, inet_ifid = -1, dump_datalink = False,
     daemonize = False, no_client = False, quiet = False, log_uid = 0\<rparr>"

text \<open>
  One option that \<open>getopt\<close> returns, with its argument; options the string \<^verbatim>\<open>hdtni:u:b:l:L:\<close> does not name
  come back as \<open>?\<close>.
\<close>

definition getopt_char :: "char \<Rightarrow> char" where
  "getopt_char c = (if c \<in> set ''hdtniublL'' then c else CHR ''?'')"

definition add_interface :: "string \<Rightarrow> pcapd_conf \<Rightarrow> pcapd_rv + pcapd_conf" where
  "add_interface name conf =
     (if PCAPD_MAX_INTERFACES \<le> length (ifnames conf) then Inl PCAPD_ERROR
      else if name = ''@inet'' \<and> inet_ifid conf \<noteq> -1 then Inl PCAPD_ERROR
      else Inr (conf\<lparr>inet_ifid := (if name = ''@inet'' then int (length (ifnames conf)) else inet_ifid conf),
                     ifnames := ifnames conf @ [name]\<rparr>))"

definition parse_opt :: "char \<times> string \<Rightarrow> pcapd_conf \<Rightarrow> pcapd_rv + pcapd_conf" where
  "parse_opt opt conf = (case opt of (c0, optarg) \<Rightarrow>
     let c = getopt_char c0
     in if c = CHR ''i'' then add_interface optarg conf
        else if c = CHR ''d'' then Inr (conf\<lparr>daemonize := True\<rparr>)
        else if c = CHR ''t'' then Inr (conf\<lparr>dump_datalink := True\<rparr>)
        else if c = CHR ''n'' then Inr (conf\<lparr>no_client := True\<rparr>)
        else if c = CHR ''u'' then
          (case parse_uid_filter True optarg of Inl e \<Rightarrow> Inl e | Inr us \<Rightarrow> Inr (conf\<lparr>uid_filter := Some us\<rparr>))
        else if c = CHR ''b'' then Inr (conf\<lparr>bpf := Some optarg\<rparr>)
        else if c = CHR ''l'' then Inr (conf\<lparr>log_file := Some optarg\<rparr>)
        else if c = CHR ''L'' then Inr (conf\<lparr>log_uid := atoi optarg\<rparr>)
        else if c = CHR ''q'' then Inr (conf\<lparr>quiet := True\<rparr>)
        else Inl PCAPD_ERROR)"

fun parse_opts :: "(char \<times> string) list \<Rightarrow> pcapd_conf \<Rightarrow> pcapd_rv + pcapd_conf" where
  "parse_opts [] conf = Inr conf"
| "parse_opts (opt # opts) conf = (case parse_opt opt conf of Inl e \<Rightarrow> Inl e | Inr conf' \<Rightarrow> parse_opts opts conf')"

definition parse_args :: "(char \<times> string) list \<Rightarrow> bool \<Rightarrow> pcapd_rv + pcapd_conf" where
  "parse_args opts positional =
     (case parse_opts opts init_conf of
        Inl e \<Rightarrow> Inl e
      | Inr conf \<Rightarrow>
          if positional then Inl PCAPD_ERROR
          else Inr (if ifnames conf = [] then conf\<lparr>inet_ifid := 0, ifnames := [''@inet'']\<rparr> else conf))"

section \<open>Lemmas\<close>

lemma dec_nat_digits: "dec_nat n \<noteq> [] \<and> (\<forall>c \<in> set (dec_nat n). is_digit c)"
proof (induction n rule: dec_nat.induct)
  case (1 n)
  show ?case
  proof (cases "n < 10")
    case True
    then show ?thesis by (subst (1 2) dec_nat.simps) (simp add: is_digit_def of_char_of)
  next
    case False
    then show ?thesis using 1 by (subst (1 2) dec_nat.simps) (simp add: is_digit_def of_char_of)
  qed
qed

lemma digits_val_snoc: "digits_val (ds @ [c]) = digits_val ds * 10 + digit_val c"
  by (simp add: digits_val_def)

lemma digits_val_dec_nat: "digits_val (dec_nat n) = int n"
proof (induction n rule: dec_nat.induct)
  case (1 n)
  have d: "digit_val (char_of (48 + m)) = int m" if "m < 10" for m :: nat
  proof -
    have "(of_char (char_of (48 + m)) :: int) = int (of_char (char_of (48 + m)))" by (rule of_nat_of_char [symmetric])
    also have "\<dots> = int (48 + m)" using that by (simp only: of_char_of) simp
    finally show ?thesis by (simp add: digit_val_def)
  qed
  show ?case
  proof (cases "n < 10")
    case True
    then show ?thesis using d [of n] by (subst dec_nat.simps) (simp add: digits_val_def)
  next
    case False
    have "int n = int (n div 10) * 10 + int (n mod 10)" by presburger
    with False 1 d [of "n mod 10"] show ?thesis by (subst dec_nat.simps) (simp add: digits_val_snoc)
  qed
qed

lemma digit_not: "is_digit c \<Longrightarrow> c \<noteq> CHR ''-'' \<and> c \<noteq> CHR ''+'' \<and> c \<noteq> CHR '','' \<and> \<not> is_space c \<and> c \<noteq> CHR 0x27"
  by (auto simp: is_digit_def is_space_def)

lemma atoi_dec_int:
  assumes "0 \<le> u" "u < 2 ^ 31"
  shows "atoi (dec_int u) = u"
proof -
  let ?s = "dec_nat (nat u)"
  have d: "?s \<noteq> []" "\<forall>c \<in> set ?s. is_digit c" using dec_nat_digits [of "nat u"] by auto
  then have h: "is_digit (hd ?s)" by simp
  have "dropWhile is_space ?s = ?s" using d h digit_not [of "hd ?s"] by (cases ?s) auto
  moreover have tw: "takeWhile is_digit ?s = ?s" using d(2) by (simp add: takeWhile_eq_all_conv)
  moreover have "hd ?s \<noteq> CHR ''-''" "hd ?s \<noteq> CHR ''+''" using digit_not [OF h] by auto
  moreover have "to_int32 u = u" using assms by (simp add: to_int32_def signed_take_bit_int_eq_self)
  ultimately show ?thesis using assms d(1) by (simp add: atoi_def dec_int_def Let_def digits_val_dec_nat tw)
qed

lemma dec_int_chars: "0 \<le> u \<Longrightarrow> dec_int u \<noteq> [] \<and> (\<forall>c \<in> set (dec_int u). is_digit c)"
  using dec_nat_digits [of "nat u"] by (simp add: dec_int_def)

text \<open>The UIDs separated by commas.\<close>

fun join_uids :: "int list \<Rightarrow> string" where
  "join_uids [] = []"
| "join_uids [u] = dec_int u"
| "join_uids (u # us) = dec_int u @ CHR '','' # join_uids us"

lemma join_uids_concat: "join_uids (u # us) = dec_int u @ concat (map (\<lambda>v. CHR '','' # dec_int v) us)"
  by (induction us arbitrary: u) simp_all

lemma uids_loop_fits:
  "length buf + length (concat (map (\<lambda>v. CHR '','' # dec_int v) us)) < cap \<Longrightarrow>
     uids_loop cap us False buf (length buf) = buf @ concat (map (\<lambda>v. CHR '','' # dec_int v) us)"
proof (induction us arbitrary: buf)
  case (Cons u us)
  let ?s = "CHR '','' # dec_int u"
  have "length ?s \<le> cap - length buf - 1" using Cons.prems by simp
  then have "take (cap - length buf - 1) ?s = ?s" by simp
  with Cons.IH [of "buf @ ?s"] Cons.prems show ?case by (simp add: Let_def)
qed simp

lemma get_uids_filter_fits:
  assumes "us \<noteq> []" "length (join_uids us) < cap"
  shows "get_uids_filter False us cap = join_uids us"
proof -
  obtain u vs where us: "us = u # vs" using assms(1) by (cases us) auto
  have j: "join_uids us = dec_int u @ concat (map (\<lambda>v. CHR '','' # dec_int v) vs)"
    unfolding us by (rule join_uids_concat)
  with assms(2) have "take (cap - 1) (dec_int u) = dec_int u" "0 < cap" by auto
  with uids_loop_fits [of "dec_int u" vs cap] assms(2) show ?thesis by (simp add: get_uids_filter_def us j [unfolded us] Let_def)
qed

lemma split_on_nosep: "sep \<notin> set s \<Longrightarrow> split_on sep s = [s]"
  by (induction s) auto

lemma split_on_append: "sep \<notin> set s \<Longrightarrow> split_on sep (s @ sep # r) = s # split_on sep r"
  by (induction s) auto

lemma tokens_join:
  "\<forall>u \<in> set us. 0 \<le> u \<Longrightarrow> tokens (CHR '','') (join_uids us) = map dec_int us"
proof (induction us rule: join_uids.induct)
  case (2 u)
  then have c: "dec_int u \<noteq> []" "CHR '','' \<notin> set (dec_int u)" using dec_int_chars [of u] digit_not by auto
  show ?case using c by (simp add: tokens_def split_on_nosep)
next
  case (3 u v us)
  then have c: "dec_int u \<noteq> []" "CHR '','' \<notin> set (dec_int u)" using dec_int_chars [of u] digit_not by auto
  show ?case using 3 c by (simp add: tokens_def split_on_append)
qed (simp add: tokens_def)

lemma parse_uids_dec: "\<forall>u \<in> set us. 0 \<le> u \<and> u < 2 ^ 31 \<Longrightarrow> parse_uids (map dec_int us) = Inr us"
  by (induction us) (auto simp: atoi_dec_int Let_def)

text \<open>
  C34: the UID filter survives the command line. When decryption is off and the comma separated list fits the
  buffer of 128 bytes, the daemon reads back exactly the UIDs the capture was configured with.
\<close>

theorem uid_filter_roundtrip:
  assumes "us \<noteq> []" and "\<forall>u \<in> set us. 0 \<le> u \<and> u < 2 ^ 31" and "length (join_uids us) < 128"
  shows "parse_uid_filter True (get_uids_filter False us 128) = Inr us"
proof -
  have "\<forall>u \<in> set us. 0 \<le> u" using assms(2) by simp
  from tokens_join [OF this] show ?thesis
    by (simp add: get_uids_filter_fits [OF assms(1,3)] parse_uid_filter_def parse_uids_dec [OF assms(2)])
qed

theorem uid_filter_roundtrip_witness:
  "parse_uid_filter True (get_uids_filter False [10123, 1000] 128) = Inr [10123, 1000]"
  by (rule uid_filter_roundtrip) (simp_all add: dec_int_def dec_nat.simps)

lemma matches_loop_returns: "matches_loop fs uid = Some r \<Longrightarrow> fs = [] \<and> \<not> r \<or> fs \<noteq> [] \<and> hd fs = uid \<and> r"
proof (rule matches_loop.raw_induct [of "\<lambda>fs uid r. fs = [] \<and> \<not> r \<or> fs \<noteq> [] \<and> hd fs = uid \<and> r", rotated])
  show "matches_loop fs uid = Some r \<Longrightarrow> matches_loop fs uid = Some r" .
next
  fix f fs uid r
  assume IH: "\<And>fs uid r. f fs uid = Some r \<Longrightarrow> fs = [] \<and> \<not> r \<or> fs \<noteq> [] \<and> hd fs = uid \<and> r"
    and eq: "(case fs of [] \<Rightarrow> Some False | x # _ \<Rightarrow> if x = uid then Some True else f fs uid) = Some r"
  show "fs = [] \<and> \<not> r \<or> fs \<noteq> [] \<and> hd fs = uid \<and> r"
    using eq IH [of fs uid r] by (cases fs) (auto split: if_splits)
qed

lemma matches_loop_cases: "matches_loop fs uid = (if fs = [] then Some False else if hd fs = uid then Some True else None)"
proof (cases "matches_loop fs uid")
  case None
  then show ?thesis by (subst (asm) matches_loop.simps) (auto split: list.splits if_splits)
next
  case (Some r)
  with matches_loop_returns [OF Some] show ?thesis by auto
qed

text \<open>
  C35: when the UID filter of the daemon returns. Without a filter every packet passes; with one, the check returns
  only for packets of the first UID of the list, which pass. For any other packet it never returns, because its loop
  compares the first entry again and again: neither a packet of another application nor one of the second listed
  application is ever decided.
\<close>

theorem matches_uid_filter_returns:
  "matches_uid_filter flt uid =
     (case flt of
        None \<Rightarrow> Some True
      | Some [] \<Rightarrow> Some True
      | Some (u # us) \<Rightarrow> if uid = u then Some True else None)"
  by (auto simp: matches_uid_filter_def matches_loop_cases split: option.split list.split)

section \<open>Quoting\<close>

text \<open>What a shell sees outside single quotes, and whether a quote is left open at the end.\<close>

fun outside_quotes :: "bool \<Rightarrow> string \<Rightarrow> string \<times> bool" where
  "outside_quotes q [] = ([], q)"
| "outside_quotes q (c # cs) =
     (if c = CHR 0x27 then outside_quotes (\<not> q) cs
      else case outside_quotes q cs of (r, e) \<Rightarrow> (if q then r else c # r, e))"

lemma outside_append:
  "outside_quotes q (a @ b) = (case outside_quotes q a of (r1, e1) \<Rightarrow> case outside_quotes e1 b of (r2, e2) \<Rightarrow> (r1 @ r2, e2))"
  by (induction q a rule: outside_quotes.induct) (auto split: prod.splits)

lemma outside_plain: "CHR 0x27 \<notin> set s \<Longrightarrow> outside_quotes q s = (if q then [] else s, q)"
  by (induction s) auto

definition arg_char :: "char \<Rightarrow> bool" where
  "arg_char c \<longleftrightarrow> is_alnum c \<or> c = CHR '' '' \<or> c = CHR ''.'' \<or> c = CHR ''-'' \<or> c = CHR '',''"

lemma arg_char_simps:
  "is_digit c \<Longrightarrow> arg_char c" "arg_char c \<Longrightarrow> c \<noteq> CHR 0x27"
  by (auto simp: arg_char_def is_alnum_def is_digit_def)

lemma dec_int_arg: "c \<in> set (dec_int u) \<Longrightarrow> arg_char c"
  using dec_nat_digits [of "nat u"] dec_nat_digits [of "nat (- u)"]
  by (auto simp: dec_int_def arg_char_simps(1) split: if_splits) (simp_all add: arg_char_def)

lemma uids_loop_arg: "\<forall>c \<in> set buf. arg_char c \<Longrightarrow> \<forall>c \<in> set (uids_loop cap us first buf off). arg_char c"
proof (induction cap us first buf off rule: uids_loop.induct)
  case (2 cap u us first buf off)
  define s where "s = (if first then dec_int u else CHR '','' # dec_int u)"
  have "arg_char (CHR '','')" by (simp add: arg_char_def)
  then have "\<forall>c \<in> set s. arg_char c" using dec_int_arg by (auto simp: s_def)
  then have "\<forall>c \<in> set (buf @ take (cap - off - 1) s). arg_char c" using "2.prems" by (auto dest: in_set_takeD)
  with "2.IH" [OF _ s_def] "2.prems" show ?case by (simp add: s_def [symmetric] Let_def)
qed simp

lemma uids_filter_arg: "c \<in> set (get_uids_filter tls us cap) \<Longrightarrow> arg_char c"
proof (cases "tls \<or> us = []")
  case True
  assume "c \<in> set (get_uids_filter tls us cap)"
  moreover have "get_uids_filter tls us cap = ''-1''" using True by (simp add: get_uids_filter_def)
  ultimately have "c = CHR ''-'' \<or> c = CHR ''1''" by simp
  moreover have "arg_char (CHR ''-'')" "arg_char (CHR ''1'')" by (simp_all add: arg_char_def is_alnum_def is_digit_def)
  ultimately show ?thesis by blast
next
  case False
  assume "c \<in> set (get_uids_filter tls us cap)"
  then show ?thesis using False uids_loop_arg [of "[]" cap us True 0] by (simp add: get_uids_filter_def)
qed

lemma digit_chars: "char_of (48 :: nat) = CHR ''0''" "char_of (49 :: nat) = CHR ''1''" "char_of (53 :: nat) = CHR ''5''"
  by code_simp+

text \<open>
  C36: no command injection into the root shell. When a live capture passes the checks and its arguments are not cut,
  what the shell sees outside single quotes is a fixed command line whatever the interface name and the filter are;
  it consists of letters, digits, blanks, dots, dashes and commas, and no quote is left open. The two parameters
  stand between quotes, unchanged.
\<close>

theorem pcapd_args_no_injection:
  assumes "connect_args own_uid False file_ok tls ifname bpf_s us = Inr (args, dm)" and "length args < 255"
  shows "outside_quotes False args =
      (''-l pcapd.log -L '' @ dec_nat own_uid @ '' -i  -u '' @ get_uids_filter tls us 128 @ '' -t -b  -d'', False) \<and>
    (\<forall>c \<in> set (fst (outside_quotes False args)). arg_char c) \<and>
    (\<exists>pre mid post. args = pre @ [CHR 0x27] @ ifname @ [CHR 0x27] @ mid @ [CHR 0x27] @ bpf_s @ [CHR 0x27] @ post)"
proof -
  have v: "valid_ifname ifname" "bpf_s = [] \<or> valid_bpf bpf_s" and dm: "dm"
    and a: "args = snprintf 256 (pcapd_args own_uid ifname (get_uids_filter tls us 128) bpf_s True)"
    using assms(1) by (auto simp: connect_args_def Let_def split: if_splits)
  have args: "args = pcapd_args own_uid ifname (get_uids_filter tls us 128) bpf_s True"
    using assms(2) unfolding a snprintf_def by simp
  have "\<not> is_alnum (CHR 0x27)" by (simp add: is_alnum_def is_digit_def)
  moreover have "CHR 0x27 \<noteq> CHR ''.''" "CHR 0x27 \<noteq> CHR ''_''" "CHR 0x27 \<noteq> CHR ''@''" by simp_all
  ultimately have q1: "CHR 0x27 \<notin> set ifname" using v(1) unfolding valid_ifname_def by metis
  have q4: "CHR 0x27 \<notin> set bpf_s"
  proof (cases "bpf_s = []")
    case False
    then have "valid_bpf bpf_s" using v(2) by blast
    then show ?thesis unfolding valid_bpf_def by blast
  qed simp
  have q2: "CHR 0x27 \<notin> set (get_uids_filter tls us 128)" using uids_filter_arg arg_char_simps(2) by blast
  have q3: "CHR 0x27 \<notin> set (dec_nat own_uid)" using dec_nat_digits [of own_uid] digit_not by blast
  note q = q1 q2 q3 q4
  have o: "outside_quotes False args =
      (''-l pcapd.log -L '' @ dec_nat own_uid @ '' -i  -u '' @ get_uids_filter tls us 128 @ '' -t -b  -d'', False)"
    unfolding args pcapd_args_def by (simp add: outside_append outside_plain q)
  moreover have "\<forall>c \<in> set (fst (outside_quotes False args)). arg_char c"
  proof -
    have "\<forall>c \<in> set ''-l pcapd.log -L '' \<union> set '' -i  -u '' \<union> set '' -t -b  -d''. arg_char c"
      by (simp add: arg_char_def is_alnum_def is_digit_def)
    moreover have "\<forall>c \<in> set (get_uids_filter tls us 128). arg_char c" using uids_filter_arg by blast
    moreover have "\<forall>c \<in> set (dec_nat own_uid). arg_char c" using dec_nat_digits [of own_uid] arg_char_simps(1) by blast
    ultimately show ?thesis unfolding o fst_conv set_append ball_Un by blast
  qed
  moreover have "\<exists>pre mid post. args = pre @ [CHR 0x27] @ ifname @ [CHR 0x27] @ mid @ [CHR 0x27] @ bpf_s @ [CHR 0x27] @ post"
    unfolding args pcapd_args_def
    by (intro exI [of _ "''-l pcapd.log -L '' @ dec_nat own_uid @ '' -i ''"] exI [of _ "'' -u '' @ get_uids_filter tls us 128 @ '' -t -b ''"]
        exI [of _ "'' -d''"]) simp
  ultimately show ?thesis by blast
qed

theorem pcapd_args_no_injection_witness:
  "connect_args 10050 False True False ''wlan0'' ''port 53'' [] =
     Inr (''-l pcapd.log -L 10050 -i '' @ [CHR 0x27] @ ''wlan0'' @ [CHR 0x27] @ '' -u -1 -t -b '' @ [CHR 0x27] @ ''port 53'' @ [CHR 0x27] @ '' -d'', True) \<and>
   snd (outside_quotes False (''-l pcapd.log -L 10050 -i '' @ [CHR 0x27] @ ''wlan0'' @ [CHR 0x27] @ '' -u -1 -t -b '' @ [CHR 0x27] @ ''port 53'' @ [CHR 0x27] @ '' -d'')) = False"
proof -
  have c: "connect_args 10050 False True False ''wlan0'' ''port 53'' [] =
     Inr (''-l pcapd.log -L 10050 -i '' @ [CHR 0x27] @ ''wlan0'' @ [CHR 0x27] @ '' -u -1 -t -b '' @ [CHR 0x27] @ ''port 53'' @ [CHR 0x27] @ '' -d'', True)"
    by (simp add: connect_args_def valid_bpf_def valid_ifname_def is_alnum_def is_digit_def snprintf_def pcapd_args_def
        get_uids_filter_def dec_nat.simps digit_chars)
  show ?thesis using c conjunct1 [OF pcapd_args_no_injection [OF c]] by simp
qed

text \<open>A longer command line is cut, and the quote around the filter can stay open.\<close>

lemma args_cut_open_quote:
  "\<exists>args. connect_args 10050 False True False ''wlan0'' (replicate 300 (CHR ''a'')) [] = Inr (args, True) \<and> snd (outside_quotes False args)"
proof -
  define pre where "pre = ''-l pcapd.log -L 10050 -i '' @ [CHR 0x27] @ ''wlan0'' @ [CHR 0x27] @ '' -u -1 -t -b ''"
  let ?a = "CHR ''a''"
  let ?args = "pre @ CHR 0x27 # replicate (255 - (length pre + 1)) ?a"
  have l: "length pre \<le> 100" by (simp add: pre_def)
  have "pcapd_args 10050 ''wlan0'' (get_uids_filter False [] 128) (replicate 300 ?a) True = pre @ CHR 0x27 # replicate 300 ?a @ CHR 0x27 # '' -d''"
    by (simp add: pcapd_args_def get_uids_filter_def dec_nat.simps digit_chars pre_def)
  then have "snprintf 256 (pcapd_args 10050 ''wlan0'' (get_uids_filter False [] 128) (replicate 300 ?a) True) = ?args"
    using l by (simp add: snprintf_def take_Cons')
  moreover have "valid_bpf (replicate 300 ?a)" "valid_ifname ''wlan0''" by (simp_all add: valid_bpf_def valid_ifname_def is_alnum_def is_digit_def)
  ultimately have "connect_args 10050 False True False ''wlan0'' (replicate 300 ?a) [] = Inr (?args, True)"
    by (simp add: connect_args_def Let_def)
  moreover have "outside_quotes False pre = (''-l pcapd.log -L 10050 -i  -u -1 -t -b '', False)" by (simp add: pre_def)
  moreover have "CHR 0x27 \<notin> set (replicate n ?a)" for n by simp
  ultimately show ?thesis by (auto simp: outside_append outside_plain)
qed

end
