(* ===== verification/Pcapd.thy ===== *)
theory Pcapd
  imports Pcapd_Args Uid_Lru
begin

text \<open>
  The root daemon (\<^verbatim>\<open>pcapd/pcapd.c\<close>): it opens the capture interfaces, follows the internet interface, assigns
  a direction and a UID to every packet and sends it to the capture process.

  libpcap and the kernel are parameters: what they return is part of the events. Capture handles are
  numbers; \<open>handles\<close> are the open ones. Operations are in the option monad: \<open>None\<close> is an invalid memory access,
  the use of a handle that is not open, or (for the UID filter) not returning.
\<close>

section \<open>Pure helpers\<close>

definition bytes2mac :: "byte list \<Rightarrow> nat \<Rightarrow> u64 option" where
  "bytes2mac b off = do {
     lo \<leftarrow> rd32 b off;
     hi \<leftarrow> rd16 b (off + 4);
     Some (ucast lo OR push_bit 32 (ucast hi)) }"

record pcap_stat =
  ps_recv :: u32
  ps_drop :: u32
  ps_ifdrop :: u32

definition no_stat :: pcap_stat where
  "no_stat = \<lparr>ps_recv = 0, ps_drop = 0, ps_ifdrop = 0\<rparr>"

definition sum_stats :: "pcap_stat \<Rightarrow> pcap_stat \<Rightarrow> pcap_stat" where
  "sum_stats out s =
     \<lparr>ps_recv = ps_recv out + ps_recv s, ps_drop = ps_drop out + ps_drop s, ps_ifdrop = ps_ifdrop out + ps_ifdrop s\<rparr>"

abbreviation DLT_EN10MB :: int where "DLT_EN10MB \<equiv> 1"
abbreviation DLT_RAW :: int where "DLT_RAW \<equiv> 12"
abbreviation DLT_LINUX_SLL :: int where "DLT_LINUX_SLL \<equiv> 113"
abbreviation DLT_LINUX_SLL2 :: int where "DLT_LINUX_SLL2 \<equiv> 276"
abbreviation LINUX_SLL_HOST :: u16 where "LINUX_SLL_HOST \<equiv> 0"
abbreviation LINUX_SLL_OUTGOING :: u16 where "LINUX_SLL_OUTGOING \<equiv> 4"

definition dlink_ipoffset :: "int \<Rightarrow> nat option" where
  "dlink_ipoffset dlink =
     (if dlink = DLT_RAW then Some 0
      else if dlink = DLT_EN10MB then Some 14
      else if dlink = DLT_LINUX_SLL then Some 16
      else if dlink = DLT_LINUX_SLL2 then Some 20
      else None)"

section \<open>State\<close>

record pcapd_iface =
  if_name :: string
  ifidx :: int
  if_ifid :: int
  is_file :: bool
  if_pd :: "nat option"
  if_pf :: int
  if_dlink :: int
  if_ipoffset :: nat
  if_mac :: u64
  if_ip :: u32
  if_ip6 :: "128 word"
  next_stats_update :: int
  if_stats :: pcap_stat

definition init_interface :: pcapd_iface where
  "init_interface = \<lparr>if_name = [], ifidx = -1, if_ifid = 0, is_file = False, if_pd = None, if_pf = -1, if_dlink = 0,
     if_ipoffset = 0, if_mac = 0, if_ip = 0, if_ip6 = 0, next_stats_update = 0, if_stats = no_stat\<rparr>"

text \<open>A frame as it is sent: the header \<open>pcapd_hdr_t\<close> and the data.\<close>

record pcapd_frame =
  pf_sec :: int
  pf_usec :: int
  pf_len :: u16
  pf_linktype :: u16
  pf_pkt_drops :: u32
  pf_uid :: int
  pf_flags :: u8
  pf_ifid :: u8
  pf_data :: "byte list"

record pcapd_runtime =
  handles :: "nat list"
  next_handle :: nat
  client :: int
  nlroute_sock :: int
  nldiag_sock :: int
  rt_lru :: uid_lru
  rt_frags :: id2ports
  ifaces :: "pcapd_iface list"
  rt_stats :: pcap_stat
  sel_fds :: "int set"
  maxfd :: int
  conf :: pcapd_conf
  written :: "pcapd_frame list"

text \<open>The internet interface, by its position: \<open>inet_iface\<close> points into \<open>ifaces\<close>.\<close>

definition inet_iface :: "pcapd_runtime \<Rightarrow> nat option" where
  "inet_iface rt = (if inet_ifid (conf rt) = -1 then None else Some (nat (inet_ifid (conf rt))))"

definition get_iface :: "nat \<Rightarrow> pcapd_runtime \<Rightarrow> pcapd_iface option" where
  "get_iface i rt = (if i < length (ifaces rt) then Some (ifaces rt ! i) else None)"

definition set_iface :: "nat \<Rightarrow> pcapd_iface \<Rightarrow> pcapd_runtime \<Rightarrow> pcapd_runtime" where
  "set_iface i f rt = rt\<lparr>ifaces := (ifaces rt)[i := f]\<rparr>"

section \<open>Capture handles\<close>

definition use_handle :: "nat \<Rightarrow> pcapd_runtime \<Rightarrow> unit option" where
  "use_handle h rt = (if h \<in> set (handles rt) then Some () else None)"

definition pcap_close :: "nat \<Rightarrow> pcapd_runtime \<Rightarrow> pcapd_runtime option" where
  "pcap_close h rt = (if h \<in> set (handles rt) then Some (rt\<lparr>handles := remove1 h (handles rt)\<rparr>) else None)"

text \<open>
  What opening a name gives: a live capture or a file (neither is a failure), its data link, whether the filter
  compiles and is accepted, the descriptor, and the interface's index and addresses. The data link is the one after
  the attempt to switch from SLL to SLL2.
\<close>

record open_result =
  or_live :: bool
  or_file :: bool
  or_dlink :: int
  or_compile :: bool
  or_setfilter :: bool
  or_fd :: int
  or_ifidx :: int
  or_mac :: "u64 option"
  or_ip :: "u32 option"
  or_ip6 :: "128 word option"

text \<open>\<open>pcap_stats\<close>: the counters of a handle; \<open>None\<close> is a failure, which leaves the structure as it is.\<close>

type_synonym stats_fun = "nat \<Rightarrow> pcap_stat option"

definition read_stats :: "stats_fun \<Rightarrow> nat \<Rightarrow> pcap_stat \<Rightarrow> pcap_stat" where
  "read_stats ps h old = (case ps h of Some s \<Rightarrow> s | None \<Rightarrow> old)"

definition base_name :: "bool \<Rightarrow> string \<Rightarrow> string" where
  "base_name file ifname = (if file then (case memrchr (CHR ''/'') ifname of Some i \<Rightarrow> drop (i + 1) ifname | None \<Rightarrow> ifname) else ifname)"

abbreviation PATH_MAX :: nat where "PATH_MAX \<equiv> 4096"

definition open_interface ::
    "open_result \<Rightarrow> nat \<Rightarrow> string \<Rightarrow> int \<Rightarrow> pcapd_runtime \<Rightarrow> (pcapd_rv \<times> pcapd_runtime) option" where
  "open_interface r i ifname ifid rt0 =
     (if \<not> or_live r \<and> \<not> or_file r then Some (PCAPD_INTERFACE_OPEN_FAILED, rt0)
      else do {
        let h = next_handle rt0;
        let rt = rt0\<lparr>handles := h # handles rt0, next_handle := h + 1\<rparr>;
        case dlink_ipoffset (or_dlink r) of
          None \<Rightarrow> do { rt1 \<leftarrow> pcap_close h rt; Some (PCAPD_UNSUPPORTED_DATALINK, rt1) }
        | Some off \<Rightarrow>
            if \<not> or_compile r \<or> \<not> or_setfilter r
            then do { rt1 \<leftarrow> pcap_close h rt; Some (PCAPD_INTERFACE_OPEN_FAILED, rt1) }
            else do {
              f \<leftarrow> get_iface i rt;
              let file = (\<not> or_live r);
              Some (PCAPD_OK,
                (set_iface i (f\<lparr>if_pd := Some h, is_file := file, if_ifid := ifid, ifidx := or_ifidx r,
                   if_mac := (if \<not> file \<and> or_dlink r = DLT_EN10MB then case_option 0 id (or_mac r) else 0),
                   if_ip := (if \<not> file then case_option 0 id (or_ip r) else 0),
                   if_ip6 := (if \<not> file then case_option 0 id (or_ip6 r) else if_ip6 f),
                   if_dlink := or_dlink r, if_ipoffset := off, if_pf := or_fd r,
                   if_name := take (PATH_MAX - 1) (base_name file ifname)\<rparr>) rt)
                \<lparr>maxfd := max (maxfd rt) (or_fd r)\<rparr>) } })"

definition close_interface :: "stats_fun \<Rightarrow> nat \<Rightarrow> pcapd_runtime \<Rightarrow> pcapd_runtime option" where
  "close_interface ps i rt = do {
     f \<leftarrow> get_iface i rt;
     case if_pd f of
       None \<Rightarrow> Some rt
     | Some h \<Rightarrow> do {
         _ \<leftarrow> use_handle h rt;
         let s = read_stats ps h (if_stats f);
         rt1 \<leftarrow> pcap_close h (rt\<lparr>rt_stats := sum_stats (rt_stats rt) s, sel_fds := sel_fds rt - {if_pf f}\<rparr>);
         Some (set_iface i (f\<lparr>if_stats := s, if_pd := None, if_pf := -1, ifidx := -1, if_name := []\<rparr>) rt1) } }"

section \<open>Internet interface and netlink\<close>

text \<open>
  What a check of the internet interface finds: the index of the interface the route goes through
  (\<open>nl_get_route\<close>, \<open>None\<close> on failure), its name, and how opening it ends.
\<close>

record inet_check =
  ic_route :: "int option"
  ic_name :: "string option"
  ic_open :: open_result

definition check_inet_interface :: "stats_fun \<Rightarrow> inet_check \<Rightarrow> pcapd_runtime \<Rightarrow> pcapd_runtime option" where
  "check_inet_interface ps ic rt =
     (case inet_iface rt of
        None \<Rightarrow> Some rt
      | Some i \<Rightarrow> do {
          f \<leftarrow> get_iface i rt;
          case ic_route ic of
            None \<Rightarrow> Some rt
          | Some idx \<Rightarrow>
              if idx = ifidx f then Some rt
              else case ic_name ic of
                None \<Rightarrow> Some rt
              | Some name \<Rightarrow> do {
                  (rv, rt1) \<leftarrow> open_interface (ic_open ic) i name (inet_ifid (conf rt)) rt;
                  if rv \<noteq> PCAPD_OK then Some rt1
                  else case if_pd f of
                    None \<Rightarrow> Some rt1
                  | Some old \<Rightarrow> do {
                      f1 \<leftarrow> get_iface i rt1;
                      _ \<leftarrow> use_handle old rt1;
                      let s = read_stats ps old (if_stats f1);
                      pcap_close old (set_iface i (f1\<lparr>if_stats := s\<rparr>) (rt1\<lparr>rt_stats := sum_stats (rt_stats rt1) s\<rparr>)) } } })"

fun iface_by_ifidx_from :: "nat \<Rightarrow> int \<Rightarrow> pcapd_iface list \<Rightarrow> nat option" where
  "iface_by_ifidx_from i idx [] = None"
| "iface_by_ifidx_from i idx (f # fs) = (if ifidx f = idx then Some i else iface_by_ifidx_from (i + 1) idx fs)"

definition iface_by_ifidx :: "pcapd_runtime \<Rightarrow> int \<Rightarrow> nat option" where
  "iface_by_ifidx rt idx = iface_by_ifidx_from 0 idx (ifaces rt)"

text \<open>The messages of one \<open>recvmsg\<close>; a new address comes with what \<open>get_iface_ip\<close> and \<open>get_iface_ip6\<close> then find.\<close>

datatype nl_message =
    Nl_Done
  | Nl_NewRoute
  | Nl_NewRule
  | Nl_NewAddr int "u32 option" "128 word option"
  | Nl_DelLink int
  | Nl_Other

definition nl_new_addr :: "int \<Rightarrow> u32 option \<Rightarrow> 128 word option \<Rightarrow> pcapd_runtime \<Rightarrow> pcapd_runtime option" where
  "nl_new_addr idx ip ip6 rt =
     (case iface_by_ifidx rt idx of
        None \<Rightarrow> Some rt
      | Some i \<Rightarrow> do {
          f \<leftarrow> get_iface i rt;
          Some (set_iface i (f\<lparr>if_ip := case_option (if_ip f) id ip, if_ip6 := case_option 0 id ip6\<rparr>) rt) })"

definition nl_del_link :: "stats_fun \<Rightarrow> int \<Rightarrow> bool \<Rightarrow> pcapd_runtime \<Rightarrow> (bool \<times> pcapd_runtime) option" where
  "nl_del_link ps idx recheck rt =
     (case iface_by_ifidx rt idx of
        None \<Rightarrow> Some (recheck, rt)
      | Some i \<Rightarrow> do {
          f \<leftarrow> get_iface i rt;
          r \<leftarrow> (case inet_iface rt of
                 None \<Rightarrow> Some recheck
               | Some k \<Rightarrow> do { g \<leftarrow> get_iface k rt; Some (recheck \<or> ifidx f = ifidx g) });
          rt1 \<leftarrow> close_interface ps i rt;
          Some (r, rt1) })"

fun nl_messages :: "stats_fun \<Rightarrow> nl_message list \<Rightarrow> bool \<Rightarrow> pcapd_runtime \<Rightarrow> (bool \<times> pcapd_runtime) option" where
  "nl_messages ps [] recheck rt = Some (recheck, rt)"
| "nl_messages ps (Nl_Done # msgs) recheck rt = Some (recheck, rt)"
| "nl_messages ps (Nl_NewRoute # msgs) recheck rt = nl_messages ps msgs True rt"
| "nl_messages ps (Nl_NewRule # msgs) recheck rt = nl_messages ps msgs True rt"
| "nl_messages ps (Nl_NewAddr idx ip ip6 # msgs) recheck rt = do { rt1 \<leftarrow> nl_new_addr idx ip ip6 rt; nl_messages ps msgs recheck rt1 }"
| "nl_messages ps (Nl_DelLink idx # msgs) recheck rt = do { (r, rt1) \<leftarrow> nl_del_link ps idx recheck rt; nl_messages ps msgs r rt1 }"
| "nl_messages ps (Nl_Other # msgs) recheck rt = nl_messages ps msgs recheck rt"

text \<open>\<open>None\<close> for \<open>received\<close> is a failed \<open>recvmsg\<close>; the result is whether the code returns 0.\<close>

definition handle_nl_message ::
    "stats_fun \<Rightarrow> nl_message list option \<Rightarrow> inet_check \<Rightarrow> pcapd_runtime \<Rightarrow> (bool \<times> pcapd_runtime) option" where
  "handle_nl_message ps received ic rt =
     (case received of
        None \<Rightarrow> Some (False, rt)
      | Some msgs \<Rightarrow> do {
          (recheck, rt1) \<leftarrow> nl_messages ps msgs False rt;
          rt2 \<leftarrow> (if recheck then check_inet_interface ps ic rt1 else Some rt1);
          Some (True, rt2) })"

definition get_selectable_fds :: "pcapd_runtime \<Rightarrow> int set" where
  "get_selectable_fds rt =
     (if 0 < client rt then {client rt} else {}) \<union> (if 0 < nlroute_sock rt then {nlroute_sock rt} else {}) \<union>
     {fd \<in> if_pf ` set (ifaces rt). fd \<noteq> -1}"

section \<open>Direction\<close>

text \<open>The direction by IP address; \<open>len\<close> bytes from \<open>off\<close> on.\<close>

definition is_tx_ip :: "pcapd_iface \<Rightarrow> byte list \<Rightarrow> nat \<Rightarrow> nat \<Rightarrow> bool option" where
  "is_tx_ip f pkt off len =
     (if len < 20 then Some False
      else do {
        b0 \<leftarrow> rd8 pkt off;
        if drop_bit 4 b0 = 4 then do { daddr \<leftarrow> rd32 pkt (off + 16); Some (daddr \<noteq> if_ip f) }
        else if drop_bit 4 b0 = 6 \<and> 40 \<le> len then do { daddr \<leftarrow> rd128 pkt (off + 24); Some (daddr \<noteq> if_ip6 f) }
        else Some True })"

definition is_tx_packet :: "pcapd_iface \<Rightarrow> byte list \<Rightarrow> u16 \<Rightarrow> bool option" where
  "is_tx_packet f pkt len =
     (if if_dlink f = DLT_EN10MB \<and> 14 \<le> unat len
      then do {
        dmac \<leftarrow> bytes2mac pkt 0;
        smac \<leftarrow> bytes2mac pkt 6;
        if smac \<noteq> dmac \<and> smac = if_mac f then Some True
        else if smac \<noteq> dmac \<and> dmac = if_mac f then Some False
        else is_tx_ip f pkt 14 (unat len - 14) }
      else if if_dlink f = DLT_LINUX_SLL \<and> 16 \<le> unat len
      then do {
        ty \<leftarrow> rd16 pkt 0;
        if ntohs ty = LINUX_SLL_HOST then Some False
        else if ntohs ty = LINUX_SLL_OUTGOING then Some True
        else is_tx_ip f pkt 16 (unat len - 16) }
      else if if_dlink f = DLT_LINUX_SLL2 \<and> 20 \<le> unat len
      then do {
        ty \<leftarrow> rd8 pkt 10;
        if ntohs (ucast ty) = LINUX_SLL_HOST then Some False
        else if ntohs (ucast ty) = LINUX_SLL_OUTGOING then Some True
        else is_tx_ip f pkt 20 (unat len - 20) }
      else is_tx_ip f pkt 0 (unat len))"

section \<open>Packets\<close>

text \<open>\<open>pcap_next_ex\<close>: an error, the end of a file, a time out, or a packet with its captured bytes.\<close>

datatype pkt_event =
    Pkt_Error
  | Pkt_Break
  | Pkt_None
  | Pkt int int "byte list"

text \<open>The UID lookups (\<^verbatim>\<open>pcapd/nl_utils.c\<close>, \<^verbatim>\<open>common/uid_resolver.c\<close>) and whether the client takes a frame.\<close>

record pcapd_env =
  nl_get_uid :: "zdtun_5tuple \<Rightarrow> int"
  get_uid :: "zdtun_5tuple \<Rightarrow> int"
  write_ok :: bool

abbreviation PCAPD_UID_UNKNOWN :: int where "PCAPD_UID_UNKNOWN \<equiv> -1"

definition lookup_uid :: "pcapd_env \<Rightarrow> zdtun_5tuple \<Rightarrow> pcapd_runtime \<Rightarrow> int \<times> pcapd_runtime" where
  "lookup_uid env tuple rt =
     (let (u, lru) = uid_lru_find (rt_lru rt) tuple
      in if u \<noteq> -2 then (u, rt\<lparr>rt_lru := lru\<rparr>)
         else let by_nl = (0 < nldiag_sock rt \<and> ipproto tuple \<noteq> IPPROTO_ICMP);
                  u1 = nl_get_uid env tuple;
                  nl_failed = (by_nl \<and> u1 < 0 \<and> u1 \<noteq> PCAPD_UID_UNKNOWN);
                  uid = (if by_nl \<and> \<not> nl_failed then u1 else get_uid env tuple)
              in (uid, rt\<lparr>rt_lru := uid_lru_add True lru tuple uid, nldiag_sock := (if nl_failed then -1 else nldiag_sock rt)\<rparr>))"

text \<open>The connection a packet belongs to, as seen from this device, and its UID.\<close>

definition resolve_pkt :: "pcapd_env \<Rightarrow> pcapd_iface \<Rightarrow> bool \<Rightarrow> byte list \<Rightarrow> pcapd_runtime \<Rightarrow> (int \<times> pcapd_runtime) option" where
  "resolve_pkt env f is_tx b rt = do {
     r \<leftarrow> zdtun_parse_pkt (rt_frags rt) b (of_nat (length b));
     case r of
       Inl e \<Rightarrow> Some (PCAPD_UID_UNKNOWN, rt)
     | Inr (zpkt, ids) \<Rightarrow>
         let tuple = (if is_tx then p_tuple zpkt else tupleSwapPeers (p_tuple zpkt));
             rt1 = rt\<lparr>rt_frags := ids\<rparr>
         in Some (if is_file f then (PCAPD_UID_UNKNOWN, rt1) else lookup_uid env tuple rt1) }"

definition make_frame :: "pcapd_runtime \<Rightarrow> pcapd_iface \<Rightarrow> int \<Rightarrow> int \<Rightarrow> byte list \<Rightarrow> int \<Rightarrow> bool \<Rightarrow> pcapd_frame" where
  "make_frame rt f sec usec dat uid is_tx =
     (let full = dump_datalink (conf rt);
          d = (if full then dat else drop (if_ipoffset f) dat);
          n = (of_nat (length d) :: u16)
      in \<lparr>pf_sec = sec, pf_usec = usec, pf_len = n, pf_linktype = of_int (if full then if_dlink f else DLT_RAW),
          pf_pkt_drops = ps_drop (if_stats f), pf_uid = uid, pf_flags = (if is_tx then 1 else 0), pf_ifid = of_int (if_ifid f),
          pf_data = take (unat n) d\<rparr>)"

definition send_frame :: "pcapd_env \<Rightarrow> nat \<Rightarrow> pcapd_iface \<Rightarrow> pcapd_frame \<Rightarrow> pcapd_runtime \<Rightarrow> pcapd_rv \<times> pcapd_runtime" where
  "send_frame env i f fr rt =
     (if \<not> no_client (conf rt) \<and> \<not> write_ok env then (PCAPD_SOCKET_WRITE_ERROR, rt)
      else (PCAPD_OK,
        set_iface i (if is_file f then f\<lparr>if_stats := (if_stats f)\<lparr>ps_recv := ps_recv (if_stats f) + 1\<rparr>\<rparr> else f)
          (if no_client (conf rt) then rt else rt\<lparr>written := written rt @ [fr]\<rparr>)))"

definition export_pkt ::
    "pcapd_env \<Rightarrow> nat \<Rightarrow> int \<Rightarrow> int \<Rightarrow> byte list \<Rightarrow> pcapd_runtime \<Rightarrow> (pcapd_rv \<times> pcapd_runtime) option" where
  "export_pkt env i sec usec dat rt = do {
     f \<leftarrow> get_iface i rt;
     if length dat < if_ipoffset f then Some (PCAPD_OK, rt)
     else do {
       is_tx \<leftarrow> is_tx_packet f dat (of_nat (length dat));
       (uid, rt1) \<leftarrow> resolve_pkt env f is_tx (drop (if_ipoffset f) dat) rt;
       ok \<leftarrow> matches_uid_filter (uid_filter (conf rt)) uid;
       Some (if ok then send_frame env i f (make_frame rt1 f sec usec dat uid is_tx) rt1 else (PCAPD_OK, rt1)) } }"

definition update_stats_at :: "stats_fun \<Rightarrow> nat \<Rightarrow> int \<Rightarrow> pcapd_runtime \<Rightarrow> pcapd_runtime option" where
  "update_stats_at ps i now rt = do {
     f \<leftarrow> get_iface i rt;
     if next_stats_update f \<le> now
     then do {
       h \<leftarrow> if_pd f;
       _ \<leftarrow> use_handle h rt;
       Some (set_iface i (f\<lparr>if_stats := read_stats ps h (if_stats f), next_stats_update := now + 3\<rparr>) rt) }
     else Some rt }"

definition read_pkt ::
    "pcapd_env \<Rightarrow> stats_fun \<Rightarrow> nat \<Rightarrow> int \<Rightarrow> pkt_event \<Rightarrow> pcapd_runtime \<Rightarrow> (pcapd_rv \<times> pcapd_runtime) option" where
  "read_pkt env ps i now ev rt = do {
     f \<leftarrow> get_iface i rt;
     h \<leftarrow> if_pd f;
     _ \<leftarrow> use_handle h rt;
     case ev of
       Pkt_Error \<Rightarrow> do {
         rt1 \<leftarrow> close_interface ps i rt;
         Some (if inet_iface rt = Some i then PCAPD_OK else PCAPD_PCAP_READ_ERROR, rt1) }
     | Pkt_Break \<Rightarrow> Some (PCAPD_EOF, rt)
     | Pkt_None \<Rightarrow> Some (PCAPD_OK, rt)
     | Pkt sec usec dat \<Rightarrow> do {
         (rv, rt1) \<leftarrow> export_pkt env i sec usec dat rt;
         if rv \<noteq> PCAPD_OK then Some (rv, rt1)
         else do { rt2 \<leftarrow> update_stats_at ps i now rt1; Some (PCAPD_OK, rt2) } } }"

section \<open>The loop\<close>

text \<open>
  One iteration: the result of \<open>select\<close> with the descriptors that are ready (of those it was given), the time, the netlink messages, what
  each interface delivers and what the two possible checks of the internet interface find.
\<close>

datatype select_result = Select_Ready "int set" | Select_EINTR | Select_Error

record pcapd_event =
  ev_select :: select_result
  ev_now :: int
  ev_nl :: "nl_message list option"
  ev_pkts :: "nat \<Rightarrow> pkt_event"
  ev_inet_nl :: inet_check
  ev_inet_retry :: inet_check

record pcapd_loop =
  running :: bool
  result :: pcapd_rv
  next_interface_recheck :: int
  runtime :: pcapd_runtime

fun read_ifaces ::
    "pcapd_env \<Rightarrow> stats_fun \<Rightarrow> pcapd_event \<Rightarrow> int set \<Rightarrow> nat list \<Rightarrow> pcapd_loop \<Rightarrow> pcapd_loop option" where
  "read_ifaces env ps ev fds [] lp = Some lp"
| "read_ifaces env ps ev fds (i # is) lp = do {
     f \<leftarrow> get_iface i (runtime lp);
     if if_pf f \<noteq> -1 \<and> if_pf f \<in> fds
     then do {
       (rv, rt1) \<leftarrow> read_pkt env ps i (ev_now ev) (ev_pkts ev i) (runtime lp);
       if rv \<noteq> PCAPD_OK
       then Some (lp\<lparr>running := False, result := (if rv = PCAPD_EOF then PCAPD_OK else rv), runtime := rt1\<rparr>)
       else read_ifaces env ps ev fds is (lp\<lparr>result := PCAPD_OK, runtime := rt1\<rparr>) }
     else read_ifaces env ps ev fds is lp }"

text \<open>The end of an iteration: the internet interface is looked for again when it is closed.\<close>

definition retry_inet :: "stats_fun \<Rightarrow> pcapd_event \<Rightarrow> pcapd_loop \<Rightarrow> pcapd_loop option" where
  "retry_inet ps ev lp =
     (case inet_iface (runtime lp) of
        None \<Rightarrow> Some lp
      | Some i \<Rightarrow> do {
          f \<leftarrow> get_iface i (runtime lp);
          if if_pd f = None \<and> next_interface_recheck lp \<le> ev_now ev
          then do {
            rt1 \<leftarrow> check_inet_interface ps (ev_inet_retry ev) (runtime lp);
            Some (lp\<lparr>runtime := rt1, next_interface_recheck := ev_now ev + 2\<rparr>) }
          else Some lp })"

definition pcapd_step :: "pcapd_env \<Rightarrow> stats_fun \<Rightarrow> pcapd_event \<Rightarrow> pcapd_loop \<Rightarrow> pcapd_loop option" where
  "pcapd_step env ps ev lp =
     (if \<not> running lp then Some lp
      else case ev_select ev of
        Select_EINTR \<Rightarrow> Some (lp\<lparr>running := False\<rparr>)
      | Select_Error \<Rightarrow> Some (lp\<lparr>running := False, result := PCAPD_ERROR\<rparr>)
      | Select_Ready ready \<Rightarrow>
          (let rt = runtime lp;
               fds = ready \<inter> sel_fds rt
           in if 0 < client rt \<and> client rt \<in> fds then Some (lp\<lparr>running := False\<rparr>)
              else if 0 < nlroute_sock rt \<and> nlroute_sock rt \<in> fds
              then do {
                (ok, rt1) \<leftarrow> handle_nl_message ps (ev_nl ev) (ev_inet_nl ev) rt;
                if \<not> ok then Some (lp\<lparr>running := False, result := PCAPD_NETLINK_ERROR, runtime := rt1\<rparr>)
                else retry_inet ps ev (lp\<lparr>runtime := rt1\<lparr>sel_fds := get_selectable_fds rt1\<rparr>\<rparr>) }
              else do {
                lp1 \<leftarrow> read_ifaces env ps ev fds [0..<length (ifaces rt)] lp;
                retry_inet ps ev lp1 }))"

text \<open>The end of the daemon.\<close>

fun close_interfaces :: "stats_fun \<Rightarrow> nat list \<Rightarrow> pcapd_runtime \<Rightarrow> pcapd_runtime option" where
  "close_interfaces ps [] rt = Some rt"
| "close_interfaces ps (i # is) rt = do { rt1 \<leftarrow> close_interface ps i rt; close_interfaces ps is rt1 }"

definition finish_pcapd_capture :: "stats_fun \<Rightarrow> pcapd_runtime \<Rightarrow> pcapd_runtime option" where
  "finish_pcapd_capture ps rt = close_interfaces ps [0..<length (ifaces rt)] rt"

text \<open>
  The start: the UID cache and the resolver, the PID file, the netlink sockets (a diagnostics socket is opened only
  as root and when it works) and the connection to the client.
\<close>

record init_outcome =
  io_lru :: bool
  io_resolver :: bool
  io_pid_file :: bool
  io_nlroute :: int
  io_nldiag :: "int option"
  io_client :: int
  io_connect :: bool

definition new_runtime :: "pcapd_conf \<Rightarrow> pcapd_runtime" where
  "new_runtime c = \<lparr>handles = [], next_handle = 0, client = -1, nlroute_sock = -1, nldiag_sock = -1,
     rt_lru = \<lparr>ul_max_size = 64, ul_cache = []\<rparr>, rt_frags = (\<lambda>_. (0, 0)), ifaces = replicate (length (ifnames c)) init_interface,
     rt_stats = no_stat, sel_fds = {}, maxfd = 0, conf = c, written = []\<rparr>"

definition init_pcapd_capture :: "init_outcome \<Rightarrow> pcapd_conf \<Rightarrow> bool \<times> pcapd_runtime" where
  "init_pcapd_capture io c =
     (let rt = new_runtime c
      in if \<not> io_lru io \<or> \<not> io_resolver io \<or> (daemonize c \<and> \<not> io_pid_file io) then (False, rt)
         else let rt1 = (if inet_ifid c \<noteq> -1
                         then rt\<lparr>nlroute_sock := io_nlroute io, maxfd := max (maxfd rt) (io_nlroute io)\<rparr> else rt)
              in if inet_ifid c \<noteq> -1 \<and> io_nlroute io < 0 then (False, rt\<lparr>nlroute_sock := io_nlroute io\<rparr>)
                 else let rt2 = rt1\<lparr>nldiag_sock := case_option (-1) id (io_nldiag io)\<rparr>
                      in if no_client c then (True, rt2)
                         else if io_client io < 0 then (False, rt2\<lparr>client := io_client io\<rparr>)
                         else (io_connect io, rt2\<lparr>client := io_client io, maxfd := max (maxfd rt2) (io_client io)\<rparr>))"

fun open_interfaces :: "(nat \<Rightarrow> open_result) \<Rightarrow> nat list \<Rightarrow> pcapd_runtime \<Rightarrow> (pcapd_rv \<times> pcapd_runtime) option" where
  "open_interfaces op [] rt = Some (PCAPD_OK, rt)"
| "open_interfaces op (i # is) rt =
     (if ifnames (conf rt) ! i = ''@inet'' then open_interfaces op is rt
      else do {
        (rv, rt1) \<leftarrow> open_interface (op i) i (ifnames (conf rt) ! i) (int i) rt;
        if rv \<noteq> PCAPD_OK then Some (rv, rt1) else open_interfaces op is rt1 })"

text \<open>\<open>run_pcap_dump\<close> up to its loop, and as a whole for a list of iterations.\<close>

definition pcapd_start ::
    "stats_fun \<Rightarrow> init_outcome \<Rightarrow> inet_check \<Rightarrow> (nat \<Rightarrow> open_result) \<Rightarrow> pcapd_conf \<Rightarrow> pcapd_loop option" where
  "pcapd_start ps io ic op c =
     (let (ok, rt) = init_pcapd_capture io c
      in if \<not> ok then Some \<lparr>running = False, result = PCAPD_ERROR, next_interface_recheck = 0, runtime = rt\<rparr>
         else do {
           rt1 \<leftarrow> check_inet_interface ps ic rt;
           (rv, rt2) \<leftarrow> open_interfaces op [0..<length (ifnames c)] rt1;
           Some \<lparr>running = (rv = PCAPD_OK), result = rv, next_interface_recheck = 0,
                 runtime = (if rv = PCAPD_OK then rt2\<lparr>sel_fds := get_selectable_fds rt2\<rparr> else rt2)\<rparr> })"

definition run_pcap_dump ::
    "pcapd_env \<Rightarrow> stats_fun \<Rightarrow> bool \<Rightarrow> init_outcome \<Rightarrow> inet_check \<Rightarrow> (nat \<Rightarrow> open_result) \<Rightarrow> pcapd_conf \<Rightarrow>
     pcapd_event list \<Rightarrow> (pcapd_rv \<times> pcapd_runtime) option" where
  "run_pcap_dump env ps tun_ok io ic op c evs =
     (if \<not> tun_ok then None
      else do {
        lp \<leftarrow> pcapd_start ps io ic op c;
        lp1 \<leftarrow> run_steps (pcapd_step env ps) evs lp;
        rt \<leftarrow> finish_pcapd_capture ps (runtime lp1);
        Some (result lp1, rt) })"

end
