(* ===== verification/Pcapd_Safety.thy ===== *)
theory Pcapd_Safety
  imports Pcapd
begin

text \<open>
  The daemon never uses a capture handle that is closed, never closes one twice and leaves none open, whatever the
  interfaces, the netlink messages and the packets do; and it reads no byte outside a captured packet.
\<close>

section \<open>Invariant\<close>

text \<open>\<open>E\<close> are the open handles that no interface refers to any more.\<close>

definition holds :: "pcapd_iface list \<Rightarrow> nat \<Rightarrow> nat \<Rightarrow> bool" where
  "holds fs i h \<longleftrightarrow> i < length fs \<and> if_pd (fs ! i) = Some h"

definition handles_ok :: "nat set \<Rightarrow> pcapd_iface list \<Rightarrow> nat list \<Rightarrow> bool" where
  "handles_ok E fs hs \<longleftrightarrow> distinct hs \<and> (\<forall>h. h \<in> set hs \<longleftrightarrow> h \<in> E \<or> (\<exists>i. holds fs i h)) \<and>
     (\<forall>i h. holds fs i h \<longrightarrow> h \<notin> E) \<and> (\<forall>i j h. holds fs i h \<longrightarrow> holds fs j h \<longrightarrow> i = j)"

definition conf_ok :: "pcapd_conf \<Rightarrow> bool" where
  "conf_ok c \<longleftrightarrow> inet_ifid c = -1 \<or>
     0 \<le> inet_ifid c \<and> inet_ifid c < int (length (ifnames c)) \<and> ifnames c ! nat (inet_ifid c) = ''@inet''"

definition pcapd_inv :: "nat set \<Rightarrow> pcapd_runtime \<Rightarrow> bool" where
  "pcapd_inv E rt \<longleftrightarrow> handles_ok E (ifaces rt) (handles rt) \<and> (\<forall>h \<in> set (handles rt). h < next_handle rt) \<and>
     (\<forall>f \<in> set (ifaces rt). if_pd f = None \<longrightarrow> if_pf f = -1) \<and>
     conf_ok (conf rt) \<and> length (ifaces rt) = length (ifnames (conf rt))"

definition same_rt :: "pcapd_runtime \<Rightarrow> pcapd_runtime \<Rightarrow> bool" where
  "same_rt p q \<longleftrightarrow> handles p = handles q \<and> next_handle p = next_handle q \<and> ifaces p = ifaces q \<and> conf p = conf q"

lemma pcapd_inv_same: "same_rt p q \<Longrightarrow> pcapd_inv E p = pcapd_inv E q"
  by (simp add: same_rt_def pcapd_inv_def)

lemma holds_update: "i < length fs \<Longrightarrow> holds (fs[i := f]) j h \<longleftrightarrow> (if j = i then if_pd f = Some h else holds fs j h)"
  by (auto simp: holds_def nth_list_update)

lemma get_iface_some: "get_iface i rt = Some f \<longleftrightarrow> i < length (ifaces rt) \<and> f = ifaces rt ! i"
  by (auto simp: get_iface_def)

lemma set_iface_simps [simp]:
  "handles (set_iface i f rt) = handles rt" "next_handle (set_iface i f rt) = next_handle rt" "conf (set_iface i f rt) = conf rt"
  "ifaces (set_iface i f rt) = (ifaces rt)[i := f]" "client (set_iface i f rt) = client rt" "nlroute_sock (set_iface i f rt) = nlroute_sock rt"
  "sel_fds (set_iface i f rt) = sel_fds rt"
  by (simp_all add: set_iface_def)

lemma set_iface_keep:
  assumes i: "pcapd_inv E rt" and f: "get_iface i rt = Some f" and p: "if_pd f' = if_pd f" "if_pd f' = None \<longrightarrow> if_pf f' = -1"
  shows "pcapd_inv E (set_iface i f' rt)"
proof -
  have l: "i < length (ifaces rt)" "f = ifaces rt ! i" using f by (simp_all add: get_iface_some)
  have "holds ((ifaces rt)[i := f']) j h = holds (ifaces rt) j h" for j h
    using l p(1) by (auto simp: holds_def nth_list_update)
  moreover have "\<forall>g \<in> set ((ifaces rt)[i := f']). if_pd g = None \<longrightarrow> if_pf g = -1"
    using i p(2) by (auto simp: pcapd_inv_def dest!: subsetD [OF set_update_subset_insert])
  ultimately show ?thesis using i by (simp add: pcapd_inv_def handles_ok_def)
qed

lemma held_handle:
  assumes "pcapd_inv E rt" "get_iface i rt = Some f" "if_pd f = Some h"
  shows "h \<in> set (handles rt)" "h \<notin> E" "h < next_handle rt"
proof -
  have "holds (ifaces rt) i h" using assms by (simp add: get_iface_some holds_def)
  with assms(1) show "h \<in> set (handles rt)" "h \<notin> E" "h < next_handle rt" unfolding pcapd_inv_def handles_ok_def by blast+
qed

lemma close_extra:
  assumes "pcapd_inv E rt" "h \<in> E"
  obtains rt' where "pcap_close h rt = Some rt'" and "pcapd_inv (E - {h}) rt'" and "same_rt (rt'\<lparr>handles := handles rt\<rparr>) rt"
proof -
  have d: "distinct (handles rt)" "h \<in> set (handles rt)" using assms unfolding pcapd_inv_def handles_ok_def by blast+
  have "handles_ok (E - {h}) (ifaces rt) (remove1 h (handles rt))"
    using assms d unfolding pcapd_inv_def handles_ok_def by (auto simp: set_remove1_eq)
  then have "pcapd_inv (E - {h}) (rt\<lparr>handles := remove1 h (handles rt)\<rparr>)"
    using assms(1) by (auto simp: pcapd_inv_def dest: notin_set_remove1 in_set_remove1)
  then show ?thesis using d by (intro that [of "rt\<lparr>handles := remove1 h (handles rt)\<rparr>"]) (simp_all add: pcap_close_def same_rt_def)
qed

lemma close_commute: "pcap_close h (set_iface k f rt) = map_option (set_iface k f) (pcap_close h rt)"
  by (cases rt) (simp add: pcap_close_def set_iface_def)

text \<open>Dropping the handle of an interface, to be closed.\<close>

lemma detach:
  assumes i: "pcapd_inv E rt" and f: "get_iface k rt = Some f" "if_pd f = Some h" and p: "if_pd f' = None" "if_pf f' = -1"
  shows "pcapd_inv (insert h E) (set_iface k f' rt)"
proof -
  have l: "k < length (ifaces rt)" "holds (ifaces rt) k h" using f by (simp_all add: get_iface_some holds_def)
  have u: "holds ((ifaces rt)[k := f']) j x \<longleftrightarrow> j \<noteq> k \<and> holds (ifaces rt) j x" for j x
    using l p(1) by (auto simp: holds_update)
  have "\<forall>g \<in> set ((ifaces rt)[k := f']). if_pd g = None \<longrightarrow> if_pf g = -1"
    using i p(2) by (auto simp: pcapd_inv_def dest!: subsetD [OF set_update_subset_insert])
  moreover have "handles_ok (insert h E) ((ifaces rt)[k := f']) (handles rt)"
  proof -
    have ok: "handles_ok E (ifaces rt) (handles rt)" using i by (simp add: pcapd_inv_def)
    have fn: "x = h" if "holds (ifaces rt) k x" for x using that l(2) by (simp add: holds_def)
    have un: "j = k" if "holds (ifaces rt) j h" for j using ok that l(2) unfolding handles_ok_def by blast
    have "x \<in> set (handles rt) \<longleftrightarrow> x \<in> insert h E \<or> (\<exists>j. j \<noteq> k \<and> holds (ifaces rt) j x)" for x
      using ok fn [of x] l(2) unfolding handles_ok_def by (metis insert_iff)
    moreover have "x \<notin> insert h E" if "j \<noteq> k" "holds (ifaces rt) j x" for j x
      using ok un that unfolding handles_ok_def by (metis insert_iff)
    ultimately show ?thesis using ok unfolding handles_ok_def u by blast
  qed
  ultimately show ?thesis using i by (simp add: pcapd_inv_def)
qed

lemma close_interface_ok:
  assumes i: "pcapd_inv {} rt" and k: "k < length (ifaces rt)"
  obtains rt' where "close_interface ps k rt = Some rt'" and "pcapd_inv {} rt'" and "conf rt' = conf rt"
    and "if_pd (ifaces rt' ! k) = None" and "\<forall>j. if_pd (ifaces rt ! j) = None \<longrightarrow> if_pd (ifaces rt' ! j) = None"
proof -
  obtain f where f: "get_iface k rt = Some f" "f = ifaces rt ! k" using k by (simp add: get_iface_def)
  show ?thesis
  proof (cases "if_pd f")
    case None
    then have "close_interface ps k rt = Some rt" by (simp add: close_interface_def f(1))
    then show ?thesis using i None unfolding f(2) by (intro that [of rt]) simp_all
  next
    case (Some h)
    let ?s = "read_stats ps h (if_stats f)"
    let ?f' = "f\<lparr>if_stats := ?s, if_pd := None, if_pf := -1, ifidx := -1, if_name := []\<rparr>"
    let ?rt1 = "rt\<lparr>rt_stats := sum_stats (rt_stats rt) ?s, sel_fds := sel_fds rt - {if_pf f}\<rparr>"
    have i1: "pcapd_inv {} ?rt1" using i pcapd_inv_same [of ?rt1 rt] by (simp add: same_rt_def)
    have f1: "get_iface k ?rt1 = Some f" using k f(2) by (simp add: get_iface_def)
    have d: "pcapd_inv {h} (set_iface k ?f' ?rt1)" by (rule detach [OF i1 f1 Some]) simp_all
    obtain rt' where c: "pcap_close h (set_iface k ?f' ?rt1) = Some rt'" "pcapd_inv ({h} - {h}) rt'"
      "same_rt (rt'\<lparr>handles := handles (set_iface k ?f' ?rt1)\<rparr>) (set_iface k ?f' ?rt1)" by (rule close_extra [OF d insertI1])
    have h: "h \<in> set (handles rt)" by (rule held_handle [OF i f(1) Some])
    have "close_interface ps k rt = Some rt'"
      using c(1) h unfolding close_commute by (auto simp: close_interface_def f(1) Some use_handle_def Let_def)
    moreover have "ifaces rt' = (ifaces rt)[k := ?f']" "conf rt' = conf rt" using c(3) by (simp_all add: same_rt_def)
    ultimately show ?thesis using c(2) k by (intro that [of rt']) (simp_all add: nth_list_update)
  qed
qed

section \<open>Opening\<close>

text \<open>A success leaves the handle the interface had before without a reference.\<close>

lemma attach:
  assumes i: "pcapd_inv {} rt" and f: "get_iface k rt = Some f" and p: "if_pd f' = Some (next_handle rt)"
  shows "pcapd_inv (case if_pd f of None \<Rightarrow> {} | Some h \<Rightarrow> {h})
    (set_iface k f' (rt\<lparr>handles := next_handle rt # handles rt, next_handle := next_handle rt + 1\<rparr>))"
proof -
  let ?n = "next_handle rt" and ?E = "case if_pd f of None \<Rightarrow> {} | Some h \<Rightarrow> {h}"
  have l: "k < length (ifaces rt)" "f = ifaces rt ! k" using f by (simp_all add: get_iface_some)
  have ok: "handles_ok {} (ifaces rt) (handles rt)" and lt: "\<forall>h \<in> set (handles rt). h < ?n" using i by (simp_all add: pcapd_inv_def)
  have u: "holds ((ifaces rt)[k := f']) j x \<longleftrightarrow> (if j = k then x = ?n else holds (ifaces rt) j x)" for j x
    using l p by (auto simp: holds_update)
  have e: "x \<in> ?E \<longleftrightarrow> holds (ifaces rt) k x" for x using l by (auto simp: holds_def split: option.splits)
  have new: "?n \<notin> set (handles rt)" using lt by blast
  have m: "x \<in> set (handles rt) \<longleftrightarrow> (\<exists>j. holds (ifaces rt) j x)" for x using ok unfolding handles_ok_def by blast
  have un: "i = j" if "holds (ifaces rt) i x" "holds (ifaces rt) j x" for i j x using ok that unfolding handles_ok_def by blast
  have "distinct (?n # handles rt)" using ok new by (simp add: handles_ok_def)
  moreover have "x \<in> set (?n # handles rt) \<longleftrightarrow> x \<in> ?E \<or> (\<exists>j. holds ((ifaces rt)[k := f']) j x)" for x
  proof -
    have "(\<exists>j. holds ((ifaces rt)[k := f']) j x) \<longleftrightarrow> x = ?n \<or> (\<exists>j. j \<noteq> k \<and> holds (ifaces rt) j x)" unfolding u by metis
    moreover have "x \<in> set (handles rt) \<longleftrightarrow> holds (ifaces rt) k x \<or> (\<exists>j. j \<noteq> k \<and> holds (ifaces rt) j x)" unfolding m by metis
    ultimately show ?thesis unfolding e by (simp only: set_simps insert_iff) blast
  qed
  moreover have "x \<notin> ?E" if h: "holds ((ifaces rt)[k := f']) j x" for j x
  proof (cases "j = k")
    case True
    with h have "x = ?n" unfolding u by simp
    then show ?thesis unfolding e using m [of x] new by blast
  next
    case False
    with h have "holds (ifaces rt) j x" unfolding u by simp
    then show ?thesis unfolding e using un [of j x k] False by blast
  qed
  moreover have "i = j" if h: "holds ((ifaces rt)[k := f']) i x" "holds ((ifaces rt)[k := f']) j x" for i j x
  proof (cases "x = ?n")
    case True
    then have "\<not> holds (ifaces rt) l x" for l using m [of x] new by blast
    then show ?thesis using h unfolding u by metis
  next
    case False
    then have "holds (ifaces rt) i x" "holds (ifaces rt) j x" using h unfolding u by metis+
    then show ?thesis by (rule un)
  qed
  ultimately have "handles_ok ?E ((ifaces rt)[k := f']) (?n # handles rt)" unfolding handles_ok_def by blast
  moreover have "\<forall>g \<in> set ((ifaces rt)[k := f']). if_pd g = None \<longrightarrow> if_pf g = -1"
    using i p by (auto simp: pcapd_inv_def dest!: subsetD [OF set_update_subset_insert])
  ultimately show ?thesis using i lt by (auto simp: pcapd_inv_def)
qed

lemma open_interface_ok:
  assumes i: "pcapd_inv {} rt" and f: "get_iface k rt = Some f"
  obtains rv rt' where "open_interface r k name ifid rt = Some (rv, rt')" and "conf rt' = conf rt"
    and "rv \<noteq> PCAPD_OK \<longrightarrow> pcapd_inv {} rt'"
    and "rv = PCAPD_OK \<longrightarrow> pcapd_inv (case if_pd f of None \<Rightarrow> {} | Some h \<Rightarrow> {h}) rt' \<and> k < length (ifaces rt')"
proof -
  let ?n = "next_handle rt"
  let ?rt1 = "rt\<lparr>handles := ?n # handles rt, next_handle := ?n + 1\<rparr>"
  let ?rt2 = "?rt1\<lparr>handles := handles rt\<rparr>"
  have c: "pcap_close ?n ?rt1 = Some ?rt2" by (simp add: pcap_close_def)
  have i2: "pcapd_inv {} ?rt2" using i by (auto simp: pcapd_inv_def less_SucI)
  have f1: "get_iface k ?rt1 = Some f" using f by (simp add: get_iface_some)
  consider "\<not> or_live r \<and> \<not> or_file r" | "or_live r \<or> or_file r" "dlink_ipoffset (or_dlink r) = None"
    | off where "or_live r \<or> or_file r" "dlink_ipoffset (or_dlink r) = Some off" "\<not> or_compile r \<or> \<not> or_setfilter r"
    | off where "or_live r \<or> or_file r" "dlink_ipoffset (or_dlink r) = Some off" "or_compile r" "or_setfilter r"
    by (cases "dlink_ipoffset (or_dlink r)") blast+
  then show ?thesis
  proof cases
    case 1
    then show ?thesis using i by (intro that [of PCAPD_INTERFACE_OPEN_FAILED rt]) (simp_all add: open_interface_def)
  next
    case 2
    then show ?thesis using i2 c by (intro that [of PCAPD_UNSUPPORTED_DATALINK ?rt2]) (auto simp: open_interface_def Let_def)
  next
    case 3
    then show ?thesis using i2 c by (intro that [of PCAPD_INTERFACE_OPEN_FAILED ?rt2]) (auto simp: open_interface_def Let_def)
  next
    case 4
    define fl where "fl = (\<not> or_live r)"
    define f' where "f' = f\<lparr>if_pd := Some ?n, is_file := fl, if_ifid := ifid, ifidx := or_ifidx r,
       if_mac := (if \<not> fl \<and> or_dlink r = DLT_EN10MB then case_option 0 id (or_mac r) else 0),
       if_ip := (if \<not> fl then case_option 0 id (or_ip r) else 0),
       if_ip6 := (if \<not> fl then case_option 0 id (or_ip6 r) else if_ip6 f),
       if_dlink := or_dlink r, if_ipoffset := off, if_pf := or_fd r,
       if_name := take (PATH_MAX - 1) (base_name fl name)\<rparr>"
    have nf: "\<not> (\<not> or_live r \<and> \<not> or_file r)" "\<not> (\<not> or_compile r \<or> \<not> or_setfilter r)" using 4 by blast+
    let ?rt' = "(set_iface k f' ?rt1)\<lparr>maxfd := max (maxfd ?rt1) (or_fd r)\<rparr>"
    have "pcapd_inv (case if_pd f of None \<Rightarrow> {} | Some h \<Rightarrow> {h}) (set_iface k f' ?rt1)"
      by (rule attach [OF i f]) (simp add: f'_def)
    moreover have "same_rt ?rt' (set_iface k f' ?rt1)" by (simp add: same_rt_def)
    ultimately have "pcapd_inv (case if_pd f of None \<Rightarrow> {} | Some h \<Rightarrow> {h}) ?rt'" using pcapd_inv_same by blast
    moreover have "open_interface r k name ifid rt = Some (PCAPD_OK, ?rt')"
      unfolding open_interface_def if_not_P [OF nf(1)] Let_def 4(2) option.case if_not_P [OF nf(2)] f1 bind.simps
      unfolding fl_def [symmetric] f'_def [symmetric] ..
    moreover have "k < length (ifaces rt)" using f by (simp add: get_iface_some)
    ultimately show ?thesis by (intro that [of PCAPD_OK ?rt']) simp_all
  qed
qed

lemma inet_index: "pcapd_inv E rt \<Longrightarrow> inet_iface rt = Some i \<Longrightarrow> i < length (ifaces rt)"
  by (auto simp: pcapd_inv_def conf_ok_def inet_iface_def split: if_splits)

lemma check_inet_ok:
  assumes i: "pcapd_inv {} rt"
  obtains rt' where "check_inet_interface ps ic rt = Some rt'" and "pcapd_inv {} rt'" and "conf rt' = conf rt"
proof (cases "inet_iface rt")
  case None
  then show ?thesis using i by (intro that [of rt]) (simp_all add: check_inet_interface_def)
next
  case (Some k)
  obtain f where f: "get_iface k rt = Some f" using inet_index [OF i Some] by (simp add: get_iface_def)
  show ?thesis
  proof (cases "ic_route ic = None \<or> ic_route ic = Some (ifidx f) \<or> ic_name ic = None")
    case True
    then have "check_inet_interface ps ic rt = Some rt"
      by (auto simp: check_inet_interface_def Some f split: option.splits)
    then show ?thesis using i by (rule that) simp
  next
    case False
    then obtain idx name where n: "ic_route ic = Some idx" "idx \<noteq> ifidx f" "ic_name ic = Some name" by auto
    obtain rv rt1 where o1: "open_interface (ic_open ic) k name (inet_ifid (conf rt)) rt = Some (rv, rt1)" "conf rt1 = conf rt"
      "rv \<noteq> PCAPD_OK \<longrightarrow> pcapd_inv {} rt1"
      "rv = PCAPD_OK \<longrightarrow> pcapd_inv (case if_pd f of None \<Rightarrow> {} | Some h \<Rightarrow> {h}) rt1 \<and> k < length (ifaces rt1)"
      by (rule open_interface_ok [OF i f])
    show ?thesis
    proof (cases "rv = PCAPD_OK \<and> if_pd f \<noteq> None")
      case False
      then have "check_inet_interface ps ic rt = Some rt1" using n o1(1)
        by (auto simp: check_inet_interface_def Some f)
      then show ?thesis using o1 False by (intro that [of rt1]) auto
    next
      case True
      then obtain old where old: "if_pd f = Some old" by blast
      have i1: "pcapd_inv {old} rt1" "k < length (ifaces rt1)" using o1(4) True old by simp_all
      obtain f1 where f1: "get_iface k rt1 = Some f1" using i1(2) by (simp add: get_iface_def)
      have in1: "old \<in> set (handles rt1)" using i1(1) unfolding pcapd_inv_def handles_ok_def by blast
      let ?s = "read_stats ps old (if_stats f1)"
      let ?rt2 = "rt1\<lparr>rt_stats := sum_stats (rt_stats rt1) ?s\<rparr>"
      let ?rt3 = "set_iface k (f1\<lparr>if_stats := ?s\<rparr>) ?rt2"
      have i2: "pcapd_inv {old} ?rt2" using i1(1) pcapd_inv_same [of ?rt2 rt1] by (simp add: same_rt_def)
      have f2: "get_iface k ?rt2 = Some f1" using f1 by (simp add: get_iface_some)
      have nf: "if_pd f1 = None \<longrightarrow> if_pf f1 = -1" using i1(1) f1 by (auto simp: pcapd_inv_def get_iface_some)
      have i3: "pcapd_inv {old} ?rt3" by (rule set_iface_keep [OF i2 f2]) (use nf in simp_all)
      obtain rt4 where c: "pcap_close old ?rt3 = Some rt4" "pcapd_inv ({old} - {old}) rt4" "same_rt (rt4\<lparr>handles := handles ?rt3\<rparr>) ?rt3"
        by (rule close_extra [OF i3 insertI1])
      have "check_inet_interface ps ic rt = Some rt4"
        using n o1(1) True c(1) f1 in1 by (simp add: check_inet_interface_def Some f old use_handle_def Let_def)
      then show ?thesis using c(2,3) o1(2) by (intro that [of rt4]) (simp_all add: same_rt_def)
    qed
  qed
qed

lemma iface_by_ifidx_range: "iface_by_ifidx_from i idx fs = Some k \<Longrightarrow> k < i + length fs"
  by (induction i idx fs rule: iface_by_ifidx_from.induct) (auto split: if_splits)

lemma iface_by_ifidx_lt: "iface_by_ifidx rt idx = Some k \<Longrightarrow> k < length (ifaces rt)"
  using iface_by_ifidx_range [of 0 idx "ifaces rt" k] by (simp add: iface_by_ifidx_def)

lemma nl_new_addr_ok:
  assumes i: "pcapd_inv {} rt"
  shows "\<exists>rt'. nl_new_addr idx ip ip6 rt = Some rt' \<and> pcapd_inv {} rt' \<and> conf rt' = conf rt"
proof (cases "iface_by_ifidx rt idx")
  case None
  then show ?thesis using i by (simp add: nl_new_addr_def)
next
  case (Some k)
  obtain f where f: "get_iface k rt = Some f" using iface_by_ifidx_lt [OF Some] by (simp add: get_iface_def)
  have nf: "if_pd f = None \<longrightarrow> if_pf f = -1" using i f by (auto simp: pcapd_inv_def get_iface_some)
  have "pcapd_inv {} (set_iface k (f\<lparr>if_ip := case_option (if_ip f) id ip, if_ip6 := case_option 0 id ip6\<rparr>) rt)"
    by (rule set_iface_keep [OF i f]) (use nf in simp_all)
  then show ?thesis by (simp add: nl_new_addr_def Some f)
qed

lemma nl_del_link_ok:
  assumes i: "pcapd_inv {} rt"
  shows "\<exists>r rt'. nl_del_link ps idx recheck rt = Some (r, rt') \<and> pcapd_inv {} rt' \<and> conf rt' = conf rt"
proof (cases "iface_by_ifidx rt idx")
  case None
  then show ?thesis using i by (simp add: nl_del_link_def)
next
  case (Some k)
  note l = iface_by_ifidx_lt [OF Some]
  obtain f where f: "get_iface k rt = Some f" using l by (simp add: get_iface_def)
  have "\<exists>r. (case inet_iface rt of None \<Rightarrow> Some recheck
      | Some k \<Rightarrow> do { g \<leftarrow> get_iface k rt; Some (recheck \<or> ifidx f = ifidx g) }) = Some r"
    using inet_index [OF i] by (auto simp: get_iface_def split: option.splits)
  then obtain r where r: "(case inet_iface rt of None \<Rightarrow> Some recheck
      | Some k \<Rightarrow> do { g \<leftarrow> get_iface k rt; Some (recheck \<or> ifidx f = ifidx g) }) = Some r" by blast
  obtain rt' where "close_interface ps k rt = Some rt'" "pcapd_inv {} rt'" "conf rt' = conf rt"
    by (rule close_interface_ok [OF i l])
  with r show ?thesis by (simp add: nl_del_link_def Some f)
qed

lemma nl_messages_ok:
  "pcapd_inv {} rt \<Longrightarrow> \<exists>r rt'. nl_messages ps msgs recheck rt = Some (r, rt') \<and> pcapd_inv {} rt' \<and> conf rt' = conf rt"
proof (induction ps msgs recheck rt rule: nl_messages.induct)
  case (5 ps idx ip ip6 msgs recheck rt)
  from nl_new_addr_ok [OF "5.prems"] obtain rt1 where r: "nl_new_addr idx ip ip6 rt = Some rt1" "pcapd_inv {} rt1" "conf rt1 = conf rt" by blast
  from "5.IH" [OF r(1,2)] r show ?case by auto
next
  case (6 ps idx msgs recheck rt)
  from nl_del_link_ok [OF "6.prems"] obtain r1 rt1 where r: "nl_del_link ps idx recheck rt = Some (r1, rt1)" "pcapd_inv {} rt1" "conf rt1 = conf rt" by blast
  from "6.IH" [OF r(1) refl r(2)] r show ?case by auto
qed simp_all

lemma handle_nl_ok:
  assumes i: "pcapd_inv {} rt"
  shows "\<exists>ok rt'. handle_nl_message ps received ic rt = Some (ok, rt') \<and> pcapd_inv {} rt' \<and> conf rt' = conf rt"
proof (cases received)
  case None
  then show ?thesis using i by (auto simp add: handle_nl_message_def)
next
  case (Some msgs)
  from nl_messages_ok [OF i] obtain r rt1 where m: "nl_messages ps msgs False rt = Some (r, rt1)" "pcapd_inv {} rt1" "conf rt1 = conf rt" by blast
  obtain rt2 where "check_inet_interface ps ic rt1 = Some rt2" "pcapd_inv {} rt2" "conf rt2 = conf rt1" by (rule check_inet_ok [OF m(2)])
  with m show ?thesis by (cases r) (auto simp: handle_nl_message_def Some)
qed

section \<open>Packets\<close>

lemma is_tx_ip_safe: "off + len \<le> length b \<Longrightarrow> in_bounds (is_tx_ip f b off len)"
  by (auto simp: is_tx_ip_def)

lemma bytes2mac_safe: "in_bounds (bytes2mac b off) \<longleftrightarrow> off + 5 < length b"
  by (auto simp: bytes2mac_def)

lemma is_tx_packet_safe: "unat len \<le> length b \<Longrightarrow> in_bounds (is_tx_packet f b len)"
  unfolding is_tx_packet_def
  by (auto simp: mem_simps bytes2mac_safe intro!: is_tx_ip_safe)

lemma unat_of_nat16_le: "unat (of_nat n :: u16) \<le> n"
  by (simp add: unat_of_nat)

lemma lookup_uid_same: "same_rt (snd (lookup_uid env tuple rt)) rt"
  by (auto simp: lookup_uid_def same_rt_def Let_def split: prod.split)

lemma resolve_pkt_ok: "\<exists>uid rt'. resolve_pkt env f tx b rt = Some (uid, rt') \<and> same_rt rt' rt"
proof -
  obtain r where r: "zdtun_parse_pkt (rt_frags rt) b (of_nat (length b)) = Some r"
    using zdtun_parse_pkt_bounds [OF unat_of_nat16_le [of "length b"]] by blast
  show ?thesis
  proof (cases r)
    case (Inl e)
    then show ?thesis using r by (simp add: resolve_pkt_def same_rt_def)
  next
    case (Inr q)
    obtain z ids where q: "q = (z, ids)" by (cases q)
    define tuple where "tuple = (if tx then p_tuple z else tupleSwapPeers (p_tuple z))"
    let ?rt1 = "rt\<lparr>rt_frags := ids\<rparr>"
    have s: "same_rt (snd (lookup_uid env tuple ?rt1)) rt"
      using lookup_uid_same [of env tuple ?rt1] by (simp add: same_rt_def)
    have "resolve_pkt env f tx b rt = Some (if is_file f then (PCAPD_UID_UNKNOWN, ?rt1) else lookup_uid env tuple ?rt1)"
      unfolding resolve_pkt_def r Inr q Let_def tuple_def by simp
    then show ?thesis using s by (cases "lookup_uid env tuple ?rt1") (auto simp: same_rt_def)
  qed
qed

definition no_uid_filter :: "pcapd_conf \<Rightarrow> bool" where
  "no_uid_filter c \<longleftrightarrow> uid_filter c = None \<or> uid_filter c = Some []"

lemma no_filter_matches: "no_uid_filter c \<Longrightarrow> matches_uid_filter (uid_filter c) uid = Some True"
  by (auto simp: no_uid_filter_def matches_uid_filter_def)

text \<open>Sending a packet or updating counters leaves every handle where it is.\<close>

definition kept :: "pcapd_runtime \<Rightarrow> pcapd_runtime \<Rightarrow> bool" where
  "kept rt rt' \<longleftrightarrow> pcapd_inv {} rt' \<and> conf rt' = conf rt \<and> handles rt' = handles rt \<and> length (ifaces rt') = length (ifaces rt) \<and>
     (\<forall>j < length (ifaces rt). if_pd (ifaces rt' ! j) = if_pd (ifaces rt ! j))"

lemma kept_refl: "pcapd_inv {} rt \<Longrightarrow> kept rt rt"
  by (simp add: kept_def)

lemma kept_same: "pcapd_inv {} rt \<Longrightarrow> same_rt rt' rt \<Longrightarrow> kept rt rt'"
  using pcapd_inv_same [of rt' rt "{}"] by (simp add: kept_def same_rt_def)

lemma kept_trans: "kept a b \<Longrightarrow> kept b c \<Longrightarrow> kept a c"
  by (simp add: kept_def)

lemma kept_set_iface:
  assumes i: "pcapd_inv {} rt" and f: "get_iface i rt = Some f" and p: "if_pd f' = if_pd f" "if_pf f' = if_pf f"
  shows "kept rt (set_iface i f' rt)"
proof -
  have "if_pd f' = None \<longrightarrow> if_pf f' = -1" using i f p by (auto simp: pcapd_inv_def get_iface_some)
  with set_iface_keep [OF i f p(1)] have "pcapd_inv {} (set_iface i f' rt)" by blast
  then show ?thesis using f p by (auto simp: kept_def get_iface_some nth_list_update)
qed

lemma send_frame_ok:
  assumes i: "pcapd_inv {} rt" and f: "get_iface i rt = Some f"
  shows "kept rt (snd (send_frame env i f fr rt))"
proof -
  let ?f = "if is_file f then f\<lparr>if_stats := (if_stats f)\<lparr>ps_recv := ps_recv (if_stats f) + 1\<rparr>\<rparr> else f"
  let ?rt1 = "if no_client (conf rt) then rt else rt\<lparr>written := written rt @ [fr]\<rparr>"
  have k1: "kept rt ?rt1" by (rule kept_same [OF i]) (simp add: same_rt_def)
  then have "kept ?rt1 (set_iface i ?f ?rt1)"
    by (intro kept_set_iface [where f = f]) (use f in \<open>auto simp: kept_def get_iface_some\<close>)
  with k1 i show ?thesis by (auto simp: send_frame_def intro: kept_trans kept_refl)
qed

lemma export_pkt_ok:
  assumes i: "pcapd_inv {} rt" and k: "i < length (ifaces rt)" and c: "no_uid_filter (conf rt)"
  shows "\<exists>rv rt'. export_pkt env i sec usec dat rt = Some (rv, rt') \<and> kept rt rt'"
proof -
  obtain f where f: "get_iface i rt = Some f" using k by (simp add: get_iface_def)
  show ?thesis
  proof (cases "length dat < if_ipoffset f")
    case True
    then show ?thesis using kept_refl [OF i] by (simp add: export_pkt_def f)
  next
    case False
    obtain tx where tx: "is_tx_packet f dat (of_nat (length dat)) = Some tx"
      using is_tx_packet_safe [OF unat_of_nat16_le] unfolding in_bounds_def by blast
    obtain uid rt1 where r: "resolve_pkt env f tx (drop (if_ipoffset f) dat) rt = Some (uid, rt1)" "same_rt rt1 rt"
      using resolve_pkt_ok by blast
    have k1: "kept rt rt1" by (rule kept_same [OF i r(2)])
    have f1: "get_iface i rt1 = Some f" using f r(2) by (simp add: get_iface_some same_rt_def)
    let ?fr = "make_frame rt1 f sec usec dat uid tx"
    have "kept rt1 (snd (send_frame env i f ?fr rt1))"
      by (rule send_frame_ok [OF _ f1]) (use k1 in \<open>simp add: kept_def\<close>)
    then have "kept rt (snd (send_frame env i f ?fr rt1))" by (rule kept_trans [OF k1])
    then show ?thesis
      by (cases "send_frame env i f ?fr rt1") (simp add: export_pkt_def f False tx r(1) no_filter_matches [OF c])
  qed
qed

lemma update_stats_ok:
  assumes i: "pcapd_inv {} rt" and k: "i < length (ifaces rt)" and p: "if_pd (ifaces rt ! i) \<noteq> None"
  shows "\<exists>rt'. update_stats_at ps i now rt = Some rt' \<and> kept rt rt'"
proof -
  obtain h where f: "get_iface i rt = Some (ifaces rt ! i)" and h: "if_pd (ifaces rt ! i) = Some h" using k p by (auto simp: get_iface_def)
  have "h \<in> set (handles rt)" by (rule held_handle [OF i f h])
  moreover have "kept rt (set_iface i ((ifaces rt ! i)\<lparr>if_stats := s, next_stats_update := n\<rparr>) rt)" for s n
    by (rule kept_set_iface [OF i f]) simp_all
  ultimately show ?thesis using kept_refl [OF i] by (simp add: update_stats_at_def f h use_handle_def)
qed

text \<open>One step of the loop keeps the invariant and the configuration.\<close>

definition ok_after :: "pcapd_runtime \<Rightarrow> pcapd_runtime \<Rightarrow> bool" where
  "ok_after rt rt' \<longleftrightarrow> pcapd_inv {} rt' \<and> conf rt' = conf rt \<and> length (ifaces rt') = length (ifaces rt)"

lemma ok_afterI: "pcapd_inv {} rt \<Longrightarrow> pcapd_inv {} rt' \<Longrightarrow> conf rt' = conf rt \<Longrightarrow> ok_after rt rt'"
  by (simp add: ok_after_def pcapd_inv_def)

lemma kept_ok_after: "kept rt rt' \<Longrightarrow> ok_after rt rt'"
  by (simp add: kept_def ok_after_def)

lemma read_pkt_ok:
  assumes i: "pcapd_inv {} rt" and k: "i < length (ifaces rt)" and p: "if_pd (ifaces rt ! i) \<noteq> None" and c: "no_uid_filter (conf rt)"
  shows "\<exists>rv rt'. read_pkt env ps i now ev rt = Some (rv, rt') \<and> ok_after rt rt'"
proof -
  obtain h where f: "get_iface i rt = Some (ifaces rt ! i)" and h: "if_pd (ifaces rt ! i) = Some h" using k p by (auto simp: get_iface_def)
  have u: "use_handle h rt = Some ()" using held_handle [OF i f h] by (simp add: use_handle_def)
  show ?thesis
  proof (cases ev)
    case Pkt_Error
    obtain rt1 where "close_interface ps i rt = Some rt1" "pcapd_inv {} rt1" "conf rt1 = conf rt" by (rule close_interface_ok [OF i k])
    then show ?thesis using ok_afterI [OF i] by (simp add: read_pkt_def f h u Pkt_Error)
  next
    case (Pkt sec usec dat)
    obtain rv rt1 where e: "export_pkt env i sec usec dat rt = Some (rv, rt1)" "kept rt rt1" using export_pkt_ok [OF i k c] by blast
    show ?thesis
    proof (cases "rv = PCAPD_OK")
      case True
      have k1: "pcapd_inv {} rt1" "i < length (ifaces rt1)" "if_pd (ifaces rt1 ! i) \<noteq> None" using e(2) k h by (auto simp: kept_def)
      obtain rt2 where "update_stats_at ps i now rt1 = Some rt2" "kept rt1 rt2" using update_stats_ok [OF k1] by blast
      then show ?thesis using e True kept_trans [OF e(2)] kept_ok_after by (auto simp: read_pkt_def f h u Pkt)
    next
      case False
      then show ?thesis using e kept_ok_after by (auto simp: read_pkt_def f h u Pkt)
    qed
  qed (use kept_ok_after [OF kept_refl [OF i]] in \<open>simp_all add: read_pkt_def f h u\<close>)
qed

lemma ok_after_trans: "ok_after a b \<Longrightarrow> ok_after b c \<Longrightarrow> ok_after a c"
  by (simp add: ok_after_def)

definition loop_ok :: "pcapd_conf \<Rightarrow> pcapd_loop \<Rightarrow> bool" where
  "loop_ok c lp \<longleftrightarrow> pcapd_inv {} (runtime lp) \<and> conf (runtime lp) = c \<and> length (ifaces (runtime lp)) = length (ifnames c)"

lemma loop_ok_after: "loop_ok c lp \<Longrightarrow> ok_after (runtime lp) (runtime lp') \<Longrightarrow> loop_ok c lp'"
  by (simp add: loop_ok_def ok_after_def)

lemma read_ifaces_ok:
  "loop_ok c lp \<Longrightarrow> no_uid_filter c \<Longrightarrow> \<forall>i \<in> set is. i < length (ifnames c) \<Longrightarrow>
     \<exists>lp'. read_ifaces env ps ev fds is lp = Some lp' \<and> loop_ok c lp'"
proof (induction "is" arbitrary: lp)
  case (Cons i "is")
  let ?rt = "runtime lp"
  have i: "pcapd_inv {} ?rt" "i < length (ifaces ?rt)" "conf ?rt = c" using Cons.prems by (auto simp: loop_ok_def)
  obtain f where f: "get_iface i ?rt = Some f" using i by (simp add: get_iface_def)
  show ?case
  proof (cases "if_pf f \<noteq> -1 \<and> if_pf f \<in> fds")
    case False
    then have "read_ifaces env ps ev fds (i # is) lp = read_ifaces env ps ev fds is lp" by (auto simp: f)
    with Cons show ?thesis by simp
  next
    case True
    then have "if_pd (ifaces ?rt ! i) \<noteq> None" using i(1) f by (auto simp: pcapd_inv_def get_iface_some)
    with i Cons.prems(2) obtain rv rt1 where r: "read_pkt env ps i (ev_now ev) (ev_pkts ev i) ?rt = Some (rv, rt1)" "ok_after ?rt rt1"
      using read_pkt_ok by blast
    show ?thesis
    proof (cases "rv = PCAPD_OK")
      case True
      have "loop_ok c (lp\<lparr>result := PCAPD_OK, runtime := rt1\<rparr>)" by (rule loop_ok_after [OF Cons.prems(1)]) (simp add: r(2))
      from Cons.IH [OF this Cons.prems(2)] Cons.prems(3) True r(1) \<open>if_pf f \<noteq> -1 \<and> if_pf f \<in> fds\<close> show ?thesis by (simp add: f)
    next
      case False
      have "loop_ok c (lp\<lparr>running := False, result := (if rv = PCAPD_EOF then PCAPD_OK else rv), runtime := rt1\<rparr>)"
        by (rule loop_ok_after [OF Cons.prems(1)]) (simp add: r(2))
      with False r(1) True show ?thesis by (simp add: f)
    qed
  qed
qed simp

lemma retry_inet_ok:
  assumes l: "loop_ok c lp"
  shows "\<exists>lp'. retry_inet ps ev lp = Some lp' \<and> loop_ok c lp'"
proof (cases "inet_iface (runtime lp)")
  case None
  then show ?thesis using l by (simp add: retry_inet_def)
next
  case (Some i)
  have iv: "pcapd_inv {} (runtime lp)" using l by (simp add: loop_ok_def)
  obtain f where f: "get_iface i (runtime lp) = Some f" using inet_index [OF iv Some] by (simp add: get_iface_def)
  obtain rt1 where r: "check_inet_interface ps (ev_inet_retry ev) (runtime lp) = Some rt1" "pcapd_inv {} rt1" "conf rt1 = conf (runtime lp)"
    by (rule check_inet_ok [OF iv])
  have "loop_ok c (lp\<lparr>runtime := rt1, next_interface_recheck := ev_now ev + 2\<rparr>)"
    by (rule loop_ok_after [OF l]) (simp add: ok_afterI [OF iv r(2,3)])
  with r(1) l show ?thesis by (simp add: retry_inet_def Some f)
qed

lemma pcapd_step_ok:
  assumes l: "loop_ok c lp" and c: "no_uid_filter c"
  shows "\<exists>lp'. pcapd_step env ps ev lp = Some lp' \<and> loop_ok c lp'"
proof (cases "running lp \<and> (\<exists>fds. ev_select ev = Select_Ready fds)")
  case False
  then show ?thesis using l by (cases "ev_select ev") (auto simp: pcapd_step_def loop_ok_def)
next
  case True
  then obtain ready where s: "running lp" "ev_select ev = Select_Ready ready" by blast
  let ?rt = "runtime lp"
  let ?fds = "ready \<inter> sel_fds ?rt"
  have i: "pcapd_inv {} ?rt" using l by (simp add: loop_ok_def)
  consider "0 < client ?rt \<and> client ?rt \<in> ?fds"
    | "\<not> (0 < client ?rt \<and> client ?rt \<in> ?fds)" "0 < nlroute_sock ?rt \<and> nlroute_sock ?rt \<in> ?fds"
    | "\<not> (0 < client ?rt \<and> client ?rt \<in> ?fds)" "\<not> (0 < nlroute_sock ?rt \<and> nlroute_sock ?rt \<in> ?fds)" by blast
  then show ?thesis
  proof cases
    case 1
    then show ?thesis using l s by (simp add: pcapd_step_def loop_ok_def)
  next
    case 2
    obtain ok rt1 where h: "handle_nl_message ps (ev_nl ev) (ev_inet_nl ev) ?rt = Some (ok, rt1)" "pcapd_inv {} rt1" "conf rt1 = conf ?rt"
      using handle_nl_ok [OF i] by blast
    let ?lp1 = "lp\<lparr>runtime := rt1\<lparr>sel_fds := get_selectable_fds rt1\<rparr>\<rparr>"
    have a: "ok_after ?rt rt1" by (rule ok_afterI [OF i h(2,3)])
    have "same_rt (rt1\<lparr>sel_fds := get_selectable_fds rt1\<rparr>) rt1" by (simp add: same_rt_def)
    then have "loop_ok c ?lp1" using loop_ok_after [OF l, of ?lp1] a kept_same [OF h(2)] kept_ok_after ok_after_trans by fastforce
    from retry_inet_ok [OF this] show ?thesis using a s 2 h(1) loop_ok_after [OF l]
      unfolding pcapd_step_def Let_def s(2) select_result.case if_not_P [OF 2(1)] if_P [OF 2(2)] by auto
  next
    case 3
    have "\<forall>i \<in> set [0..<length (ifaces ?rt)]. i < length (ifnames c)" using l by (simp add: loop_ok_def)
    from read_ifaces_ok [OF l c this] obtain lp1 where r: "read_ifaces env ps ev ?fds [0..<length (ifaces ?rt)] lp = Some lp1" "loop_ok c lp1" by blast
    from retry_inet_ok [OF r(2)] show ?thesis using s r(1)
      unfolding pcapd_step_def Let_def s(2) select_result.case if_not_P [OF 3(1)] if_not_P [OF 3(2)] by simp
  qed
qed

text \<open>The loop is a safe machine: every event succeeds and keeps the invariant.\<close>

interpretation daemon: safe_machine "\<lambda>lp. loop_ok c lp \<and> no_uid_filter c" "\<lambda>_. True" "pcapd_step env ps" for c env ps
  using pcapd_step_ok by unfold_locales blast

section \<open>Start and end\<close>

lemma new_runtime_inv: "conf_ok c \<Longrightarrow> pcapd_inv {} (new_runtime c)"
  by (auto simp: pcapd_inv_def new_runtime_def handles_ok_def holds_def init_interface_def)

lemma new_runtime_fields [simp]: "conf (new_runtime c) = c"
  by (simp add: new_runtime_def)

lemma init_same: "same_rt (snd (init_pcapd_capture io c)) (new_runtime c)"
  by (auto simp: init_pcapd_capture_def Let_def same_rt_def split: option.split)

lemma pcap_close_frame: "pcap_close h rt = Some rt' \<Longrightarrow> ifaces rt' = ifaces rt"
  by (auto simp: pcap_close_def split: if_splits)

lemma open_interface_frame:
  "open_interface r k name ifid rt = Some (rv, rt') \<Longrightarrow> j \<noteq> k \<Longrightarrow> ifaces rt' ! j = ifaces rt ! j"
  by (auto simp: open_interface_def Let_def bind_eq_Some_conv dest!: pcap_close_frame split: if_splits option.splits)

lemma check_inet_cases:
  assumes c: "check_inet_interface ps ic rt = Some rt'"
  obtains "rt' = rt"
  | k f name rv rt1 where "inet_iface rt = Some k" and "get_iface k rt = Some f"
    and "open_interface (ic_open ic) k name (inet_ifid (conf rt)) rt = Some (rv, rt1)"
    and "rt' = rt1 \<or> (\<exists>old f1 s. pcap_close old (set_iface k f1 (rt1\<lparr>rt_stats := s\<rparr>)) = Some rt')"
proof (cases "rt' = rt")
  case False
  with c obtain k where k0: "inet_iface rt = Some k" by (cases "inet_iface rt") (auto simp: check_inet_interface_def)
  with c obtain f where f0: "get_iface k rt = Some f" by (cases "get_iface k rt") (auto simp: check_inet_interface_def)
  with c False k0 obtain idx where "ic_route ic = Some idx" "idx \<noteq> ifidx f"
    by (cases "ic_route ic") (auto simp: check_inet_interface_def split: if_splits)
  with c False k0 f0 obtain name where n: "ic_route ic = Some idx" "idx \<noteq> ifidx f" "ic_name ic = Some name"
    by (cases "ic_name ic") (auto simp: check_inet_interface_def)
  with c k0 f0 obtain rv rt1 where o1: "open_interface (ic_open ic) k name (inet_ifid (conf rt)) rt = Some (rv, rt1)"
    by (cases "open_interface (ic_open ic) k name (inet_ifid (conf rt)) rt") (auto simp: check_inet_interface_def)
  note f = k0 f0
  have r: "(if rv \<noteq> PCAPD_OK then Some rt1
             else case if_pd f of None \<Rightarrow> Some rt1
             | Some old \<Rightarrow> do {
                 f1 \<leftarrow> get_iface k rt1;
                 _ \<leftarrow> use_handle old rt1;
                 let s = read_stats ps old (if_stats f1);
                 pcap_close old (set_iface k (f1\<lparr>if_stats := s\<rparr>) (rt1\<lparr>rt_stats := sum_stats (rt_stats rt1) s\<rparr>)) }) = Some rt'"
    using c n by (simp add: check_inet_interface_def f o1)
  have "rt' = rt1 \<or> (\<exists>old f1 s. pcap_close old (set_iface k f1 (rt1\<lparr>rt_stats := s\<rparr>)) = Some rt')"
    using r by (auto simp: bind_eq_Some_conv Let_def split: if_split_asm option.splits)
  with k0 f0 o1 show ?thesis by (rule that(2))
qed (rule that(1))

lemma check_inet_frame:
  assumes c: "check_inet_interface ps ic rt = Some rt'" and j: "inet_iface rt \<noteq> Some j"
  shows "ifaces rt' ! j = ifaces rt ! j"
  using c
proof (cases rule: check_inet_cases)
  case (2 k f name rv rt1)
  have k: "j \<noteq> k" using j 2(1) by blast
  have "ifaces rt1 ! j = ifaces rt ! j" by (rule open_interface_frame [OF 2(3) k])
  moreover have "ifaces rt' ! j = ifaces rt1 ! j" using 2(4) k by (auto dest!: pcap_close_frame)
  ultimately show ?thesis by simp
qed simp

definition fresh_ifaces :: "nat list \<Rightarrow> pcapd_runtime \<Rightarrow> bool" where
  "fresh_ifaces is rt \<longleftrightarrow>
     (\<forall>i \<in> set is. i < length (ifaces rt) \<and> (ifnames (conf rt) ! i \<noteq> ''@inet'' \<longrightarrow> if_pd (ifaces rt ! i) = None))"

lemma open_interfaces_ok:
  "pcapd_inv {} rt \<Longrightarrow> fresh_ifaces is rt \<Longrightarrow> distinct is \<Longrightarrow>
     \<exists>rv rt'. open_interfaces op is rt = Some (rv, rt') \<and> pcapd_inv {} rt' \<and> conf rt' = conf rt"
proof (induction "is" arbitrary: rt)
  case (Cons i "is")
  show ?case
  proof (cases "ifnames (conf rt) ! i = ''@inet''")
    case True
    have "fresh_ifaces is rt" using Cons.prems(2) by (simp add: fresh_ifaces_def)
    with Cons True show ?thesis by simp
  next
    case False
    with Cons.prems(2) have f: "get_iface i rt = Some (ifaces rt ! i)" and pd: "if_pd (ifaces rt ! i) = None"
      by (auto simp: fresh_ifaces_def get_iface_def)
    obtain rv rt1 where o1: "open_interface (op i) i (ifnames (conf rt) ! i) (int i) rt = Some (rv, rt1)" "conf rt1 = conf rt"
      "rv \<noteq> PCAPD_OK \<longrightarrow> pcapd_inv {} rt1"
      "rv = PCAPD_OK \<longrightarrow> pcapd_inv (case if_pd (ifaces rt ! i) of None \<Rightarrow> {} | Some h \<Rightarrow> {h}) rt1 \<and> i < length (ifaces rt1)"
      by (rule open_interface_ok [OF Cons.prems(1) f])
    have i1: "pcapd_inv {} rt1" using o1(3,4) by (cases "rv = PCAPD_OK") (simp_all add: pd)
    have "length (ifaces rt1) = length (ifaces rt)" using i1 o1(2) Cons.prems(1) by (simp add: pcapd_inv_def)
    then have "fresh_ifaces is rt1" using Cons.prems(2,3) open_interface_frame [OF o1(1)] o1(2)
      unfolding fresh_ifaces_def by (metis distinct.simps(2) list.set_intros(2))
    with Cons.IH [OF i1] Cons.prems(3) o1 i1 False show ?thesis by auto
  qed
qed simp

lemma close_interfaces_ok:
  "pcapd_inv {} rt \<Longrightarrow> \<forall>i \<in> set is. i < length (ifaces rt) \<Longrightarrow>
     \<exists>rt'. close_interfaces ps is rt = Some rt' \<and> pcapd_inv {} rt' \<and> conf rt' = conf rt \<and>
       (\<forall>j. j \<in> set is \<or> if_pd (ifaces rt ! j) = None \<longrightarrow> if_pd (ifaces rt' ! j) = None)"
proof (induction "is" arbitrary: rt)
  case (Cons i "is")
  have l: "i < length (ifaces rt)" using Cons.prems by simp
  obtain rt1 where c: "close_interface ps i rt = Some rt1" "pcapd_inv {} rt1" "conf rt1 = conf rt"
    and n: "if_pd (ifaces rt1 ! i) = None" "\<forall>j. if_pd (ifaces rt ! j) = None \<longrightarrow> if_pd (ifaces rt1 ! j) = None"
    by (rule close_interface_ok [OF Cons.prems(1) l, of ps])
  have "length (ifaces rt1) = length (ifaces rt)" using c(2,3) Cons.prems(1) by (simp add: pcapd_inv_def)
  with Cons.IH [OF c(2)] Cons.prems(2) obtain rt2 where r: "close_interfaces ps is rt1 = Some rt2" "pcapd_inv {} rt2" "conf rt2 = conf rt1"
    "\<forall>j. j \<in> set is \<or> if_pd (ifaces rt1 ! j) = None \<longrightarrow> if_pd (ifaces rt2 ! j) = None" by auto
  with c n show ?case by auto
qed simp

lemma finish_ok:
  assumes i: "pcapd_inv {} rt"
  shows "\<exists>rt'. finish_pcapd_capture ps rt = Some rt' \<and> handles rt' = []"
proof -
  obtain rt' where r: "finish_pcapd_capture ps rt = Some rt'" "pcapd_inv {} rt'" "conf rt' = conf rt"
    "\<forall>j. j < length (ifaces rt) \<longrightarrow> if_pd (ifaces rt' ! j) = None"
    using close_interfaces_ok [OF i, of "[0..<length (ifaces rt)]" ps] by (auto simp: finish_pcapd_capture_def)
  have "length (ifaces rt') = length (ifaces rt)" using i r(2,3) by (simp add: pcapd_inv_def)
  with r(4) have "\<not> holds (ifaces rt') j h" for j h by (simp add: holds_def)
  moreover have "h \<in> set (handles rt') \<longleftrightarrow> (\<exists>j. holds (ifaces rt') j h)" for h
    using r(2) unfolding pcapd_inv_def handles_ok_def by blast
  ultimately have "h \<notin> set (handles rt')" for h by blast
  then have "handles rt' = []" by (cases "handles rt'") auto
  with r(1) show ?thesis by simp
qed

section \<open>Configuration\<close>

lemma parse_opt_ok: "parse_opt opt c = Inr c' \<Longrightarrow> conf_ok c \<Longrightarrow> conf_ok c'"
  by (cases opt) (auto simp: parse_opt_def add_interface_def conf_ok_def Let_def nth_append split: if_splits sum.splits)

lemma parse_opts_ok: "parse_opts opts c = Inr c' \<Longrightarrow> conf_ok c \<Longrightarrow> conf_ok c'"
  by (induction opts c rule: parse_opts.induct) (auto split: sum.splits dest: parse_opt_ok)

lemma parse_args_ok: "parse_args opts pos = Inr c \<Longrightarrow> conf_ok c"
proof -
  assume "parse_args opts pos = Inr c"
  then obtain c1 where c1: "parse_opts opts init_conf = Inr c1" "c = (if ifnames c1 = [] then c1\<lparr>inet_ifid := 0, ifnames := [''@inet'']\<rparr> else c1)"
    by (auto simp: parse_args_def split: sum.splits if_splits)
  have "conf_ok init_conf" by (simp add: conf_ok_def init_conf_def)
  from parse_opts_ok [OF c1(1) this] c1(2) show "conf_ok c" by (auto simp: conf_ok_def)
qed

section \<open>The whole run\<close>

lemma pcapd_start_ok:
  assumes c: "conf_ok c"
  shows "\<exists>lp. pcapd_start ps io ic op c = Some lp \<and> loop_ok c lp"
proof -
  obtain ok rt where r: "init_pcapd_capture io c = (ok, rt)" by fastforce
  have s: "same_rt rt (new_runtime c)" using init_same [of io c] r by simp
  have i: "pcapd_inv {} rt" "conf rt = c" using pcapd_inv_same [OF s] new_runtime_inv [OF c] s by (simp_all add: same_rt_def)
  show ?thesis
  proof (cases ok)
    case False
    then show ?thesis using i by (simp add: pcapd_start_def r loop_ok_def pcapd_inv_def)
  next
    case True
    obtain rt1 where k: "check_inet_interface ps ic rt = Some rt1" "pcapd_inv {} rt1" "conf rt1 = conf rt" by (rule check_inet_ok [OF i(1)])
    have fresh: "fresh_ifaces [0..<length (ifnames c)] rt1"
    proof -
      have l: "length (ifaces rt1) = length (ifnames c)" using k(2,3) i(2) by (simp add: pcapd_inv_def)
      have "if_pd (ifaces rt1 ! j) = None" if j: "j < length (ifnames c)" "ifnames c ! j \<noteq> ''@inet''" for j
      proof -
        have "inet_iface rt \<noteq> Some j" using c j i(2) by (auto simp: inet_iface_def conf_ok_def)
        then have "ifaces rt1 ! j = ifaces rt ! j" by (rule check_inet_frame [OF k(1)])
        then show ?thesis using s j(1) by (simp add: same_rt_def new_runtime_def init_interface_def)
      qed
      then show ?thesis using l k(3) i(2) by (simp add: fresh_ifaces_def)
    qed
    obtain rv rt2 where o2: "open_interfaces op [0..<length (ifnames c)] rt1 = Some (rv, rt2)" "pcapd_inv {} rt2" "conf rt2 = conf rt1"
      using open_interfaces_ok [OF k(2) fresh, of op] by auto
    have "pcapd_inv {} (rt2\<lparr>sel_fds := get_selectable_fds rt2\<rparr>)"
      using o2(2) pcapd_inv_same [of "rt2\<lparr>sel_fds := get_selectable_fds rt2\<rparr>" rt2] by (simp add: same_rt_def)
    then show ?thesis using r True k o2 i(2) by (auto simp: pcapd_start_def loop_ok_def pcapd_inv_def)
  qed
qed

lemma run_pcap_dump_ok:
  assumes "conf_ok c" "no_uid_filter c"
  shows "\<exists>rv rt. run_pcap_dump env ps True io ic op c evs = Some (rv, rt) \<and> handles rt = []"
proof -
  obtain lp where s: "pcapd_start ps io ic op c = Some lp" "loop_ok c lp" using pcapd_start_ok [OF assms(1)] by blast
  obtain lp1 where r: "run_steps (pcapd_step env ps) evs lp = Some lp1" "loop_ok c lp1"
    using daemon.run_ok [of c lp evs env ps] s(2) assms(2) by blast
  then have "pcapd_inv {} (runtime lp1)" by (simp add: loop_ok_def)
  from finish_ok [OF this, of ps] s(1) r(1) show ?thesis by (auto simp: run_pcap_dump_def)
qed

text \<open>
  C37: the daemon is safe and leaves nothing open. With any configuration its command line can give (without a UID
  filter), whatever opening the interfaces, the netlink messages, \<open>select\<close> and libpcap return, for any packets of any
  contents and however long it runs: no byte is read outside a captured packet, no capture handle is used after it
  was closed or closed twice, and at the end every one that was opened is closed.
\<close>

theorem pcapd_no_handle_leak:
  assumes "parse_args opts pos = Inr c" and "uid_filter c = None"
  shows "\<exists>rv rt. run_pcap_dump env ps True io ic op c evs = Some (rv, rt) \<and> handles rt = []"
  using run_pcap_dump_ok [OF parse_args_ok [OF assms(1)]] assms(2) by (simp add: no_uid_filter_def)

theorem pcapd_no_handle_leak_witness:
  "\<exists>c. parse_args [(CHR ''i'', ''wlan0''), (CHR ''i'', ''@inet''), (CHR ''d'', [])] False = Inr c \<and>
     (\<forall>evs. \<exists>rv rt. run_pcap_dump \<lparr>nl_get_uid = (\<lambda>_. 1000), get_uid = (\<lambda>_. -1), write_ok = True\<rparr> (\<lambda>_. None) True
       \<lparr>io_lru = True, io_resolver = True, io_pid_file = True, io_nlroute = 3, io_nldiag = Some 4, io_client = 5, io_connect = True\<rparr>
       \<lparr>ic_route = Some 2, ic_name = Some ''rmnet0'', ic_open = \<lparr>or_live = True, or_file = False, or_dlink = 12, or_compile = True,
          or_setfilter = True, or_fd = 6, or_ifidx = 2, or_mac = None, or_ip = Some 1, or_ip6 = None\<rparr>\<rparr>
       (\<lambda>_. \<lparr>or_live = True, or_file = False, or_dlink = 1, or_compile = True,
          or_setfilter = True, or_fd = 7, or_ifidx = 3, or_mac = Some 5, or_ip = Some 2, or_ip6 = None\<rparr>)
       c evs = Some (rv, rt) \<and> handles rt = [])"
proof -
  obtain c where c: "parse_args [(CHR ''i'', ''wlan0''), (CHR ''i'', ''@inet''), (CHR ''d'', [])] False = Inr c" "uid_filter c = None"
    by (simp add: parse_args_def parse_opt_def getopt_char_def add_interface_def init_conf_def)
  from pcapd_no_handle_leak [OF c] c(1) show ?thesis by blast
qed

section \<open>Two oversights of the daemon\<close>

text \<open>
  The packet type of an SLL2 header is one byte, yet it is converted from network order: a packet marked as outgoing
  is never recognised as such and its direction is taken from the addresses.
\<close>

lemma sll2_outgoing_ignored:
  assumes "if_dlink f = DLT_LINUX_SLL2" "20 \<le> unat len" "unat len \<le> length pkt" "pkt ! 10 = 4"
  shows "is_tx_packet f pkt len = is_tx_ip f pkt 20 (unat len - 20)"
proof -
  have "htons 4 \<noteq> 4" "htons 4 \<noteq> 0" by code_simp+
  then show ?thesis using assms by (simp add: is_tx_packet_def)
qed

text \<open>Opening the internet interface again at the end of an iteration leaves the set given to \<open>select\<close> as it was.\<close>

lemma pcap_close_fds: "pcap_close h rt = Some rt' \<Longrightarrow> sel_fds rt' = sel_fds rt"
  by (auto simp: pcap_close_def split: if_splits)

lemma open_interface_fds: "open_interface r k n i rt = Some (rv, rt') \<Longrightarrow> sel_fds rt' = sel_fds rt"
proof -
  let ?h = "next_handle rt"
  let ?rt = "rt\<lparr>handles := ?h # handles rt, next_handle := ?h + 1\<rparr>"
  assume o1: "open_interface r k n i rt = Some (rv, rt')"
  have "rt' = rt \<or> pcap_close ?h ?rt = Some rt' \<or> (\<exists>f m. rt' = (set_iface k f ?rt)\<lparr>maxfd := m\<rparr>)"
    using o1 unfolding open_interface_def Let_def
    by (clarsimp simp: bind_eq_Some_conv split: if_split_asm option.split_asm) blast+
  then show ?thesis by (elim disjE exE) (simp_all add: pcap_close_fds)
qed

lemma check_inet_fds:
  assumes "check_inet_interface ps ic rt = Some rt'"
  shows "sel_fds rt' = sel_fds rt"
  using assms
proof (cases rule: check_inet_cases)
  case (2 k f name rv rt1)
  then show ?thesis using open_interface_fds [OF 2(3)] by (elim disjE exE) (simp_all add: pcap_close_fds)
qed simp

lemma retry_inet_keeps_fds:
  assumes "retry_inet ps ev lp = Some lp'"
  shows "sel_fds (runtime lp') = sel_fds (runtime lp)"
  using assms unfolding retry_inet_def
  by (cases "inet_iface (runtime lp)") (auto simp: bind_eq_Some_conv check_inet_fds split: if_split_asm)

end
