(* ===== verification/Pcapd_Exit.thy ===== *)
theory Pcapd_Exit
  imports Pcapd_Safety
begin

text \<open>
  The exit codes of the daemon: every code it can end with, and what must have happened for it. The capture
  process turns the code into the message shown to the user.
\<close>

section \<open>Causes\<close>

text \<open>
  The cause of each exit code over a run with the given start, the interfaces \<open>op\<close> opens and the events. Reading the
  end of a file is a normal end, so \<open>PCAPD_EOF\<close> never leaves the daemon.
\<close>

fun exit_cause ::
    "pcapd_env \<Rightarrow> init_outcome \<Rightarrow> (nat \<Rightarrow> open_result) \<Rightarrow> pcapd_conf \<Rightarrow> pcapd_event list \<Rightarrow> pcapd_rv \<Rightarrow> bool" where
  "exit_cause env io op c evs PCAPD_OK \<longleftrightarrow> fst (init_pcapd_capture io c)"
| "exit_cause env io op c evs PCAPD_ERROR \<longleftrightarrow>
     \<not> fst (init_pcapd_capture io c) \<or> (\<exists>ev \<in> set evs. ev_select ev = Select_Error)"
| "exit_cause env io op c evs PCAPD_INTERFACE_OPEN_FAILED \<longleftrightarrow>
     (\<exists>i < length (ifnames c). \<not> or_live (op i) \<and> \<not> or_file (op i) \<or> \<not> or_compile (op i) \<or> \<not> or_setfilter (op i))"
| "exit_cause env io op c evs PCAPD_UNSUPPORTED_DATALINK \<longleftrightarrow>
     (\<exists>i < length (ifnames c). dlink_ipoffset (or_dlink (op i)) = None)"
| "exit_cause env io op c evs PCAPD_NETLINK_ERROR \<longleftrightarrow> (\<exists>ev \<in> set evs. ev_nl ev = None)"
| "exit_cause env io op c evs PCAPD_PCAP_READ_ERROR \<longleftrightarrow>
     (\<exists>ev \<in> set evs. \<exists>i < length (ifnames c). int i \<noteq> inet_ifid c \<and> ev_pkts ev i = Pkt_Error)"
| "exit_cause env io op c evs PCAPD_SOCKET_WRITE_ERROR \<longleftrightarrow> \<not> no_client c \<and> \<not> write_ok env"
| "exit_cause env io op c evs PCAPD_EOF \<longleftrightarrow> False"

section \<open>Lemmas\<close>

lemma send_frame_rv:
  "fst (send_frame env i f fr rt) = (if \<not> no_client (conf rt) \<and> \<not> write_ok env then PCAPD_SOCKET_WRITE_ERROR else PCAPD_OK)"
  by (simp add: send_frame_def)

lemma export_pkt_rv:
  assumes "export_pkt env i sec usec dat rt = Some (rv, rt')"
  shows "rv = PCAPD_OK \<or> rv = PCAPD_SOCKET_WRITE_ERROR \<and> \<not> no_client (conf rt) \<and> \<not> write_ok env"
proof -
  have c: "conf rt1 = conf rt" if "resolve_pkt env f tx b rt = Some (uid, rt1)" for f tx b uid rt1
    using resolve_pkt_ok [of env f tx b rt] that by (auto simp: same_rt_def)
  obtain f where f: "get_iface i rt = Some f" using assms by (auto simp: export_pkt_def bind_eq_Some_conv)
  show ?thesis
  proof (cases "length dat < if_ipoffset f")
    case True
    then show ?thesis using assms by (simp add: export_pkt_def f)
  next
    case False
    then obtain tx uid rt1 ok where r: "resolve_pkt env f tx (drop (if_ipoffset f) dat) rt = Some (uid, rt1)"
      and s: "(if ok then send_frame env i f (make_frame rt1 f sec usec dat uid tx) rt1 else (PCAPD_OK, rt1)) = (rv, rt')"
      using assms by (auto simp: export_pkt_def f bind_eq_Some_conv)
    show ?thesis
    proof (cases ok)
      case True
      then have "rv = fst (send_frame env i f (make_frame rt1 f sec usec dat uid tx) rt1)" using s by (metis fst_conv)
      then show ?thesis unfolding send_frame_rv c [OF r] by simp
    qed (use s in simp)
  qed
qed

lemma read_pkt_rv:
  assumes "read_pkt env ps i now ev rt = Some (rv, rt')"
  shows "rv = PCAPD_OK \<or> rv = PCAPD_EOF \<or> rv = PCAPD_PCAP_READ_ERROR \<and> ev = Pkt_Error \<and> inet_iface rt \<noteq> Some i \<or>
    rv = PCAPD_SOCKET_WRITE_ERROR \<and> \<not> no_client (conf rt) \<and> \<not> write_ok env"
proof (cases ev)
  case (Pkt sec usec dat)
  then obtain rv1 rt1 where "export_pkt env i sec usec dat rt = Some (rv1, rt1)" "rv = rv1 \<or> rv = PCAPD_OK"
    using assms by (auto simp: read_pkt_def bind_eq_Some_conv split: if_split_asm)
  with export_pkt_rv show ?thesis by blast
qed (use assms in \<open>auto simp: read_pkt_def bind_eq_Some_conv split: if_split_asm\<close>)

lemma inet_iface_eq: "conf_ok (conf rt) \<Longrightarrow> inet_iface rt = Some i \<longleftrightarrow> inet_ifid (conf rt) = int i"
  by (auto simp: conf_ok_def inet_iface_def)

text \<open>The configuration, and what the interfaces read in one iteration can end with.\<close>

lemma read_ifaces_rv:
  assumes "read_ifaces env ps ev fds is lp = Some lp'" "loop_ok c lp" "no_uid_filter c" "\<forall>i \<in> set is. i < length (ifnames c)"
    "exit_cause env io op c evs (result lp)" "ev \<in> set evs" "fst (init_pcapd_capture io c)"
  shows "exit_cause env io op c evs (result lp')"
  using assms
proof (induction "is" arbitrary: lp)
  case (Cons i "is")
  let ?rt = "runtime lp"
  have i: "pcapd_inv {} ?rt" "i < length (ifaces ?rt)" "conf ?rt = c" using Cons.prems(2,4) by (auto simp: loop_ok_def)
  obtain f where f: "get_iface i ?rt = Some f" using i by (simp add: get_iface_def)
  show ?case
  proof (cases "if_pf f \<noteq> -1 \<and> if_pf f \<in> fds")
    case False
    then have "read_ifaces env ps ev fds is lp = Some lp'" using Cons.prems(1) by (auto simp: f)
    with Cons show ?thesis by simp
  next
    case True
    then have "if_pd (ifaces ?rt ! i) \<noteq> None" using i(1) f by (auto simp: pcapd_inv_def get_iface_some)
    with i Cons.prems(3) obtain rv rt1 where r: "read_pkt env ps i (ev_now ev) (ev_pkts ev i) ?rt = Some (rv, rt1)" "ok_after ?rt rt1"
      using read_pkt_ok by blast
    show ?thesis
    proof (cases "rv = PCAPD_OK")
      case ok: True
      let ?lp = "lp\<lparr>result := PCAPD_OK, runtime := rt1\<rparr>"
      have "loop_ok c ?lp" by (rule loop_ok_after [OF Cons.prems(2)]) (simp add: r(2))
      moreover have "read_ifaces env ps ev fds is ?lp = Some lp'" using Cons.prems(1) r(1) ok True by (simp add: f)
      ultimately show ?thesis using Cons.IH Cons.prems by simp
    next
      case False
      then have l: "lp' = lp\<lparr>running := False, result := (if rv = PCAPD_EOF then PCAPD_OK else rv), runtime := rt1\<rparr>"
        using Cons.prems(1) r(1) True by (simp add: f)
      have "conf_ok (conf ?rt)" using i(1) by (simp add: pcapd_inv_def)
      from read_pkt_rv [OF r(1)] False show ?thesis unfolding l inet_iface_eq [OF \<open>conf_ok (conf ?rt)\<close>] i(3)
        using Cons.prems(4,6,7) by (elim disjE conjE) (auto intro!: bexI [of _ ev] exI [of _ i])
    qed
  qed
qed simp

lemma retry_inet_result: "retry_inet ps ev lp = Some lp' \<Longrightarrow> result lp' = result lp"
  unfolding retry_inet_def
  by (cases "inet_iface (runtime lp)") (auto simp: bind_eq_Some_conv split: if_split_asm)

lemma handle_nl_rv: "handle_nl_message ps received ic rt = Some (ok, rt') \<Longrightarrow> ok \<longleftrightarrow> received \<noteq> None"
  by (auto simp: handle_nl_message_def bind_eq_Some_conv split: option.split_asm)

lemma pcapd_step_rv:
  assumes s: "pcapd_step env ps ev lp = Some lp'" and l: "loop_ok c lp" and c: "no_uid_filter c"
    and r: "exit_cause env io op c evs (result lp)" and e: "ev \<in> set evs" and o1: "fst (init_pcapd_capture io c)"
  shows "exit_cause env io op c evs (result lp')"
proof (cases "running lp \<and> (\<exists>fds. ev_select ev = Select_Ready fds)")
  case False
  then show ?thesis using s r e by (cases "ev_select ev") (auto simp: pcapd_step_def split: if_split_asm)
next
  case True
  then obtain ready where rd: "running lp" "ev_select ev = Select_Ready ready" by blast
  let ?rt = "runtime lp"
  let ?fds = "ready \<inter> sel_fds ?rt"
  consider "0 < client ?rt \<and> client ?rt \<in> ?fds"
    | "\<not> (0 < client ?rt \<and> client ?rt \<in> ?fds)" "0 < nlroute_sock ?rt \<and> nlroute_sock ?rt \<in> ?fds"
    | "\<not> (0 < client ?rt \<and> client ?rt \<in> ?fds)" "\<not> (0 < nlroute_sock ?rt \<and> nlroute_sock ?rt \<in> ?fds)" by blast
  then show ?thesis
  proof cases
    case 1
    then show ?thesis using s r rd by (auto simp: pcapd_step_def)
  next
    case 2
    have st: "do {
        (ok, rt1) \<leftarrow> handle_nl_message ps (ev_nl ev) (ev_inet_nl ev) ?rt;
        if \<not> ok then Some (lp\<lparr>running := False, result := PCAPD_NETLINK_ERROR, runtime := rt1\<rparr>)
        else retry_inet ps ev (lp\<lparr>runtime := rt1\<lparr>sel_fds := get_selectable_fds rt1\<rparr>\<rparr>) } = Some lp'"
      using s rd unfolding pcapd_step_def Let_def rd(2) select_result.case if_not_P [OF 2(1)] if_P [OF 2(2)] by simp
    then obtain ok rt1 where h: "handle_nl_message ps (ev_nl ev) (ev_inet_nl ev) ?rt = Some (ok, rt1)"
      by (auto simp: bind_eq_Some_conv)
    show ?thesis
    proof (cases ok)
      case True
      then have "retry_inet ps ev (lp\<lparr>runtime := rt1\<lparr>sel_fds := get_selectable_fds rt1\<rparr>\<rparr>) = Some lp'" using st h by simp
      from retry_inet_result [OF this] r show ?thesis by simp
    next
      case False
      then have "result lp' = PCAPD_NETLINK_ERROR" using st h by auto
      moreover have "ev_nl ev = None" using handle_nl_rv [OF h] False by simp
      ultimately show ?thesis using e by auto
    qed
  next
    case 3
    obtain lp1 where r1: "read_ifaces env ps ev ?fds [0..<length (ifaces ?rt)] lp = Some lp1" "retry_inet ps ev lp1 = Some lp'"
      using s rd unfolding pcapd_step_def Let_def rd(2) select_result.case if_not_P [OF 3(1)] if_not_P [OF 3(2)]
      by (auto simp: bind_eq_Some_conv)
    have "\<forall>i \<in> set [0..<length (ifaces ?rt)]. i < length (ifnames c)" using l by (simp add: loop_ok_def)
    from read_ifaces_rv [OF r1(1) l c this r e o1] retry_inet_result [OF r1(2)] show ?thesis by simp
  qed
qed

lemma open_interface_rv:
  "open_interface r i name ifid rt = Some (rv, rt') \<Longrightarrow> rv = PCAPD_OK \<or>
     rv = PCAPD_INTERFACE_OPEN_FAILED \<and> (\<not> or_live r \<and> \<not> or_file r \<or> \<not> or_compile r \<or> \<not> or_setfilter r) \<or>
     rv = PCAPD_UNSUPPORTED_DATALINK \<and> dlink_ipoffset (or_dlink r) = None"
  by (auto simp: open_interface_def Let_def bind_eq_Some_conv split: if_split_asm option.split_asm)

lemma open_interfaces_rv:
  "open_interfaces op is rt = Some (rv, rt') \<Longrightarrow> rv = PCAPD_OK \<or>
     rv = PCAPD_INTERFACE_OPEN_FAILED \<and> (\<exists>i \<in> set is. \<not> or_live (op i) \<and> \<not> or_file (op i) \<or> \<not> or_compile (op i) \<or> \<not> or_setfilter (op i)) \<or>
     rv = PCAPD_UNSUPPORTED_DATALINK \<and> (\<exists>i \<in> set is. dlink_ipoffset (or_dlink (op i)) = None)"
proof (induction op "is" rt rule: open_interfaces.induct)
  case (2 op i "is" rt)
  show ?case
  proof (cases "ifnames (conf rt) ! i = ''@inet''")
    case True
    with 2 show ?thesis by auto
  next
    case False
    with "2.prems" obtain rv1 rt1 where o1: "open_interface (op i) i (ifnames (conf rt) ! i) (int i) rt = Some (rv1, rt1)"
      and n: "if rv1 \<noteq> PCAPD_OK then (rv, rt') = (rv1, rt1) else open_interfaces op is rt1 = Some (rv, rt')"
      by (auto simp: bind_eq_Some_conv split: if_split_asm)
    show ?thesis
    proof (cases "rv1 = PCAPD_OK")
      case True
      then have "open_interfaces op is rt1 = Some (rv, rt')" using n by simp
      from "2.IH"(2) [OF False o1 refl _ this] True show ?thesis by auto
    next
      case rv1: False
      with n have "rv = rv1" by simp
      with open_interface_rv [OF o1] rv1 show ?thesis by auto
    qed
  qed
qed simp

section \<open>Exit codes\<close>

text \<open>
  C38: no exit code without its cause. For every configuration of the command line (without UID filter), the code the
  daemon exits with says what happened: success only after a complete start, an error only after a failed start or a
  failed \<open>select\<close>, an interface error only when one of the interfaces could not be opened or filtered, an unsupported
  data link only for such an interface, a netlink error only after a failed receive, a read error only for an interface
  that is not the internet one (whose errors never stop the capture), a write error only when the client cannot be
  written to; the end of a file is reported as success.
\<close>

theorem daemon_exit_cause:
  assumes "parse_args opts pos = Inr c" and "uid_filter c = None" and "run_pcap_dump env ps True io ic op c evs = Some (rv, rt)"
  shows "exit_cause env io op c evs rv"
proof -
  have c: "conf_ok c" "no_uid_filter c" using parse_args_ok [OF assms(1)] assms(2) by (simp_all add: no_uid_filter_def)
  obtain lp where s: "pcapd_start ps io ic op c = Some lp" "loop_ok c lp" using pcapd_start_ok [OF c(1)] by blast
  obtain lp1 where r: "run_steps (pcapd_step env ps) evs lp = Some lp1" and rv: "rv = result lp1"
    using assms(3) s(1) by (auto simp: run_pcap_dump_def bind_eq_Some_conv)
  show ?thesis
  proof (cases "fst (init_pcapd_capture io c)")
    case False
    then obtain rt0 where "init_pcapd_capture io c = (False, rt0)" by (cases "init_pcapd_capture io c") auto
    then have l: "\<not> running lp" "result lp = PCAPD_ERROR" using s(1) by (auto simp: pcapd_start_def)
    have "\<not> running lp1 \<and> result lp1 = PCAPD_ERROR"
      by (rule run_steps_keeps [OF r]) (use l in \<open>auto simp: pcapd_step_def\<close>)
    with rv False show ?thesis by simp
  next
    case True
    have "exit_cause env io op c evs (result lp)"
    proof -
      obtain rt0 where i: "init_pcapd_capture io c = (True, rt0)" using True by (cases "init_pcapd_capture io c") auto
      obtain rt1 rv1 rt2 where o1: "open_interfaces op [0..<length (ifnames c)] rt1 = Some (rv1, rt2)" and "result lp = rv1"
        using s(1) by (auto simp: pcapd_start_def i bind_eq_Some_conv)
      with open_interfaces_rv [OF o1] True show ?thesis by auto
    qed
    then have start: "loop_ok c lp \<and> exit_cause env io op c evs (result lp)" using s(2) by blast
    have "loop_ok c lp1 \<and> exit_cause env io op c evs (result lp1)"
    proof (rule run_steps_keeps [where P = "\<lambda>st. loop_ok c st \<and> exit_cause env io op c evs (result st)", OF r start])
      fix ev st st'
      assume e: "ev \<in> set evs" and k: "loop_ok c st \<and> exit_cause env io op c evs (result st)" and n: "pcapd_step env ps ev st = Some st'"
      from pcapd_step_rv [OF n conjunct1 [OF k] c(2) conjunct2 [OF k] e True] pcapd_step_ok [of c st env ps ev] k c(2) n
      show "loop_ok c st' \<and> exit_cause env io op c evs (result st')" by auto
    qed
    then show ?thesis unfolding rv by blast
  qed
qed

theorem daemon_exit_cause_witness:
  "\<forall>ic. \<exists>c rt. parse_args [(CHR ''i'', ''wlan0''), (CHR ''n'', [])] False = Inr c \<and>
     run_pcap_dump \<lparr>nl_get_uid = (\<lambda>_. 1000), get_uid = (\<lambda>_. -1), write_ok = True\<rparr> (\<lambda>_. None) True
       \<lparr>io_lru = True, io_resolver = True, io_pid_file = True, io_nlroute = 3, io_nldiag = None, io_client = 5, io_connect = True\<rparr>
       ic (\<lambda>_. \<lparr>or_live = True, or_file = False, or_dlink = 105, or_compile = True, or_setfilter = True, or_fd = 7, or_ifidx = 3,
         or_mac = None, or_ip = None, or_ip6 = None\<rparr>) c [] = Some (PCAPD_UNSUPPORTED_DATALINK, rt) \<and>
     exit_cause \<lparr>nl_get_uid = (\<lambda>_. 1000), get_uid = (\<lambda>_. -1), write_ok = True\<rparr>
       \<lparr>io_lru = True, io_resolver = True, io_pid_file = True, io_nlroute = 3, io_nldiag = None, io_client = 5, io_connect = True\<rparr>
       (\<lambda>_. \<lparr>or_live = True, or_file = False, or_dlink = 105, or_compile = True, or_setfilter = True, or_fd = 7, or_ifidx = 3,
         or_mac = None, or_ip = None, or_ip6 = None\<rparr>) c [] PCAPD_UNSUPPORTED_DATALINK"
  (is "\<forall>ic. \<exists>c rt. ?args = Inr c \<and> run_pcap_dump ?env ?ps True ?io ic ?op c [] = Some (?rv, rt) \<and> _")
proof
  fix ic
  let ?c = "init_conf\<lparr>ifnames := [''wlan0''], no_client := True\<rparr>"
  have c: "?args = Inr ?c" "uid_filter ?c = None"
    by (simp_all add: parse_args_def parse_opt_def getopt_char_def add_interface_def init_conf_def)
  have "\<exists>rt. run_pcap_dump ?env ?ps True ?io ic ?op ?c [] = Some (?rv, rt)"
    by (simp add: run_pcap_dump_def pcapd_start_def init_pcapd_capture_def new_runtime_def init_conf_def check_inet_interface_def
        inet_iface_def open_interface_def dlink_ipoffset_def pcap_close_def finish_pcapd_capture_def close_interface_def get_iface_def
        init_interface_def Let_def)
  then obtain rt where "run_pcap_dump ?env ?ps True ?io ic ?op ?c [] = Some (?rv, rt)" by blast
  from daemon_exit_cause [OF c this] this c(1)
  show "\<exists>c rt. ?args = Inr c \<and> run_pcap_dump ?env ?ps True ?io ic ?op c [] = Some (?rv, rt) \<and>
    exit_cause ?env ?io ?op c [] ?rv" by blast
qed

end
