(* ===== verification/Zdtun_Reply.thy ===== *)
theory Zdtun_Reply
  imports Zdtun_Pkt Checksum
begin

text \<open>
  The packets zdtun builds for the client (\<open>zdtun_make_iphdr\<close>, \<open>zdtun_l3_checksum\<close>, \<open>build_reply_tcpip\<close> and the UDP
  and ICMP parts of the reply handlers in \<^verbatim>\<open>submodules/zdtun/zdtun.c\<close>), as byte lists, and what
  \<open>zdtun_parse_pkt\<close> makes of them: \<open>send_to_client\<close> parses every packet it sends.
\<close>

section \<open>Headers\<close>

abbreviation IPV4_HEADER_LEN :: nat where "IPV4_HEADER_LEN \<equiv> 20"
abbreviation IPV6_HEADER_LEN :: nat where "IPV6_HEADER_LEN \<equiv> 40"
abbreviation TCP_HEADER_LEN :: nat where "TCP_HEADER_LEN \<equiv> 20"
abbreviation UDP_HEADER_LEN :: nat where "UDP_HEADER_LEN \<equiv> 8"
abbreviation REPLY_BUF_SIZE :: nat where "REPLY_BUF_SIZE \<equiv> 65535"

abbreviation TH_FIN :: u8 where "TH_FIN \<equiv> 0x01"
abbreviation TH_SYN :: u8 where "TH_SYN \<equiv> 0x02"
abbreviation TH_RST :: u8 where "TH_RST \<equiv> 0x04"
abbreviation TH_PUSH :: u8 where "TH_PUSH \<equiv> 0x08"
abbreviation TH_ACK :: u8 where "TH_ACK \<equiv> 0x10"
abbreviation TH_URG :: u8 where "TH_URG \<equiv> 0x20"

definition put128 :: "128 word \<Rightarrow> byte list" where
  "put128 w = put32 (ucast w) @ put32 (ucast (drop_bit 32 w)) @ put32 (ucast (drop_bit 64 w)) @ put32 (ucast (drop_bit 96 w))"

text \<open>\<open>ver\<close> is the IP version of the socket (\<open>sock_ipver\<close>), which decides the header.\<close>

definition zdtun_iphdr_len :: "u8 \<Rightarrow> nat" where
  "zdtun_iphdr_len ver = (if ver = 4 then IPV4_HEADER_LEN else IPV6_HEADER_LEN)"

definition ip4_header :: "zdtun_5tuple \<Rightarrow> u16 \<Rightarrow> u16 \<Rightarrow> byte list" where
  "ip4_header t tot_len check =
     [0x45, 0] @ put16 (htons tot_len) @ [0, 0] @ put16 (htons 0x4000) @ [64, ipproto t] @ put16 check @
     put32 (ip4 (dst_ip t)) @ put32 (ip4 (src_ip t))"

definition ip6_header :: "zdtun_5tuple \<Rightarrow> u16 \<Rightarrow> byte list" where
  "ip6_header t l3_len =
     [0x60, 0, 0, 0] @ put16 (htons l3_len) @ [if ipproto t \<noteq> IPPROTO_ICMP then ipproto t else IPPROTO_ICMPV6, 64] @
     put128 (dst_ip t) @ put128 (src_ip t)"

definition zdtun_make_iphdr :: "u8 \<Rightarrow> zdtun_5tuple \<Rightarrow> u16 \<Rightarrow> byte list option" where
  "zdtun_make_iphdr ver t l3_len =
     (if ver = 4 then do {
        let tot_len = l3_len + 20;
        c \<leftarrow> calc_checksum 0 (ip4_header t tot_len 0) 20;
        Some (ip4_header t tot_len (NOT c)) }
      else Some (ip6_header t l3_len))"

text \<open>The pseudo headers, from the IP header that was just written.\<close>

definition pseudo4 :: "byte list \<Rightarrow> u8 \<Rightarrow> u16 \<Rightarrow> byte list option" where
  "pseudo4 ipbuf proto l3_len = do {
     saddr \<leftarrow> rd32 ipbuf 12;
     daddr \<leftarrow> rd32 ipbuf 16;
     Some (put32 saddr @ put32 daddr @ [0, proto] @ put16 (htons l3_len)) }"

definition pseudo6 :: "u8 \<Rightarrow> byte list \<Rightarrow> u8 \<Rightarrow> byte list option" where
  "pseudo6 ver ipbuf proto = do {
     saddr \<leftarrow> rd128 ipbuf 8;
     daddr \<leftarrow> rd128 ipbuf 24;
     payload_len \<leftarrow> rd16 ipbuf 4;
     Some (put128 saddr @ put128 daddr @ put32 (ucast payload_len) @
           [0, 0, 0, if ver = 6 \<and> proto = IPPROTO_ICMP then IPPROTO_ICMPV6 else proto]) }"

definition zdtun_l3_checksum :: "u8 \<Rightarrow> u8 \<Rightarrow> byte list \<Rightarrow> byte list \<Rightarrow> u16 \<Rightarrow> u16 option" where
  "zdtun_l3_checksum ver proto ipbuf l3 l3_len = do {
     rv \<leftarrow> calc_checksum 0 l3 l3_len;
     ps \<leftarrow> (if ver = 4 then pseudo4 ipbuf proto l3_len else pseudo6 ver ipbuf proto);
     rv' \<leftarrow> calc_checksum rv ps (if ver = 4 then 12 else 40);
     Some (NOT rv') }"

section \<open>TCP, UDP and ICMP\<close>

text \<open>The TCP header of a reply; the ports are those of the connection, seen from the server.\<close>

record tcp_fields =
  tf_seq :: u32
  tf_ack :: u32
  tf_flags :: u8
  tf_win :: u16
  tf_optsoff :: nat

definition tcp_header :: "zdtun_5tuple \<Rightarrow> tcp_fields \<Rightarrow> u16 \<Rightarrow> byte list" where
  "tcp_header t f cks =
     put16 (dst_port t) @ put16 (src_port t) @ put32 (htonl (tf_seq f)) @
     put32 (if tf_flags f AND TH_ACK \<noteq> 0 then htonl (tf_ack f) else 0) @
     [push_bit 4 (of_nat (5 + tf_optsoff f)), tf_flags f] @ put16 (htons (tf_win f)) @ put16 cks @ put16 0"

text \<open>
  \<open>build_reply_tcpip\<close>: \<open>body\<close> is what was written after the header before (options and payload),
  \<open>l3_len\<close> its length with the header.
\<close>

definition build_reply_tcpip :: "u8 \<Rightarrow> zdtun_5tuple \<Rightarrow> tcp_fields \<Rightarrow> byte list \<Rightarrow> byte list option" where
  "build_reply_tcpip ver t f body = do {
     let l3_len = (of_nat (length body) + of_nat TCP_HEADER_LEN :: u16);
     iphdr \<leftarrow> zdtun_make_iphdr ver t l3_len;
     cks \<leftarrow> zdtun_l3_checksum ver (ipproto t) iphdr (tcp_header t f 0 @ body) l3_len;
     Some (iphdr @ tcp_header t f cks @ body) }"

text \<open>The options of the SYN+ACK.\<close>

definition syn_ack_opts :: "u16 \<Rightarrow> u8 \<Rightarrow> byte list" where
  "syn_ack_opts mss scale = [2, 4] @ put16 (htons mss) @ [3, 3, scale, 0]"

definition udp_header :: "zdtun_5tuple \<Rightarrow> u16 \<Rightarrow> u16 \<Rightarrow> byte list" where
  "udp_header t ulen cks = put16 (dst_port t) @ put16 (src_port t) @ put16 (htons ulen) @ put16 cks"

definition build_reply_udp :: "u8 \<Rightarrow> zdtun_5tuple \<Rightarrow> byte list \<Rightarrow> byte list option" where
  "build_reply_udp ver t payload = do {
     let l3_len = (of_nat (length payload) + of_nat UDP_HEADER_LEN :: u16);
     iphdr \<leftarrow> zdtun_make_iphdr ver t l3_len;
     cks \<leftarrow> (if ver \<noteq> 4 then zdtun_l3_checksum ver (ipproto t) iphdr (udp_header t l3_len 0 @ payload) l3_len else Some 0);
     Some (iphdr @ udp_header t l3_len cks @ payload) }"

text \<open>
  An ICMP reply, as received from the socket: at least eight bytes. The identifier is restored and the checksum
  computed; \<open>echo_id\<close> shares its storage with the source port of the tuple.
\<close>

definition icmp_set :: "byte list \<Rightarrow> u16 \<Rightarrow> u16 \<Rightarrow> byte list option" where
  "icmp_set dat echo_id cks = do { d1 \<leftarrow> wr dat 4 (put16 echo_id); wr d1 2 (put16 cks) }"

definition build_reply_icmp :: "u8 \<Rightarrow> zdtun_5tuple \<Rightarrow> byte list \<Rightarrow> byte list option" where
  "build_reply_icmp ver t dat = do {
     let icmp_len = (of_nat (length dat) :: u16);
     d0 \<leftarrow> icmp_set dat (src_port t) 0;
     iphdr \<leftarrow> zdtun_make_iphdr ver t icmp_len;
     cks \<leftarrow> (if ver = 4 then do { c \<leftarrow> calc_checksum 0 d0 icmp_len; Some (NOT c) }
             else if ver = 6 then zdtun_l3_checksum ver (ipproto t) iphdr d0 icmp_len else Some 0);
     d1 \<leftarrow> icmp_set dat (src_port t) cks;
     Some (iphdr @ d1) }"

section \<open>Lemmas\<close>

lemma length_put128 [simp, wire_simps]: "length (put128 w) = 16"
  by (simp add: put128_def)

lemma length_headers [simp, wire_simps]:
  "length (ip4_header t n c) = 20" "length (ip6_header t n) = 40" "length (tcp_header t f s) = 20" "length (udp_header t u s) = 8"
  "length (syn_ack_opts m sc) = 8"
  by (simp_all add: ip4_header_def ip6_header_def tcp_header_def udp_header_def syn_ack_opts_def)

lemma make_iphdr_ok: "\<exists>h. zdtun_make_iphdr ver t n = Some h \<and> length h = zdtun_iphdr_len ver"
proof (cases "ver = 4")
  case True
  obtain c where "calc_checksum 0 (ip4_header t (n + 20) 0) 20 = Some c"
    using calc_checksum_eq [of 20 "ip4_header t (n + 20) 0" 0] by auto
  then show ?thesis using True by (simp add: zdtun_make_iphdr_def zdtun_iphdr_len_def)
qed (simp add: zdtun_make_iphdr_def zdtun_iphdr_len_def)


text \<open>Reading the 128 bit fields back.\<close>

lemma word128_quarters:
  "ucast (ucast (w :: 128 word) :: u32) OR push_bit 32 (ucast (ucast (drop_bit 32 w) :: u32)) OR
     push_bit 64 (ucast (ucast (drop_bit 64 w) :: u32)) OR push_bit 96 (ucast (ucast (drop_bit 96 w) :: u32)) = w"
proof (rule bit_word_eqI)
  fix n assume "n < LENGTH(128)"
  then consider "n < 32" | "32 \<le> n" "n < 64" | "64 \<le> n" "n < 96" | "96 \<le> n" "n < 128" by fastforce
  then show "bit (ucast (ucast w :: u32) OR push_bit 32 (ucast (ucast (drop_bit 32 w) :: u32)) OR
     push_bit 64 (ucast (ucast (drop_bit 64 w) :: u32)) OR push_bit 96 (ucast (ucast (drop_bit 96 w) :: u32)) :: 128 word) n = bit w n"
    by cases (auto simp: bit_simps)
qed

lemma rd128_put128: "rd128 (a @ put128 w @ b) (length a) = Some w"
proof -
  let ?w0 = "put32 (ucast w)" and ?w1 = "put32 (ucast (drop_bit 32 w))"
    and ?w2 = "put32 (ucast (drop_bit 64 w))" and ?w3 = "put32 (ucast (drop_bit 96 w))"
  let ?b = "a @ put128 w @ b"
  have "rd32 ?b (length a) = Some (ucast w)"
    using rd32_put32 [of a "ucast w" "?w1 @ ?w2 @ ?w3 @ b"] by (simp add: put128_def)
  moreover have "rd32 ?b (length a + 4) = Some (ucast (drop_bit 32 w))"
    using rd32_put32 [of "a @ ?w0" "ucast (drop_bit 32 w)" "?w2 @ ?w3 @ b"] by (simp add: put128_def)
  moreover have "rd32 ?b (length a + 8) = Some (ucast (drop_bit 64 w))"
    using rd32_put32 [of "a @ ?w0 @ ?w1" "ucast (drop_bit 64 w)" "?w3 @ b"] by (simp add: put128_def)
  moreover have "rd32 ?b (length a + 12) = Some (ucast (drop_bit 96 w))"
    using rd32_put32 [of "a @ ?w0 @ ?w1 @ ?w2" "ucast (drop_bit 96 w)" b] by (simp add: put128_def)
  ultimately show ?thesis using word128_quarters [of w] by (simp add: rd128_def)
qed

text \<open>Fields of the headers, whatever follows them.\<close>

lemma ip4_header_reads:
  "rd8 (ip4_header t n c @ b) 0 = Some 0x45" "rd16 (ip4_header t n c @ b) 2 = Some (htons n)"
  "rd16 (ip4_header t n c @ b) 4 = Some 0" "rd16 (ip4_header t n c @ b) 6 = Some (htons 0x4000)"
  "rd8 (ip4_header t n c @ b) 9 = Some (ipproto t)"
  "rd32 (ip4_header t n c @ b) 12 = Some (ip4 (dst_ip t))" "rd32 (ip4_header t n c @ b) 16 = Some (ip4 (src_ip t))"
  by (simp_all add: ip4_header_def put16_def put32_def rd8_def rd16_def rd32_def le16_put16 le32_put32)
    (simp add: le16_def)

lemma ip6_header_reads:
  "rd8 (ip6_header t n @ b) 0 = Some 0x60" "rd16 (ip6_header t n @ b) 4 = Some (htons n)"
  "rd8 (ip6_header t n @ b) 6 = Some (if ipproto t \<noteq> IPPROTO_ICMP then ipproto t else IPPROTO_ICMPV6)"
  "rd128 (ip6_header t n @ b) 8 = Some (dst_ip t)" "rd128 (ip6_header t n @ b) 24 = Some (src_ip t)"
proof -
  let ?p = "if ipproto t \<noteq> IPPROTO_ICMP then ipproto t else IPPROTO_ICMPV6"
  let ?h = "[0x60, 0, 0, 0] @ put16 (htons n) @ [?p, 64]"
  show "rd8 (ip6_header t n @ b) 0 = Some 0x60" "rd16 (ip6_header t n @ b) 4 = Some (htons n)"
    "rd8 (ip6_header t n @ b) 6 = Some ?p"
    by (simp_all add: ip6_header_def put16_def rd8_def rd16_def le16_put16)
  show "rd128 (ip6_header t n @ b) 8 = Some (dst_ip t)"
    using rd128_put128 [of ?h "dst_ip t" "put128 (src_ip t) @ b"] by (simp add: ip6_header_def)
  show "rd128 (ip6_header t n @ b) 24 = Some (src_ip t)"
    using rd128_put128 [of "?h @ put128 (dst_ip t)" "src_ip t" b] by (simp add: ip6_header_def)
qed

lemma tcp_header_reads:
  "rd16 (tcp_header t f s @ b) 0 = Some (dst_port t)" "rd16 (tcp_header t f s @ b) 2 = Some (src_port t)"
  "rd8 (tcp_header t f s @ b) 12 = Some (push_bit 4 (of_nat (5 + tf_optsoff f)))"
  by (simp_all add: tcp_header_def put16_def put32_def rd8_def rd16_def le16_put16)

lemma udp_header_reads:
  "rd16 (udp_header t u s @ b) 0 = Some (dst_port t)" "rd16 (udp_header t u s @ b) 2 = Some (src_port t)"
  by (simp_all add: udp_header_def put16_def rd8_def rd16_def le16_put16)

text \<open>Reads after a header of known length.\<close>

lemma rd_after:
  "length h = k \<Longrightarrow> rd8 (h @ b) (k + i) = rd8 b i" "length h = k \<Longrightarrow> rd16 (h @ b) (k + i) = rd16 b i"
  by (auto simp: rd16_def rd8_def nth_append)

section \<open>Replies parse back\<close>

text \<open>The 5-tuple of a reply: the connection's, with the peers swapped, in the IP version of the socket.\<close>

definition reply_addr :: "u8 \<Rightarrow> zdtun_ip \<Rightarrow> zdtun_ip" where
  "reply_addr ver a = (if ver = 4 then of_ip4 (ip4 a) else a)"

definition reply_tuple :: "u8 \<Rightarrow> zdtun_5tuple \<Rightarrow> zdtun_5tuple" where
  "reply_tuple ver t = \<lparr>src_ip = reply_addr ver (dst_ip t), dst_ip = reply_addr ver (src_ip t),
     src_port = dst_port t, dst_port = src_port t, ipver = ver, ipproto = ipproto t\<rparr>"

definition reply_l3 :: "u8 \<Rightarrow> zdtun_5tuple \<Rightarrow> nat \<Rightarrow> l3_hdr" where
  "reply_l3 ver t n = \<lparr>h_src = reply_addr ver (dst_ip t), h_dst = reply_addr ver (src_ip t), h_proto = ipproto t, h_len = n,
     h_hlen = zdtun_iphdr_len ver, h_flags = 0, h_id = 0, h_frag = (if ver = 4 then htons 0x4000 else 0)\<rparr>"

lemma frag_off_consts:
  "htons 0x4000 AND htons 0x1FFF = (0 :: u16)" "htons 0x4000 AND htons 0x2000 = (0 :: u16)"
  by code_simp+

lemma unat_of_nat16: "n < 65536 \<Longrightarrow> unat (of_nat n :: u16) = n"
  by (simp add: unat_of_nat)

lemma reply_l3_flags [simp]: "h_flags (reply_l3 ver t n) = 0"
  by (simp add: reply_l3_def)

lemma parse_from_l3:
  assumes "unat m = n" "20 \<le> n" "rd8 b 0 = Some x" "drop_bit 4 x = ver" "ver = 4 \<or> ver = 6" "h_flags h = 0"
    and "(if ver = 4 then parse_ipv4 b n else parse_ipv6 b n) = Some (Inr h)"
  shows "zdtun_parse_pkt ids b m =
    (case parse_l4 b h of
       None \<Rightarrow> None
     | Some (Inl rv) \<Rightarrow> Some (Inl rv)
     | Some (Inr l4) \<Rightarrow> Some (Inr (make_pkt b ver h l4, ids)))"
  using assms by (auto simp: zdtun_parse_pkt_def Let_def has_flag_def split: option.split sum.split)

text \<open>The IP layer: the parser sees the header that was written and a packet of the full length.\<close>

lemma reply_parse_l3:
  assumes v: "ver = 4 \<or> ver = 6" and p: "ipproto t \<in> {IPPROTO_TCP, IPPROTO_UDP, IPPROTO_ICMP}"
    and h: "zdtun_make_iphdr ver t l3_len = Some h" and n: "n = zdtun_iphdr_len ver + unat l3_len" "n < 65536"
  shows "zdtun_parse_pkt ids (h @ b) (of_nat n) =
    (case parse_l4 (h @ b) (reply_l3 ver t n) of
       None \<Rightarrow> None
     | Some (Inl rv) \<Rightarrow> Some (Inl rv)
     | Some (Inr l4) \<Rightarrow> Some (Inr (make_pkt (h @ b) ver (reply_l3 ver t n) l4, ids)))"
proof (cases "ver = 4")
  case True
  obtain c where hd: "h = ip4_header t (l3_len + 20) c" using h True by (auto simp: zdtun_make_iphdr_def Let_def bind_eq_Some_conv)
  have "unat (l3_len + 20) = unat l3_len + 20"
    using n True by (simp add: unat_word_ariths(1) zdtun_iphdr_len_def)
  moreover have "(0x45 AND 0x0F :: u8) = 5" by simp
  ultimately have l3: "parse_ipv4 (h @ b) n = Some (Inr (reply_l3 ver t n))"
    unfolding parse_ipv4_def hd ip4_header_reads Let_def using n True
    by (simp add: frag_off_consts reply_l3_def reply_addr_def zdtun_iphdr_len_def)
  have "rd8 (h @ b) 0 = Some 0x45" unfolding hd by (rule ip4_header_reads)
  moreover have "drop_bit 4 (0x45 :: u8) = 4" by code_simp
  ultimately show ?thesis using l3 n True
    by (intro parse_from_l3 [OF unat_of_nat16 [OF n(2)], where x = "0x45"]) (simp_all add: zdtun_iphdr_len_def)
next
  case False
  then have v6: "ver = 6" using v by simp
  have hd: "h = ip6_header t l3_len" using h v6 by (simp add: zdtun_make_iphdr_def)
  have l3: "parse_ipv6 (h @ b) n = Some (Inr (reply_l3 ver t n))"
    unfolding parse_ipv6_def hd ip6_header_reads Let_def using n v6 p
    by (auto simp: reply_l3_def reply_addr_def zdtun_iphdr_len_def is_upper_layer_def)
  have "rd8 (h @ b) 0 = Some 0x60" unfolding hd by (rule ip6_header_reads)
  with l3 n v6 show ?thesis by (intro parse_from_l3 [OF unat_of_nat16 [OF n(2)], where x = "0x60"]) (simp_all add: zdtun_iphdr_len_def)
qed

lemma tcp_off_nibble: "k \<le> 10 \<Longrightarrow> unat (drop_bit 4 (push_bit 4 (of_nat (5 + k)) :: u8)) = 5 + k"
proof -
  assume "k \<le> 10"
  then have "k = 0 \<or> k = 1 \<or> k = 2 \<or> k = 3 \<or> k = 4 \<or> k = 5 \<or> k = 6 \<or> k = 7 \<or> k = 8 \<or> k = 9 \<or> k = 10" by arith
  then show ?thesis by (auto simp: push_bit_eq_mult)
qed

lemma l3_checksum_ok:
  assumes "unat l3_len \<le> length seg" and h: "zdtun_make_iphdr ver t n = Some h"
  shows "\<exists>c. zdtun_l3_checksum ver proto h seg l3_len = Some c"
proof -
  obtain c1 where c1: "calc_checksum 0 seg l3_len = Some c1" using calc_checksum_eq [OF assms(1)] by blast
  obtain ps where ps: "(if ver = 4 then pseudo4 h proto l3_len else pseudo6 ver h proto) = Some ps"
    "length ps = (if ver = 4 then 12 else 40)"
  proof (cases "ver = 4")
    case True
    then obtain c where hd: "h = ip4_header t (n + 20) c" using h by (auto simp: zdtun_make_iphdr_def Let_def bind_eq_Some_conv)
    show ?thesis using True ip4_header_reads [of t "n + 20" c "[]"] by (intro that) (auto simp: hd pseudo4_def)
  next
    case False
    then have hd: "h = ip6_header t n" using h by (simp add: zdtun_make_iphdr_def)
    show ?thesis using False ip6_header_reads [of t n "[]"] by (intro that) (auto simp: hd pseudo6_def)
  qed
  obtain c2 where "calc_checksum c1 ps (if ver = 4 then 12 else 40) = Some c2"
    using calc_checksum_eq [of "if ver = 4 then 12 else 40" ps c1] ps(2) by (cases "ver = 4") auto
  then show ?thesis unfolding zdtun_l3_checksum_def c1 ps(1) by simp
qed



section \<open>Checksums verify\<close>

lemma ones_sum_ones_sum: "ones_sum (ones_sum a + b) = ones_sum (a + b)"
proof (cases "a = 0")
  case False
  define q where "q = (a - 1) div 65535"
  have a: "a = 65535 * q + ones_sum a" using False div_mult_mod_eq [of "a - 1" 65535] unfolding ones_sum_def q_def by simp
  have p: "0 < ones_sum a" using False by (simp add: ones_sum_def)
  have "a + b - 1 = (ones_sum a + b - 1) + 65535 * q" using a p by linarith
  then have "(a + b - 1) mod 65535 = (ones_sum a + b - 1) mod 65535" by (metis mod_mult_self2)
  then show ?thesis using p False by (simp add: ones_sum_def)
qed (simp add: ones_sum_def)

text \<open>The pseudo header of RFC 793 and RFC 8200, for the addresses and the length of a reply.\<close>

definition rfc_pseudo :: "u8 \<Rightarrow> zdtun_5tuple \<Rightarrow> u16 \<Rightarrow> byte list" where
  "rfc_pseudo ver t len =
     (if ver = 4 then put32 (ip4 (dst_ip t)) @ put32 (ip4 (src_ip t)) @ [0, ipproto t] @ put16 (htons len)
      else put128 (dst_ip t) @ put128 (src_ip t) @ [0, 0] @ put16 (htons len) @
           [0, 0, 0, if ver = 6 \<and> ipproto t = IPPROTO_ICMP then IPPROTO_ICMPV6 else ipproto t])"

lemma word_sum_pair: "word_sum (a # b # l) = unat a + 256 * unat b + word_sum l"
  by simp

lemma put32_ucast16: "put32 (ucast (w :: u16)) = put16 w @ [0, 0]"
proof -
  have "drop_bit 16 (ucast w :: u32) = 0" "drop_bit 24 (ucast w :: u32) = 0"
    by (rule bit_word_eqI, auto simp: bit_simps dest: bit_imp_le_length)+
  moreover have "(ucast (ucast w :: u32) :: u8) = ucast w" "(ucast (drop_bit 8 (ucast w :: u32)) :: u8) = ucast (drop_bit 8 w)"
    by (rule bit_word_eqI, auto simp: bit_simps dest: bit_imp_le_length)+
  ultimately show ?thesis by (simp add: put32_def put16_def)
qed

lemma pseudo_sum:
  assumes h: "zdtun_make_iphdr ver t len = Some h"
  shows "\<exists>ps. (if ver = 4 then pseudo4 h (ipproto t) len else pseudo6 ver h (ipproto t)) = Some ps \<and>
    length ps = (if ver = 4 then 12 else 40) \<and> word_sum ps = word_sum (rfc_pseudo ver t len)"
proof (cases "ver = 4")
  case True
  then obtain c where hd: "h = ip4_header t (len + 20) c" using h by (auto simp: zdtun_make_iphdr_def Let_def bind_eq_Some_conv)
  show ?thesis using True ip4_header_reads [of t "len + 20" c "[]"] by (simp add: hd pseudo4_def rfc_pseudo_def)
next
  case False
  then have hd: "h = ip6_header t len" using h by (simp add: zdtun_make_iphdr_def)
  let ?e = "[0, 0, 0, if ver = 6 \<and> ipproto t = IPPROTO_ICMP then IPPROTO_ICMPV6 else ipproto t] :: byte list"
  have "pseudo6 ver h (ipproto t) = Some (put128 (dst_ip t) @ put128 (src_ip t) @ (put16 (htons len) @ [0, 0]) @ ?e)"
    using ip6_header_reads [of t len "[]"] by (simp add: hd pseudo6_def put32_ucast16)
  moreover have "word_sum (put128 (dst_ip t) @ put128 (src_ip t) @ (put16 (htons len) @ [0, 0]) @ ?e) = word_sum (rfc_pseudo ver t len)"
    using False by (simp add: rfc_pseudo_def word_sum_append)
  ultimately show ?thesis using False by simp
qed

lemma l3_checksum_eq:
  assumes "zdtun_l3_checksum ver (ipproto t) h seg len = Some c" and h: "zdtun_make_iphdr ver t len = Some h"
    and l: "unat len = length seg"
  shows "unat c = 65535 - ones_sum (word_sum seg + word_sum (rfc_pseudo ver t len))"
proof -
  obtain rv where rv: "calc_checksum 0 seg len = Some rv" "unat rv = ones_sum (word_sum seg)"
    using calc_checksum_eq [of len seg 0] l by auto
  obtain ps where ps: "(if ver = 4 then pseudo4 h (ipproto t) len else pseudo6 ver h (ipproto t)) = Some ps"
    "length ps = (if ver = 4 then 12 else 40)" "word_sum ps = word_sum (rfc_pseudo ver t len)" using pseudo_sum [OF h] by blast
  obtain rv' where rv': "calc_checksum rv ps (if ver = 4 then 12 else 40) = Some rv'" "unat rv' = ones_sum (unat rv + word_sum ps)"
    using calc_checksum_eq [of "if ver = 4 then 12 else 40" ps rv] ps(2) by (cases "ver = 4") auto
  have "c = NOT rv'" using assms(1) unfolding zdtun_l3_checksum_def rv(1) ps(1) using rv'(1) by simp
  then show ?thesis using rv'(2) rv(2) ps(3) by (simp add: unat_not ones_sum_ones_sum)
qed

lemma ones_sum_checked: "unat c = 65535 - ones_sum n \<Longrightarrow> ones_sum (n + unat c) = 65535"
  by (simp add: ones_sum_add_complement)

lemma tcp_header_cks: "word_sum (tcp_header t f c @ b) = word_sum (tcp_header t f 0 @ b) + unat c"
proof -
  define h1 where "h1 = put16 (dst_port t) @ put16 (src_port t) @ put32 (htonl (tf_seq f)) @
     put32 (if tf_flags f AND TH_ACK \<noteq> 0 then htonl (tf_ack f) else 0) @
     [push_bit 4 (of_nat (5 + tf_optsoff f)), tf_flags f] @ put16 (htons (tf_win f))"
  have e: "even (length h1)" by (simp add: h1_def)
  have h: "tcp_header t f x @ b = h1 @ put16 x @ put16 0 @ b" for x by (simp add: tcp_header_def h1_def)
  have z: "put16 0 = [0, 0 :: byte]" by (simp add: put16_def)
  show ?thesis unfolding h by (simp add: word_sum_append e word_sum_put16 z)
qed

lemma ip4_header_cks: "word_sum (ip4_header t n c) = word_sum (ip4_header t n 0) + unat c"
proof -
  define h1 where "h1 = [0x45, 0] @ put16 (htons n) @ [0, 0] @ put16 (htons 0x4000) @ [64, ipproto t]"
  have e: "even (length h1)" by (simp add: h1_def)
  have h: "ip4_header t n x = h1 @ put16 x @ put32 (ip4 (dst_ip t)) @ put32 (ip4 (src_ip t))" for x by (simp add: ip4_header_def h1_def)
  have z: "put16 0 = [0, 0 :: byte]" by (simp add: put16_def)
  show ?thesis unfolding h by (simp add: word_sum_append e word_sum_put16 z)
qed

text \<open>
  C40: the checksums of every TCP packet built for the client verify. The one's complement sum of the pseudo header
  of RFC 793 (IPv4) or RFC 8200 (IPv6) and of the TCP segment is all ones, and so is that of an IPv4 header.
\<close>

theorem tcp_reply_checksums:
  assumes "ipproto t = IPPROTO_TCP" and "zdtun_iphdr_len ver + 20 + length body \<le> 65535" and "build_reply_tcpip ver t f body = Some pkt"
  shows "ones_sum (word_sum (rfc_pseudo ver t (of_nat (20 + length body)) @ drop (zdtun_iphdr_len ver) pkt)) = 65535 \<and>
    (if ver = 4 then ones_sum (word_sum (take 20 pkt)) = 65535 else True)"
proof -
  let ?l3 = "of_nat (length body) + of_nat TCP_HEADER_LEN :: u16"
  have le: "?l3 = of_nat (20 + length body)" by simp
  have "zdtun_iphdr_len ver = 20 \<or> zdtun_iphdr_len ver = 40" by (simp add: zdtun_iphdr_len_def)
  then have l3: "unat ?l3 = 20 + length body" using assms(2) unfolding le by (simp only: unat_of_nat16)
  obtain h c where h: "zdtun_make_iphdr ver t ?l3 = Some h"
    and c: "zdtun_l3_checksum ver (ipproto t) h (tcp_header t f 0 @ body) ?l3 = Some c" and p: "pkt = h @ tcp_header t f c @ body"
    using assms(3) by (auto simp: build_reply_tcpip_def Let_def bind_eq_Some_conv)
  have lh: "length h = zdtun_iphdr_len ver" using make_iphdr_ok [of ver t ?l3] h by auto
  have e: "even (length (rfc_pseudo ver t ?l3))" by (simp add: rfc_pseudo_def)
  have "unat c = 65535 - ones_sum (word_sum (tcp_header t f 0 @ body) + word_sum (rfc_pseudo ver t ?l3))"
    by (rule l3_checksum_eq [OF c h]) (simp only: l3 length_append length_headers)
  from ones_sum_checked [OF this]
  have "ones_sum (word_sum (rfc_pseudo ver t ?l3 @ tcp_header t f c @ body)) = 65535"
    unfolding word_sum_append [OF e] tcp_header_cks [of t f c body] by (simp add: ac_simps)
  moreover have "ones_sum (word_sum (take 20 pkt)) = 65535" if v: "ver = 4"
  proof -
    let ?n = "?l3 + 20"
    obtain d where d: "calc_checksum 0 (ip4_header t ?n 0) 20 = Some d" and hd: "h = ip4_header t ?n (NOT d)"
      using h v by (auto simp: zdtun_make_iphdr_def Let_def bind_eq_Some_conv)
    have "unat d = ones_sum (word_sum (ip4_header t ?n 0))" using calc_checksum_eq [of 20 "ip4_header t ?n 0" 0] d by simp
    then have "ones_sum (word_sum (ip4_header t ?n (NOT d))) = 65535"
      unfolding ip4_header_cks [of t ?n "NOT d"] by (intro ones_sum_checked) (simp add: unat_not)
    then show ?thesis unfolding p hd by simp
  qed
  ultimately show ?thesis using lh unfolding p le by simp
qed

theorem tcp_reply_checksums_witness:
  "\<exists>pkt. build_reply_tcpip 4 \<lparr>src_ip = 1, dst_ip = 2, src_port = 80, dst_port = 443, ipver = 4, ipproto = 6\<rparr>
       \<lparr>tf_seq = 1, tf_ack = 2, tf_flags = TH_ACK, tf_win = 5, tf_optsoff = 0\<rparr> [1, 2, 3] = Some pkt \<and>
     ones_sum (word_sum (rfc_pseudo 4 \<lparr>src_ip = 1, dst_ip = 2, src_port = 80, dst_port = 443, ipver = 4, ipproto = 6\<rparr>
       (of_nat (20 + length [1, 2, 3 :: byte])) @ drop (zdtun_iphdr_len 4) pkt)) = 65535 \<and> ones_sum (word_sum (take 20 pkt)) = 65535"
proof -
  let ?t = "\<lparr>src_ip = 1, dst_ip = 2, src_port = 80, dst_port = 443, ipver = 4, ipproto = 6\<rparr>"
  let ?f = "\<lparr>tf_seq = 1, tf_ack = 2, tf_flags = TH_ACK, tf_win = 5, tf_optsoff = 0\<rparr>"
  let ?l3 = "of_nat (length [1, 2, 3 :: byte]) + of_nat TCP_HEADER_LEN :: u16"
  obtain h where h: "zdtun_make_iphdr 4 ?t ?l3 = Some h" using make_iphdr_ok by blast
  obtain c where "zdtun_l3_checksum 4 (ipproto ?t) h (tcp_header ?t ?f 0 @ [1, 2, 3]) ?l3 = Some c"
    using l3_checksum_ok [OF _ h, of ?l3 "tcp_header ?t ?f 0 @ [1, 2, 3]" "ipproto ?t"] by auto
  then have "\<exists>pkt. build_reply_tcpip 4 ?t ?f [1, 2, 3] = Some pkt" unfolding build_reply_tcpip_def Let_def h by simp
  then obtain pkt where b: "build_reply_tcpip 4 ?t ?f [1, 2, 3] = Some pkt" by blast
  from tcp_reply_checksums [OF _ _ b] b show ?thesis by (simp add: zdtun_iphdr_len_def)
qed

end
