(* ===== verification/Zdtun_Conn.thy ===== *)
theory Zdtun_Conn
  imports Zdtun_Reply Port_Map
begin

text \<open>
  The connection table and the sockets of zdtun (\<^verbatim>\<open>submodules/zdtun/zdtun.c\<close>): state, sockets, replies to the client,
  closing, destruction, expiry and lookup.

  The callbacks of the application work on its own state \<open>'u\<close>. System calls are recorded in a history, newest first, and
  what they return is a function of it, so that the environment is arbitrary and may answer the same call differently
  each time. Connections are named by allocation numbers. Operations are in the option monad: \<open>None\<close> is an invalid
  memory access (a freed connection, a write beyond \<open>reply_buf\<close>), a shift by 32 or more, an invalid
  descriptor in a set, or a failure of a callback.
\<close>

section \<open>State\<close>

datatype proxy_mode = PROXY_NONE | PROXY_DNAT | PROXY_SOCKS5

datatype socks5_status = SOCKS5_HELLO | SOCKS5_AUTH | SOCKS5_CONNECTING | SOCKS5_SKIP_BND | SOCKS5_ESTABLISHED

text \<open>A queued segment: \<open>sofar\<close> bytes of it are already sent.\<close>

record tcp_data =
  td_flags :: u8
  td_sofar :: nat
  td_data :: "byte list"

text \<open>\<open>zc_key\<close> is the tuple the connection was added with, under which the table finds it.\<close>

record zdtun_conn =
  zc_key :: zdtun_5tuple
  zc_nat :: dnat_conn
  zc_tstamp :: int
  zc_sock :: int
  zc_status :: zdtun_conn_status
  zc_proxy_mode :: proxy_mode
  zc_socks5 :: socks5_status
  zc_skip :: u8
  tx_queue :: "tcp_data list"
  tx_queue_size :: u32
  client_seq :: u32
  zdtun_seq :: u32
  window_size :: u32
  mss :: u16
  window_scale :: u8
  fin_ack_sent :: bool
  client_closed :: bool
  pending_queries :: u8
  user_data :: "nat option"

abbreviation zc_tuple :: "zdtun_conn \<Rightarrow> zdtun_5tuple" where
  "zc_tuple c \<equiv> dc_tuple (zc_nat c)"

abbreviation is_tcp :: "zdtun_conn \<Rightarrow> bool" where "is_tcp c \<equiv> ipproto (zc_tuple c) = IPPROTO_TCP"
abbreviation is_udp :: "zdtun_conn \<Rightarrow> bool" where "is_udp c \<equiv> ipproto (zc_tuple c) = IPPROTO_UDP"

definition socks5_in_progress :: "zdtun_conn \<Rightarrow> bool" where
  "socks5_in_progress c \<longleftrightarrow> zc_proxy_mode c = PROXY_SOCKS5 \<and> zc_socks5 c \<noteq> SOCKS5_ESTABLISHED"

text \<open>System calls, and the errors the code tells apart.\<close>

datatype sock_err =
    Con_Reset | Broken_Pipe | Con_Refused | Con_Aborted | Net_Unreachable | Host_Unreachable | In_Progress | Would_Block | Other_Error

datatype sock_op =
    Op_Socket int
  | Op_Close int
  | Op_Shutdown int
  | Op_Connect int zdtun_ip u16 u8
  | Op_Bind int u16
  | Op_Send int "byte list"
  | Op_Recv int
  | Op_Query
  | Op_Clock

record udp_mapping =
  um_port :: u16
  um_uses :: u16

record 'u zdtun =
  z_all_fds :: "int set"
  z_write_fds :: "int set"
  z_mtu :: u32
  z_open :: u32
  z_max_fd :: int
  z_icmp_conn :: u16
  z_tcp_conn :: u16
  z_udp_conn :: u16
  z_icmp_opened :: u32
  z_tcp_opened :: u32
  z_udp_opened :: u32
  z_now :: int
  z_frags :: id2ports
  z_reply_buf :: "byte list"
  z_socks5 :: dnat_proxy
  z_userpass :: "(byte list \<times> byte list) option"
  z_conns :: "(nat \<times> zdtun_conn) list"
  z_next :: nat
  udp_mappings :: "(u32 \<times> udp_mapping) list"
  z_ops :: "sock_op list"
  z_data :: 'u

type_synonym hist = "sock_op list"

text \<open>
  The environment: the callbacks, then the system calls. \<open>on_open\<close> returns whether the connection is rejected and the
  user data it stores; \<open>send_client\<close> returns the code, 0 for success. \<open>sy_sndbuf\<close> gives the buffer size and the queued
  bytes, \<open>sy_so_error\<close> the outcome of \<open>getsockopt\<close> (\<open>None\<close> is its failure) with the pending error.
\<close>

record 'u zdtun_env =
  send_client :: "zdtun_pkt \<Rightarrow> zdtun_conn \<Rightarrow> 'u \<Rightarrow> (int \<times> 'u) option"
  account_packet :: "zdtun_pkt \<Rightarrow> bool \<Rightarrow> zdtun_conn \<Rightarrow> 'u \<Rightarrow> 'u option"
  on_open :: "zdtun_conn \<Rightarrow> 'u \<Rightarrow> (bool \<times> nat option \<times> 'u) option"
  on_close :: "zdtun_conn \<Rightarrow> 'u \<Rightarrow> 'u option"
  sy_socket :: "hist \<Rightarrow> int"
  sy_connect :: "hist \<Rightarrow> sock_err option"
  sy_setopt :: "hist \<Rightarrow> sock_err option"
  sy_bind_any :: "hist \<Rightarrow> bool"
  sy_bind :: "hist \<Rightarrow> sock_err option"
  sy_sockname :: "hist \<Rightarrow> sock_err + u16"
  sy_send :: "hist \<Rightarrow> sock_err + nat"
  sy_recv :: "hist \<Rightarrow> sock_err + byte list"
  sy_fionread :: "hist \<Rightarrow> int"
  sy_so_error :: "hist \<Rightarrow> sock_err option option"
  sy_sndbuf :: "hist \<Rightarrow> int \<times> int"
  sy_clock :: "hist \<Rightarrow> int option"
  sy_alloc :: "hist \<Rightarrow> bool"

definition log_op :: "sock_op \<Rightarrow> ('u, 'b) zdtun_scheme \<Rightarrow> ('u, 'b) zdtun_scheme" where
  "log_op x tun = tun\<lparr>z_ops := x # z_ops tun\<rparr>"

definition get_zc :: "nat \<Rightarrow> 'u zdtun \<Rightarrow> zdtun_conn option" where
  "get_zc i tun = map_of (z_conns tun) i"

definition set_zc :: "nat \<Rightarrow> zdtun_conn \<Rightarrow> 'u zdtun \<Rightarrow> 'u zdtun" where
  "set_zc i c tun = tun\<lparr>z_conns := map (\<lambda>(j, d). if j = i then (j, c) else (j, d)) (z_conns tun)\<rparr>"

definition upd_zc :: "nat \<Rightarrow> (zdtun_conn \<Rightarrow> zdtun_conn) \<Rightarrow> 'u zdtun \<Rightarrow> 'u zdtun option" where
  "upd_zc i f tun = do { c \<leftarrow> get_zc i tun; Some (set_zc i (f c) tun) }"

section \<open>Sockets\<close>

abbreviation INVALID_SOCKET :: int where "INVALID_SOCKET \<equiv> -1"
abbreviation MAX_NUM_SOCKETS :: u32 where "MAX_NUM_SOCKETS \<equiv> 128"
abbreviation NUM_SOCKETS_AFTER_PURGE :: u32 where "NUM_SOCKETS_AFTER_PURGE \<equiv> 96"
abbreviation FD_SETSIZE :: int where "FD_SETSIZE \<equiv> 1024"

text \<open>\<open>FD_SET\<close> and \<open>FD_CLR\<close> on a valid descriptor.\<close>

definition fd_set :: "int \<Rightarrow> int set \<Rightarrow> int set option" where
  "fd_set s fds = (if 0 \<le> s \<and> s < FD_SETSIZE then Some (insert s fds) else None)"

definition fd_clr :: "int \<Rightarrow> int set \<Rightarrow> int set option" where
  "fd_clr s fds = (if 0 \<le> s \<and> s < FD_SETSIZE then Some (fds - {s}) else None)"

definition zdtun_now :: "'u zdtun_env \<Rightarrow> 'u zdtun \<Rightarrow> int \<times> 'u zdtun" where
  "zdtun_now env tun =
     (let now = (case sy_clock env (z_ops tun) of Some t \<Rightarrow> t | None \<Rightarrow> z_now tun)
      in (now, log_op Op_Clock (tun\<lparr>z_now := now\<rparr>)))"

definition count_socket :: "u8 \<Rightarrow> 'u zdtun \<Rightarrow> 'u zdtun" where
  "count_socket proto tun =
     (if proto = IPPROTO_UDP then tun\<lparr>z_udp_opened := z_udp_opened tun + 1\<rparr>
      else if proto = IPPROTO_TCP then tun\<lparr>z_tcp_opened := z_tcp_opened tun + 1\<rparr>
      else if proto = IPPROTO_ICMP \<or> proto = IPPROTO_ICMPV6 then tun\<lparr>z_icmp_opened := z_icmp_opened tun + 1\<rparr>
      else tun)"

definition open_socket :: "'u zdtun_env \<Rightarrow> u8 \<Rightarrow> 'u zdtun \<Rightarrow> int \<times> 'u zdtun" where
  "open_socket env proto tun =
     (if MAX_NUM_SOCKETS \<le> z_open tun then (INVALID_SOCKET, tun)
      else let s = sy_socket env (z_ops tun);
               tun1 = log_op (Op_Socket s) tun
           in if s < 0 then (INVALID_SOCKET, tun1)
              else if FD_SETSIZE \<le> s then (INVALID_SOCKET, log_op (Op_Close s) tun1)
              else (s, count_socket proto (tun1\<lparr>z_all_fds := insert s (z_all_fds tun1), z_open := z_open tun1 + 1,
                                               z_max_fd := max (z_max_fd tun1) s\<rparr>)))"

definition close_socket :: "int \<Rightarrow> 'u zdtun \<Rightarrow> 'u zdtun" where
  "close_socket s tun =
     (if s = INVALID_SOCKET then tun
      else let tun1 = log_op (Op_Close s) tun
           in tun1\<lparr>z_all_fds := z_all_fds tun1 - {s}, z_write_fds := z_write_fds tun1 - {s},
                   z_open := (if 0 < z_open tun1 - 1 then z_open tun1 - 1 else 0)\<rparr>)"

text \<open>Sending on a socket: at most all bytes are taken.\<close>

definition sock_send :: "'u zdtun_env \<Rightarrow> int \<Rightarrow> byte list \<Rightarrow> 'u zdtun \<Rightarrow> (sock_err + nat) \<times> 'u zdtun" where
  "sock_send env s bs tun =
     (case sy_send env (z_ops tun) of
        Inl e \<Rightarrow> (Inl e, log_op (Op_Send s []) tun)
      | Inr n \<Rightarrow> let m = min n (length bs) in (Inr m, log_op (Op_Send s (take m bs)) tun))"

text \<open>Receiving at most \<open>n\<close> bytes.\<close>

definition sock_recv :: "'u zdtun_env \<Rightarrow> int \<Rightarrow> nat \<Rightarrow> 'u zdtun \<Rightarrow> (sock_err + byte list) \<times> 'u zdtun" where
  "sock_recv env s n tun =
     ((case sy_recv env (z_ops tun) of Inl e \<Rightarrow> Inl e | Inr bs \<Rightarrow> Inr (take n bs)), log_op (Op_Recv s) tun)"

section \<open>Replies to the client\<close>

definition sock_ipver :: "'u zdtun \<Rightarrow> zdtun_conn \<Rightarrow> u8 option" where
  "sock_ipver tun c =
     (case zc_proxy_mode c of
        PROXY_DNAT \<Rightarrow> map_option dp_ipver (dc_dnat (zc_nat c))
      | PROXY_SOCKS5 \<Rightarrow> Some (dp_ipver (z_socks5 tun))
      | PROXY_NONE \<Rightarrow> Some (ipver (zc_tuple c)))"

definition default_mss :: "u8 \<Rightarrow> u32 \<Rightarrow> u16" where
  "default_mss ver mtu = ucast mtu - 20 - (if ver = 4 then 20 else 40)"

definition get_available_sndbuf :: "int \<times> int \<Rightarrow> u32 \<Rightarrow> u32" where
  "get_available_sndbuf q txq = (case q of (bufsize, queued) \<Rightarrow>
     let avail = word_of_int (if bufsize = 0 then 65535 else bufsize) - word_of_int queued - txq
     in if sint avail < 0 then 0 else avail)"

text \<open>A left shift of a 32 bit value, undefined from 32 on.\<close>

definition shl32 :: "u32 \<Rightarrow> u8 \<Rightarrow> u32 option" where
  "shl32 w s = (if unat s < 32 then Some (push_bit (unat s) w) else None)"

text \<open>
  The window of a reply: \<open>min(get_available_sndbuf(conn), max_win)\<close>, a macro that asks the socket a second time for the
  value it returns.
\<close>

definition reply_window :: "'u zdtun_env \<Rightarrow> zdtun_conn \<Rightarrow> 'u zdtun \<Rightarrow> (u16 \<times> 'u zdtun) option" where
  "reply_window env c tun = do {
     max_win \<leftarrow> shl32 0xFFFF (window_scale c);
     let a1 = get_available_sndbuf (sy_sndbuf env (z_ops tun)) (tx_queue_size c);
     let tun1 = log_op Op_Query tun;
     let (tcpwin, tun2) = (if a1 < max_win
       then (get_available_sndbuf (sy_sndbuf env (z_ops tun1)) (tx_queue_size c), log_op Op_Query tun1)
       else (max_win, tun1));
     Some (ucast (drop_bit (unat (window_scale c)) tcpwin), tun2) }"

definition tcp_reply :: "'u zdtun_env \<Rightarrow> zdtun_conn \<Rightarrow> u8 \<Rightarrow> byte list \<Rightarrow> nat \<Rightarrow> 'u zdtun \<Rightarrow> (byte list \<times> 'u zdtun) option" where
  "tcp_reply env c flags body optsoff tun = do {
     ver \<leftarrow> sock_ipver tun c;
     (win, tun1) \<leftarrow> reply_window env c tun;
     pkt \<leftarrow> build_reply_tcpip ver (zc_tuple c)
              \<lparr>tf_seq = zdtun_seq c, tf_ack = client_seq c, tf_flags = flags, tf_win = win, tf_optsoff = optsoff\<rparr> body;
     Some (pkt, tun1) }"

section \<open>Closing\<close>

definition udp_mapping_key :: "zdtun_5tuple \<Rightarrow> u32" where
  "udp_mapping_key t = push_bit 16 (ucast (ipver t)) OR ucast (src_port t)"

definition release_mapping :: "zdtun_5tuple \<Rightarrow> 'u zdtun \<Rightarrow> 'u zdtun" where
  "release_mapping t tun =
     (let key = udp_mapping_key t
      in case map_of (udp_mappings tun) key of
           None \<Rightarrow> tun
         | Some mp \<Rightarrow>
             let n = um_uses mp - 1
             in tun\<lparr>udp_mappings := (if n = 0 then filter (\<lambda>(k, _). k \<noteq> key) (udp_mappings tun)
                   else map (\<lambda>(k, x). if k = key then (k, x\<lparr>um_uses := n\<rparr>) else (k, x)) (udp_mappings tun))\<rparr>)"

text \<open>The first part of \<open>zdtun_conn_close\<close>: the port mapping and the socket.\<close>

definition close_begin :: "nat \<Rightarrow> zdtun_conn \<Rightarrow> 'u zdtun \<Rightarrow> 'u zdtun" where
  "close_begin i c tun =
     set_zc i (c\<lparr>zc_sock := INVALID_SOCKET\<rparr>)
       (close_socket (zc_sock c) (if is_udp c then release_mapping (zc_tuple c) tun else tun))"

text \<open>The last part: the queue, the status and the callback.\<close>

definition close_end :: "'u zdtun_env \<Rightarrow> nat \<Rightarrow> zdtun_conn_status \<Rightarrow> 'u zdtun \<Rightarrow> 'u zdtun option" where
  "close_end env i st tun = do {
     c0 \<leftarrow> get_zc i tun;
     let c = c0\<lparr>tx_queue := (if is_tcp c0 then [] else tx_queue c0), zc_status := (if closed st then st else CONN_STATUS_CLOSED)\<rparr>;
     u \<leftarrow> on_close env c (z_data tun);
     Some (set_zc i c (tun\<lparr>z_data := u\<rparr>)) }"

text \<open>
  \<open>zdtun_conn_close\<close> where it sends no RST: a connection that is not TCP, or one whose FIN or RST was sent. This is the
  only way it is called from \<open>send_to_client\<close>, see \<open>conn_close_quiet_eq\<close>.
\<close>

definition conn_close_quiet :: "'u zdtun_env \<Rightarrow> nat \<Rightarrow> zdtun_conn_status \<Rightarrow> 'u zdtun \<Rightarrow> 'u zdtun option" where
  "conn_close_quiet env i st tun = do {
     c \<leftarrow> get_zc i tun;
     if closed (zc_status c) then Some tun else close_end env i st (close_begin i c tun) }"

text \<open>\<open>pkt\<close> is written to the reply buffer, parsed and given to the application.\<close>

definition send_to_client :: "'u zdtun_env \<Rightarrow> nat \<Rightarrow> byte list \<Rightarrow> 'u zdtun \<Rightarrow> (int \<times> 'u zdtun) option" where
  "send_to_client env i pkt tun = do {
     c \<leftarrow> get_zc i tun;
     buf \<leftarrow> wr (z_reply_buf tun) 0 pkt;
     r \<leftarrow> zdtun_parse_pkt (z_frags tun) buf (of_nat (length pkt));
     case r of
       Inl e \<Rightarrow> Some (-1, tun\<lparr>z_reply_buf := buf\<rparr>)
     | Inr (p, ids) \<Rightarrow> do {
         (rv, u) \<leftarrow> send_client env p c (z_data tun);
         let tun1 = tun\<lparr>z_reply_buf := buf, z_frags := ids, z_data := u\<rparr>;
         if rv = 0 then do { u' \<leftarrow> account_packet env p False c u; Some (0, tun1\<lparr>z_data := u'\<rparr>) }
         else do {
           let tun2 = (if is_tcp c then set_zc i (c\<lparr>fin_ack_sent := True\<rparr>) tun1 else tun1);
           tun3 \<leftarrow> conn_close_quiet env i CONN_STATUS_CLIENT_ERROR tun2;
           Some (rv, tun3) } } }"

definition zdtun_conn_close :: "'u zdtun_env \<Rightarrow> nat \<Rightarrow> zdtun_conn_status \<Rightarrow> 'u zdtun \<Rightarrow> 'u zdtun option" where
  "zdtun_conn_close env i st tun = do {
     c \<leftarrow> get_zc i tun;
     if closed (zc_status c) then Some tun
     else do {
       let tun1 = close_begin i c tun;
       tun2 \<leftarrow> (if is_tcp c \<and> \<not> fin_ack_sent c
                then do {
                  (pkt, t1) \<leftarrow> tcp_reply env (c\<lparr>zc_sock := INVALID_SOCKET\<rparr>) (TH_RST OR TH_ACK) [] 0 tun1;
                  (rv, t2) \<leftarrow> send_to_client env i pkt t1;
                  Some t2 }
                else Some tun1);
       close_end env i st tun2 } }"

lemma conn_close_quiet_eq:
  assumes "get_zc i tun = Some c" "is_tcp c \<Longrightarrow> fin_ack_sent c"
  shows "zdtun_conn_close env i st tun = conn_close_quiet env i st tun"
  using assms by (auto simp: zdtun_conn_close_def conn_close_quiet_def Let_def)

definition close_with_socket_error :: "'u zdtun_env \<Rightarrow> nat \<Rightarrow> sock_err \<Rightarrow> 'u zdtun \<Rightarrow> (int \<times> 'u zdtun) option" where
  "close_with_socket_error env i e tun =
     (let (st, rv) = (case e of
            Con_Reset \<Rightarrow> (CONN_STATUS_RESET, 0)
          | Broken_Pipe \<Rightarrow> (CONN_STATUS_SOCKET_ERROR, 0)
          | Con_Refused \<Rightarrow> (CONN_STATUS_SOCKET_ERROR, 0)
          | Con_Aborted \<Rightarrow> (CONN_STATUS_SOCKET_ERROR, 0)
          | Net_Unreachable \<Rightarrow> (CONN_STATUS_UNREACHABLE, -1)
          | Host_Unreachable \<Rightarrow> (CONN_STATUS_UNREACHABLE, -1)
          | In_Progress \<Rightarrow> (CONN_STATUS_SOCKET_ERROR, -1)
          | Would_Block \<Rightarrow> (CONN_STATUS_SOCKET_ERROR, -1)
          | Other_Error \<Rightarrow> (CONN_STATUS_SOCKET_ERROR, -1))
      in do { tun1 \<leftarrow> zdtun_conn_close env i st tun; Some (rv, tun1) })"

section \<open>Table\<close>

definition count_conn :: "u8 \<Rightarrow> u16 \<Rightarrow> 'u zdtun \<Rightarrow> 'u zdtun" where
  "count_conn proto k tun =
     (if proto = IPPROTO_TCP then tun\<lparr>z_tcp_conn := z_tcp_conn tun + k\<rparr>
      else if proto = IPPROTO_UDP then tun\<lparr>z_udp_conn := z_udp_conn tun + k\<rparr>
      else if proto = IPPROTO_ICMP then tun\<lparr>z_icmp_conn := z_icmp_conn tun + k\<rparr>
      else tun)"

definition destroy_conn :: "'u zdtun_env \<Rightarrow> nat \<Rightarrow> 'u zdtun \<Rightarrow> 'u zdtun option" where
  "destroy_conn env i tun = do {
     tun1 \<leftarrow> zdtun_conn_close env i CONN_STATUS_CLOSED tun;
     c \<leftarrow> get_zc i tun1;
     let tun2 = count_conn (ipproto (zc_tuple c)) (-1) tun1;
     Some (tun2\<lparr>z_conns := filter (\<lambda>(j, _). j \<noteq> i) (z_conns tun2)\<rparr>) }"

fun destroy_all :: "'u zdtun_env \<Rightarrow> nat list \<Rightarrow> 'u zdtun \<Rightarrow> 'u zdtun option" where
  "destroy_all env [] tun = Some tun"
| "destroy_all env (i # is) tun = do { tun1 \<leftarrow> destroy_conn env i tun; destroy_all env is tun1 }"

definition zdtun_finalize :: "'u zdtun_env \<Rightarrow> 'u zdtun \<Rightarrow> 'u zdtun option" where
  "zdtun_finalize env tun = destroy_all env (map fst (z_conns tun)) tun"

definition idle_timeout :: "u8 \<Rightarrow> int" where
  "idle_timeout proto =
     (if proto = IPPROTO_TCP then 60 else if proto = IPPROTO_UDP then 30 else if proto = IPPROTO_ICMP then 5 else 0)"

fun purge_idle :: "'u zdtun_env \<Rightarrow> int \<Rightarrow> nat list \<Rightarrow> 'u zdtun \<Rightarrow> 'u zdtun option" where
  "purge_idle env now [] tun = Some tun"
| "purge_idle env now (i # is) tun = do {
     c \<leftarrow> get_zc i tun;
     if closed (zc_status c) \<or> idle_timeout (ipproto (zc_tuple c)) + zc_tstamp c \<le> now
     then do { tun1 \<leftarrow> destroy_conn env i tun; purge_idle env now is tun1 }
     else purge_idle env now is tun }"

text \<open>With too many sockets, the connections seen longest ago are destroyed.\<close>

definition zdtun_purge_expired :: "'u zdtun_env \<Rightarrow> 'u zdtun \<Rightarrow> 'u zdtun option" where
  "zdtun_purge_expired env tun0 = do {
     let (now, tun) = zdtun_now env tun0;
     tun1 \<leftarrow> purge_idle env now (map fst (z_conns tun)) tun;
     if MAX_NUM_SOCKETS \<le> z_open tun1
     then do {
       let tun2 = tun1\<lparr>z_conns := sort_key (\<lambda>(_, c). zc_tstamp c) (z_conns tun1)\<rparr>;
       destroy_all env (take (unat (z_open tun1 - NUM_SOCKETS_AFTER_PURGE)) (map fst (z_conns tun2))) tun2 }
     else Some tun1 }"

definition new_zconn :: "zdtun_5tuple \<Rightarrow> int \<Rightarrow> zdtun_conn" where
  "new_zconn t now = \<lparr>zc_key = t, zc_nat = \<lparr>dc_tuple = t, dc_dnat = None\<rparr>, zc_tstamp = now, zc_sock = INVALID_SOCKET,
     zc_status = CONN_STATUS_NEW, zc_proxy_mode = PROXY_NONE, zc_socks5 = SOCKS5_HELLO, zc_skip = 0, tx_queue = [], tx_queue_size = 0,
     client_seq = 0, zdtun_seq = 0, window_size = 0, mss = 0, window_scale = 0, fin_ack_sent = False, client_closed = False,
     pending_queries = 0, user_data = None\<rparr>"

text \<open>A connection whose own tuple has changed since it was added is not found any more.\<close>

definition find_zc :: "zdtun_5tuple \<Rightarrow> 'u zdtun \<Rightarrow> nat option" where
  "find_zc t tun = map_option fst (find (\<lambda>(_, c). zc_key c = t \<and> zc_tuple c = t) (z_conns tun))"

definition add_zc :: "'u zdtun_env \<Rightarrow> zdtun_5tuple \<Rightarrow> 'u zdtun \<Rightarrow> (nat option \<times> 'u zdtun) option" where
  "add_zc env t tun0 = do {
     tun \<leftarrow> (if MAX_NUM_SOCKETS \<le> z_open tun0 then zdtun_purge_expired env tun0 else Some tun0);
     let (now, tun1) = zdtun_now env tun;
     let c = new_zconn t now;
     (reject, ud, u) \<leftarrow> on_open env c (z_data tun1);
     if reject then Some (None, tun1\<lparr>z_data := u\<rparr>)
     else Some (Some (z_next tun1),
       count_conn (ipproto t) 1 (tun1\<lparr>z_data := u, z_conns := z_conns tun1 @ [(z_next tun1, c\<lparr>user_data := ud\<rparr>)], z_next := z_next tun1 + 1\<rparr>)) }"

definition zdtun_lookup :: "'u zdtun_env \<Rightarrow> zdtun_5tuple \<Rightarrow> bool \<Rightarrow> 'u zdtun \<Rightarrow> (nat option \<times> 'u zdtun) option" where
  "zdtun_lookup env t create tun = do {
     (found, tun1) \<leftarrow> (case find_zc t tun of
         None \<Rightarrow> Some (None, tun)
       | Some i \<Rightarrow> do {
           c \<leftarrow> get_zc i tun;
           if closed (zc_status c) then do { t1 \<leftarrow> destroy_conn env i tun; Some (None, t1) } else Some (Some i, tun) });
     case found of
       Some i \<Rightarrow> Some (Some i, tun1)
     | None \<Rightarrow> if create then add_zc env t tun1 else Some (None, tun1) }"

section \<open>The application's view of a connection\<close>

definition zdtun_conn_proxy :: "zdtun_conn \<Rightarrow> zdtun_conn" where
  "zdtun_conn_proxy c = (if is_tcp c then c\<lparr>zc_proxy_mode := PROXY_SOCKS5\<rparr> else c)"

text \<open>\<open>zdtun_conn_dnat\<close> of \<open>Port_Map\<close> with the mode it sets.\<close>

definition conn_dnat :: "zdtun_ip \<Rightarrow> u16 \<Rightarrow> u8 \<Rightarrow> zdtun_conn \<Rightarrow> zdtun_conn" where
  "conn_dnat ip port v c = c\<lparr>zc_nat := zdtun_conn_dnat (zc_nat c) ip port v, zc_proxy_mode := PROXY_DNAT\<rparr>"

fun iter_zconns :: "(zdtun_conn \<Rightarrow> 'a \<Rightarrow> bool \<times> 'a) \<Rightarrow> (nat \<times> zdtun_conn) list \<Rightarrow> 'a \<Rightarrow> bool \<times> 'a" where
  "iter_zconns f [] s = (False, s)"
| "iter_zconns f ((i, c) # cs) s =
     (if \<not> closed (zc_status c)
      then let (stop, s1) = f c s in if stop then (True, s1) else iter_zconns f cs s1
      else iter_zconns f cs s)"

definition zdtun_iter_connections :: "(zdtun_conn \<Rightarrow> 'a \<Rightarrow> bool \<times> 'a) \<Rightarrow> 'u zdtun \<Rightarrow> 'a \<Rightarrow> bool \<times> 'a" where
  "zdtun_iter_connections f tun s = iter_zconns f (z_conns tun) s"

definition zdtun_get_num_connections :: "'u zdtun \<Rightarrow> int" where
  "zdtun_get_num_connections tun = uint (z_tcp_conn tun) + uint (z_udp_conn tun) + uint (z_icmp_conn tun)"

definition zdtun_set_mtu :: "int \<Rightarrow> 'u zdtun \<Rightarrow> 'u zdtun" where
  "zdtun_set_mtu mtu tun = tun\<lparr>z_mtu := word_of_int (min mtu (int REPLY_BUF_SIZE))\<rparr>"

definition zdtun_set_socks5_proxy :: "zdtun_ip \<Rightarrow> u16 \<Rightarrow> u8 \<Rightarrow> 'u zdtun \<Rightarrow> 'u zdtun" where
  "zdtun_set_socks5_proxy ip port v tun = tun\<lparr>z_socks5 := \<lparr>dp_ip = ip, dp_port = port, dp_ipver = v\<rparr>\<rparr>"

definition zdtun_set_socks5_userpass :: "byte list \<Rightarrow> byte list \<Rightarrow> 'u zdtun \<Rightarrow> 'u zdtun" where
  "zdtun_set_socks5_userpass user pass tun = tun\<lparr>z_userpass := Some (user, pass)\<rparr>"

definition zdtun_fds :: "'u zdtun \<Rightarrow> int \<times> int set \<times> int set" where
  "zdtun_fds tun = (z_max_fd tun, z_all_fds tun, z_write_fds tun)"

definition zdtun_init :: "'u \<Rightarrow> 'u zdtun" where
  "zdtun_init u = \<lparr>z_all_fds = {}, z_write_fds = {}, z_mtu = 1500, z_open = 0, z_max_fd = 0, z_icmp_conn = 0, z_tcp_conn = 0,
     z_udp_conn = 0, z_icmp_opened = 0, z_tcp_opened = 0, z_udp_opened = 0, z_now = 0, z_frags = (\<lambda>_. (0, 0)),
     z_reply_buf = replicate REPLY_BUF_SIZE 0, z_socks5 = \<lparr>dp_ip = 0, dp_port = 0, dp_ipver = 0\<rparr>, z_userpass = None, z_conns = [],
     z_next = 0, udp_mappings = [], z_ops = [], z_data = u\<rparr>"

end
