(* ===== verification/Zdtun_Forward.thy ===== *)
theory Zdtun_Forward
  imports Zdtun_Conn
begin

text \<open>
  What zdtun does with the packets of the client and with the data of the sockets (\<open>zdtun_forward\<close>, \<open>zdtun_handle_fd\<close>
  and their handlers in \<^verbatim>\<open>submodules/zdtun/zdtun.c\<close>, and the proxy handshake of \<^verbatim>\<open>submodules/zdtun/socks5.c\<close>).
\<close>

section \<open>Fields of the client's packet\<close>

definition tcp_off :: "zdtun_pkt \<Rightarrow> nat" where
  "tcp_off p = unat (p_ip_hdr_len p)"

definition pkt_payload :: "zdtun_pkt \<Rightarrow> byte list option" where
  "pkt_payload p =
     (let off = unat (p_ip_hdr_len p) + unat (p_l4_hdr_len p); n = unat (p_l7_len p)
      in if off + n \<le> length (p_buf p) then Some (take n (drop off (p_buf p))) else None)"

record tcp_hdr =
  th_seq :: u32
  th_ack :: u32
  th_off :: u8
  th_flags :: u8
  th_win :: u16

definition read_tcp :: "zdtun_pkt \<Rightarrow> tcp_hdr option" where
  "read_tcp p = do {
     s \<leftarrow> rd32 (p_buf p) (tcp_off p + 4);
     a \<leftarrow> rd32 (p_buf p) (tcp_off p + 8);
     x \<leftarrow> rd8 (p_buf p) (tcp_off p + 12);
     f \<leftarrow> rd8 (p_buf p) (tcp_off p + 13);
     w \<leftarrow> rd16 (p_buf p) (tcp_off p + 14);
     Some \<lparr>th_seq = ntohl s, th_ack = ntohl a, th_off = drop_bit 4 x, th_flags = f, th_win = ntohs w\<rparr> }"

text \<open>
  The options of the SYN: MSS and window scale. \<open>optslen\<close> counts up for every NOP, so the loop can leave the header; it
  ends at the latest where the buffer ends.
\<close>

function scan_opts :: "byte list \<Rightarrow> nat \<Rightarrow> u8 \<Rightarrow> u16 \<times> u8 \<Rightarrow> (u16 \<times> u8) option" where
  "scan_opts b off optslen (m, scale) =
     (if optslen \<le> 1 then Some (m, scale)
      else if length b \<le> off then None
      else let kind = b ! off
           in if kind = 1 then scan_opts b (off + 1) (optslen + 1) (m, scale)
              else if length b \<le> off + 1 then None
              else let len = b ! (off + 1)
                   in if kind = 0 \<or> len < 2 \<or> optslen < len then Some (m, scale)
                      else do {
                        m1 \<leftarrow> (if kind = 2 \<and> len = 4 then map_option ntohs (rd16 b (off + 2)) else Some m);
                        s1 \<leftarrow> (if kind = 3 \<and> len = 3 then rd8 b (off + 2) else Some scale);
                        scan_opts b (off + unat len) (optslen - len) (m1, s1) })"
  by pat_completeness auto
termination
proof (relation "measure (\<lambda>(b, off, _, _). length b - off)")
  fix b off optslen m scale kind len m1 s1
  assume "\<not> length b \<le> off" "\<not> (kind = 0 \<or> len < 2 \<or> optslen < (len :: u8))"
  moreover have "2 \<le> unat len" using \<open>\<not> (kind = 0 \<or> len < 2 \<or> optslen < len)\<close> by (simp add: word_le_nat_alt not_less)
  ultimately show "((b, off + unat len, optslen - len, m1, s1), b, off, optslen, m, scale) \<in> measure (\<lambda>(b, off, _, _). length b - off)"
    by simp
qed auto

declare scan_opts.simps [simp del]

section \<open>Proxy handshake\<close>

text \<open>
  \<open>hello\<close>, authentication and request. Lengths are written as bytes. The string lengths of user and password are those
  given to \<open>zdtun_set_socks5_userpass\<close>.
\<close>

definition socks5_send :: "'u zdtun_env \<Rightarrow> nat \<Rightarrow> byte list \<Rightarrow> socks5_status \<Rightarrow> 'u zdtun \<Rightarrow> (int \<times> 'u zdtun) option" where
  "socks5_send env i bs st tun = do {
     c \<leftarrow> get_zc i tun;
     let (r, tun1) = sock_send env (zc_sock c) bs tun;
     case r of
       Inl e \<Rightarrow> close_with_socket_error env i e tun1
     | Inr n \<Rightarrow> do { tun2 \<leftarrow> upd_zc i (\<lambda>c. c\<lparr>zc_socks5 := st\<rparr>) tun1; Some (0, tun2) } }"

definition socks5_connect :: "'u zdtun_env \<Rightarrow> nat \<Rightarrow> 'u zdtun \<Rightarrow> (int \<times> 'u zdtun) option" where
  "socks5_connect env i tun = socks5_send env i [5, 1, if z_userpass tun \<noteq> None then 2 else 0] SOCKS5_HELLO tun"

definition socks5_auth_req :: "byte list \<times> byte list \<Rightarrow> byte list" where
  "socks5_auth_req up = [1, of_nat (length (fst up))] @ fst up @ [of_nat (length (snd up))] @ snd up"

definition socks5_auth :: "'u zdtun_env \<Rightarrow> nat \<Rightarrow> 'u zdtun \<Rightarrow> (int \<times> 'u zdtun) option" where
  "socks5_auth env i tun = do { up \<leftarrow> z_userpass tun; socks5_send env i (socks5_auth_req up) SOCKS5_AUTH tun }"

definition socks5_request :: "zdtun_5tuple \<Rightarrow> byte list" where
  "socks5_request t =
     [5, 1, 0] @ (if ipver t = 4 then 1 # put32 (ip4 (dst_ip t)) else 4 # put128 (dst_ip t)) @ put16 (dst_port t)"

definition socks5_req :: "'u zdtun_env \<Rightarrow> nat \<Rightarrow> 'u zdtun \<Rightarrow> (int \<times> 'u zdtun) option" where
  "socks5_req env i tun = do { c \<leftarrow> get_zc i tun; socks5_send env i (socks5_request (zc_tuple c)) SOCKS5_CONNECTING tun }"

definition socks5_fail :: "'u zdtun_env \<Rightarrow> nat \<Rightarrow> 'u zdtun \<Rightarrow> (int \<times> 'u zdtun) option" where
  "socks5_fail env i tun = do { tun1 \<leftarrow> zdtun_conn_close env i CONN_STATUS_SOCKS5_ERROR tun; Some (-1, tun1) }"

definition socks5_hello_reply :: "'u zdtun_env \<Rightarrow> nat \<Rightarrow> byte list \<Rightarrow> 'u zdtun \<Rightarrow> (int \<times> 'u zdtun) option" where
  "socks5_hello_reply env i dat tun =
     (if length dat \<noteq> 2 \<or> dat ! 0 \<noteq> 5 then socks5_fail env i tun
      else if dat ! 1 \<noteq> 0
      then if dat ! 1 = 2 \<and> z_userpass tun \<noteq> None then socks5_auth env i tun else socks5_fail env i tun
      else socks5_req env i tun)"

definition socks5_auth_reply :: "'u zdtun_env \<Rightarrow> nat \<Rightarrow> byte list \<Rightarrow> 'u zdtun \<Rightarrow> (int \<times> 'u zdtun) option" where
  "socks5_auth_reply env i dat tun =
     (if length dat < 2 \<or> dat ! 0 \<noteq> 1 \<or> dat ! 1 \<noteq> 0 then socks5_fail env i tun else socks5_req env i tun)"

text \<open>The bound address that follows the reply; a proxy may send it in pieces.\<close>

definition socks5_skip :: "'u zdtun_env \<Rightarrow> nat \<Rightarrow> byte list \<Rightarrow> 'u zdtun \<Rightarrow> (int \<times> 'u zdtun) option" where
  "socks5_skip env i dat tun = do {
     c \<leftarrow> get_zc i tun;
     if length dat \<le> unat (zc_skip c)
     then do {
       let rest = zc_skip c - of_nat (length dat);
       tun1 \<leftarrow> upd_zc i (\<lambda>c. c\<lparr>zc_skip := rest, zc_socks5 := (if rest = 0 then SOCKS5_ESTABLISHED else zc_socks5 c)\<rparr>) tun;
       Some (0, tun1) }
     else socks5_fail env i tun }"

definition socks5_connect_reply :: "'u zdtun_env \<Rightarrow> nat \<Rightarrow> byte list \<Rightarrow> 'u zdtun \<Rightarrow> (int \<times> 'u zdtun) option" where
  "socks5_connect_reply env i dat tun =
     (if length dat < 4 \<or> dat ! 0 \<noteq> 5 then socks5_fail env i tun
      else if dat ! 1 \<noteq> 0
      then (let (st, rv) = (if dat ! 1 = 4 \<or> dat ! 1 = 3 then (CONN_STATUS_UNREACHABLE, 0)
                            else if dat ! 1 = 5 then (CONN_STATUS_SOCKET_ERROR, 0)
                            else (CONN_STATUS_SOCKS5_ERROR, -1))
            in do { tun1 \<leftarrow> zdtun_conn_close env i st tun; Some (rv, tun1) })
      else if dat ! 3 \<noteq> 1 \<and> dat ! 3 \<noteq> 4 then socks5_fail env i tun
      else do {
        tun1 \<leftarrow> upd_zc i (\<lambda>c. c\<lparr>zc_skip := (if dat ! 3 = 1 then 4 else 16) + 2, zc_socks5 := SOCKS5_SKIP_BND\<rparr>) tun;
        if 4 < length dat then socks5_skip env i (drop 4 dat) tun1 else Some (0, tun1) })"

definition handle_socks5_reply :: "'u zdtun_env \<Rightarrow> nat \<Rightarrow> byte list \<Rightarrow> 'u zdtun \<Rightarrow> (int \<times> 'u zdtun) option" where
  "handle_socks5_reply env i dat tun = do {
     c \<leftarrow> get_zc i tun;
     case zc_socks5 c of
       SOCKS5_HELLO \<Rightarrow> socks5_hello_reply env i dat tun
     | SOCKS5_AUTH \<Rightarrow> socks5_auth_reply env i dat tun
     | SOCKS5_CONNECTING \<Rightarrow> socks5_connect_reply env i dat tun
     | SOCKS5_SKIP_BND \<Rightarrow> socks5_skip env i dat tun
     | SOCKS5_ESTABLISHED \<Rightarrow> socks5_fail env i tun }"

section \<open>TCP\<close>

definition send_ack :: "'u zdtun_env \<Rightarrow> nat \<Rightarrow> u8 \<Rightarrow> byte list \<Rightarrow> nat \<Rightarrow> 'u zdtun \<Rightarrow> (int \<times> 'u zdtun) option" where
  "send_ack env i flags body optsoff tun = do {
     c \<leftarrow> get_zc i tun;
     (pkt, tun1) \<leftarrow> tcp_reply env c flags body optsoff tun;
     send_to_client env i pkt tun1 }"

definition send_syn_ack :: "'u zdtun_env \<Rightarrow> nat \<Rightarrow> 'u zdtun \<Rightarrow> (int \<times> 'u zdtun) option" where
  "send_syn_ack env i tun = do {
     c \<leftarrow> get_zc i tun;
     ver \<leftarrow> sock_ipver tun c;
     (rv, tun1) \<leftarrow> send_ack env i (TH_SYN OR TH_ACK) (syn_ack_opts (default_mss ver (z_mtu tun)) (window_scale c)) 2 tun;
     if rv = 0 then do { tun2 \<leftarrow> upd_zc i (\<lambda>c. c\<lparr>zdtun_seq := zdtun_seq c + 1\<rparr>) tun1; Some (0, tun2) } else Some (rv, tun1) }"

definition tcp_socket_syn :: "'u zdtun_env \<Rightarrow> nat \<Rightarrow> 'u zdtun \<Rightarrow> (int \<times> 'u zdtun) option" where
  "tcp_socket_syn env i tun = do {
     c \<leftarrow> get_zc i tun;
     wr \<leftarrow> fd_clr (zc_sock c) (z_write_fds tun);
     tun1 \<leftarrow> upd_zc i (\<lambda>c. c\<lparr>zc_status := CONN_STATUS_CONNECTED\<rparr>) (log_op Op_Query (tun\<lparr>z_write_fds := wr\<rparr>));
     if zc_proxy_mode c = PROXY_SOCKS5 then socks5_connect env i tun1 else send_syn_ack env i tun1 }"

definition tcp_socket_fin_ack :: "'u zdtun_env \<Rightarrow> nat \<Rightarrow> 'u zdtun \<Rightarrow> 'u zdtun option" where
  "tcp_socket_fin_ack env i tun = do {
     (rv, tun1) \<leftarrow> send_ack env i (TH_FIN OR TH_ACK) [] 0 tun;
     if rv = 0 then upd_zc i (\<lambda>c. c\<lparr>zdtun_seq := zdtun_seq c + 1\<rparr>) tun1 else Some tun1 }"

text \<open>The address a socket is connected to.\<close>

definition fill_conn_sockaddr :: "'u zdtun \<Rightarrow> zdtun_conn \<Rightarrow> (zdtun_ip \<times> u16 \<times> u8) option" where
  "fill_conn_sockaddr tun c = do {
     ver \<leftarrow> sock_ipver tun c;
     let addr = (\<lambda>a. if ver = 4 then of_ip4 (ip4 a) else a);
     case zc_proxy_mode c of
       PROXY_DNAT \<Rightarrow> do { d \<leftarrow> dc_dnat (zc_nat c); Some (addr (dp_ip d), dp_port d, ver) }
     | PROXY_SOCKS5 \<Rightarrow> Some (addr (dp_ip (z_socks5 tun)), dp_port (z_socks5 tun), ver)
     | PROXY_NONE \<Rightarrow> Some (addr (dst_ip (zc_tuple c)), dst_port (zc_tuple c), ver) }"

definition enqueue_tcp_data :: "'u zdtun_env \<Rightarrow> nat \<Rightarrow> byte list \<Rightarrow> u8 \<Rightarrow> 'u zdtun \<Rightarrow> (int \<times> 'u zdtun) option" where
  "enqueue_tcp_data env i buf flags tun =
     (if \<not> sy_alloc env (z_ops tun)
      then do { tun1 \<leftarrow> zdtun_conn_close env i CONN_STATUS_ERROR tun; Some (-1, tun1) }
      else do {
        c \<leftarrow> get_zc i tun;
        wr \<leftarrow> fd_set (zc_sock c) (z_write_fds tun);
        Some (0, set_zc i (c\<lparr>tx_queue := tx_queue c @ [\<lparr>td_flags = flags, td_sofar = 0, td_data = buf\<rparr>],
                            tx_queue_size := tx_queue_size c + of_nat (length buf)\<rparr>) (tun\<lparr>z_write_fds := wr\<rparr>)) })"

text \<open>A SYN: the socket, the options and the connection to the server.\<close>

definition tcp_open :: "'u zdtun_env \<Rightarrow> zdtun_pkt \<Rightarrow> tcp_hdr \<Rightarrow> nat \<Rightarrow> 'u zdtun \<Rightarrow> (int \<times> 'u zdtun) option" where
  "tcp_open env pkt h i tun0 = do {
     let (s, tun) = open_socket env IPPROTO_TCP tun0;
     if s = INVALID_SOCKET then do { t \<leftarrow> upd_zc i (\<lambda>c. c\<lparr>zc_status := CONN_STATUS_SOCKET_ERROR\<rparr>) tun; Some (-1, t) }
     else do {
       tun1 \<leftarrow> upd_zc i (\<lambda>c. c\<lparr>zc_sock := s\<rparr>) tun;
       c \<leftarrow> get_zc i tun1;
       (ip, port, ver) \<leftarrow> fill_conn_sockaddr tun1 c;
       u \<leftarrow> account_packet env pkt True c (z_data tun1);
       (m, scale) \<leftarrow> scan_opts (p_buf pkt) (tcp_off pkt + 20) (th_off h * 4 - 20) (default_mss ver (z_mtu tun1), 0);
       win \<leftarrow> shl32 (ucast (th_win h)) scale;
       tun2 \<leftarrow> upd_zc i (\<lambda>c. c\<lparr>window_size := win, window_scale := scale, mss := m\<rparr>) (tun1\<lparr>z_data := u\<rparr>);
       let res = sy_connect env (z_ops tun2);
       let tun3 = log_op (Op_Connect s ip port ver) tun2;
       if res \<noteq> None \<and> res \<noteq> Some In_Progress
       then do { (rv, t) \<leftarrow> close_with_socket_error env i (the res) tun3; Some (0, t) }
       else do {
         tun4 \<leftarrow> upd_zc i (\<lambda>c. c\<lparr>client_seq := th_seq h + 1, zdtun_seq := 0x77EB77EB\<rparr>) tun3;
         if res = None then tcp_socket_syn env i tun4
         else do {
           tun5 \<leftarrow> upd_zc i (\<lambda>c. c\<lparr>zc_status := CONN_STATUS_CONNECTING\<rparr>) tun4;
           wr \<leftarrow> fd_set s (z_write_fds tun5);
           Some (0, tun5\<lparr>z_write_fds := wr\<rparr>) } } } }"

text \<open>FIN from the client: the socket is shut down for writing and the FIN acknowledged.\<close>

definition tcp_client_fin :: "'u zdtun_env \<Rightarrow> zdtun_pkt \<Rightarrow> nat \<Rightarrow> 'u zdtun \<Rightarrow> (int \<times> 'u zdtun) option" where
  "tcp_client_fin env pkt i tun = do {
     c \<leftarrow> get_zc i tun;
     let tun1 = (if zc_sock c \<noteq> INVALID_SOCKET then log_op (Op_Shutdown (zc_sock c)) tun else tun);
     tun2 \<leftarrow> upd_zc i (\<lambda>c. c\<lparr>client_seq := client_seq c + ucast (p_l7_len pkt) + 1, client_closed := True\<rparr>) tun1;
     (rv, tun3) \<leftarrow> send_ack env i TH_ACK [] 0 tun2;
     c3 \<leftarrow> get_zc i tun3;
     tun4 \<leftarrow> (if zc_sock c3 = INVALID_SOCKET then zdtun_conn_close env i CONN_STATUS_CLOSED tun3 else Some tun3);
     Some (rv, tun4) }"

text \<open>The bytes in flight and the window that an acknowledgement leaves.\<close>

definition in_flight :: "u32 \<Rightarrow> u32 \<Rightarrow> u32" where
  "in_flight zseq ack_num = (if ack_num \<le> zseq then zseq - ack_num else 0xFFFFFFFF - ack_num + zseq + 1)"

definition tcp_client_ack :: "'u zdtun_env \<Rightarrow> tcp_hdr \<Rightarrow> bool \<Rightarrow> nat \<Rightarrow> 'u zdtun \<Rightarrow> (int \<times> 'u zdtun) option" where
  "tcp_client_ack env h keep_alive i tun =
     (if keep_alive then send_ack env i TH_ACK [] 0 (log_op Op_Query tun)
      else do {
        c \<leftarrow> get_zc i tun;
        window \<leftarrow> shl32 (ucast (th_win h)) (window_scale c);
        let w = window - in_flight (zdtun_seq c) (th_ack h);
        fds \<leftarrow> (if zc_sock c \<notin> z_all_fds tun \<and> 0 < w then fd_set (zc_sock c) (z_all_fds tun) else Some (z_all_fds tun));
        Some (0, set_zc i (c\<lparr>window_size := w\<rparr>) (tun\<lparr>z_all_fds := fds\<rparr>)) })"

definition tcp_client_data :: "'u zdtun_env \<Rightarrow> zdtun_pkt \<Rightarrow> tcp_hdr \<Rightarrow> nat \<Rightarrow> 'u zdtun \<Rightarrow> (int \<times> 'u zdtun) option" where
  "tcp_client_data env pkt h i tun =
     (if 0 < unat (p_l7_len pkt)
      then do {
        c \<leftarrow> get_zc i tun;
        if zc_sock c = INVALID_SOCKET
        then do {
          tun1 \<leftarrow> upd_zc i (\<lambda>c. c\<lparr>client_seq := client_seq c + ucast (p_l7_len pkt)\<rparr>) tun;
          send_ack env i TH_ACK [] 0 tun1 }
        else do { buf \<leftarrow> pkt_payload pkt; enqueue_tcp_data env i buf (th_flags h) tun } }
      else Some (0, tun))"

text \<open>A packet of an active connection.\<close>

definition tcp_active :: "'u zdtun_env \<Rightarrow> zdtun_pkt \<Rightarrow> tcp_hdr \<Rightarrow> nat \<Rightarrow> 'u zdtun \<Rightarrow> (int \<times> 'u zdtun) option" where
  "tcp_active env pkt h i tun0 = do {
     c \<leftarrow> get_zc i tun0;
     u \<leftarrow> account_packet env pkt True c (z_data tun0);
     let tun = tun0\<lparr>z_data := u\<rparr>;
     let keep_alive = (th_flags h AND TH_ACK \<noteq> 0 \<and> th_seq h + 1 = client_seq c);
     if \<not> keep_alive \<and> th_seq h \<noteq> client_seq c + tx_queue_size c then Some (0, tun)
     else if socks5_in_progress c
     then do { t \<leftarrow> zdtun_conn_close env i CONN_STATUS_SOCKS5_ERROR tun; Some (-1, t) }
     else if th_flags h AND TH_RST \<noteq> 0
     then do { t \<leftarrow> zdtun_conn_close env i CONN_STATUS_CLOSED tun; Some (0, t) }
     else if th_flags h AND (TH_FIN OR TH_ACK) = TH_FIN OR TH_ACK then tcp_client_fin env pkt i tun
     else do {
       (rv, tun1) \<leftarrow> (if th_flags h AND TH_ACK \<noteq> 0 \<and> zc_sock c \<noteq> INVALID_SOCKET
                      then tcp_client_ack env h keep_alive i tun else Some (0, tun));
       if rv \<noteq> 0 then Some (-1, tun1) else tcp_client_data env pkt h i tun1 } }"

definition handle_tcp_fwd :: "'u zdtun_env \<Rightarrow> zdtun_pkt \<Rightarrow> nat \<Rightarrow> 'u zdtun \<Rightarrow> (int \<times> 'u zdtun) option" where
  "handle_tcp_fwd env pkt i tun = do {
     h \<leftarrow> read_tcp pkt;
     c \<leftarrow> get_zc i tun;
     if th_flags h AND TH_URG \<noteq> 0 then do { t \<leftarrow> zdtun_conn_close env i CONN_STATUS_ERROR tun; Some (-1, t) }
     else if zc_status c = CONN_STATUS_CONNECTING then Some (0, tun)
     else if zc_status c = CONN_STATUS_NEW then tcp_open env pkt h i tun
     else tcp_active env pkt h i tun }"

section \<open>UDP\<close>

text \<open>DNS packets, by the first twelve bytes of the payload (the structure has one byte more); the flags are tested as loaded.\<close>

definition dns_flags :: "zdtun_conn \<Rightarrow> byte list \<Rightarrow> u16 option" where
  "dns_flags c payload =
     (if length payload < 13 \<or> dst_port (zc_tuple c) \<noteq> ntohs 53 then None else rd16 payload 2)"

definition check_dns_request :: "byte list \<Rightarrow> zdtun_conn \<Rightarrow> zdtun_conn" where
  "check_dns_request payload c =
     (case dns_flags c payload of
        Some f \<Rightarrow> if f AND 0x8000 = 0 then c\<lparr>pending_queries := pending_queries c + 1\<rparr> else c
      | None \<Rightarrow> c)"

definition check_dns_purge :: "'u zdtun_env \<Rightarrow> nat \<Rightarrow> byte list \<Rightarrow> 'u zdtun \<Rightarrow> 'u zdtun option" where
  "check_dns_purge env i payload tun = do {
     c \<leftarrow> get_zc i tun;
     case dns_flags c payload of
       None \<Rightarrow> Some tun
     | Some f \<Rightarrow>
         if f AND 0x8000 \<noteq> 0 \<and> 0 < pending_queries c
         then (let tun1 = set_zc i (c\<lparr>pending_queries := pending_queries c - 1\<rparr>) tun
               in if pending_queries c - 1 = 0 then zdtun_conn_close env i CONN_STATUS_CLOSED tun1 else Some tun1)
         else Some tun }"

text \<open>The result of \<open>bind_and_connect_udp\<close> is whether it returns 0.\<close>

definition udp_fail :: "'u zdtun_env \<Rightarrow> nat \<Rightarrow> sock_err \<Rightarrow> 'u zdtun \<Rightarrow> (bool \<times> 'u zdtun) option" where
  "udp_fail env i e tun = do { (rv, t) \<leftarrow> close_with_socket_error env i e tun; Some (False, t) }"

definition use_mapping :: "u32 \<Rightarrow> 'u zdtun \<Rightarrow> 'u zdtun" where
  "use_mapping key tun =
     tun\<lparr>udp_mappings := map (\<lambda>(k, x). if k = key \<and> um_uses x < 0xFFFF then (k, x\<lparr>um_uses := um_uses x + 1\<rparr>) else (k, x)) (udp_mappings tun)\<rparr>"

definition bind_and_connect_udp :: "'u zdtun_env \<Rightarrow> nat \<Rightarrow> 'u zdtun \<Rightarrow> (bool \<times> 'u zdtun) option" where
  "bind_and_connect_udp env i tun = do {
     c \<leftarrow> get_zc i tun;
     ver \<leftarrow> sock_ipver tun c;
     if ver = 6 \<and> \<not> sy_bind_any env (z_ops tun)
     then do { t \<leftarrow> zdtun_conn_close env i CONN_STATUS_ERROR tun; Some (False, t) }
     else do {
       let key = udp_mapping_key (zc_tuple c);
       let mapping = map_of (udp_mappings tun) key;
       let r1 = sy_setopt env (z_ops tun);
       let tun1 = log_op Op_Query tun;
       if r1 \<noteq> None then udp_fail env i (the r1) tun1
       else do {
         let r2 = sy_bind env (z_ops tun1);
         let tun2 = log_op (Op_Bind (zc_sock c) (case_option 0 um_port mapping)) tun1;
         if r2 \<noteq> None then udp_fail env i (the r2) tun2
         else do {
           (ip, port, v) \<leftarrow> fill_conn_sockaddr tun2 c;
           let r3 = sy_connect env (z_ops tun2);
           let tun3 = log_op (Op_Connect (zc_sock c) ip port v) tun2;
           if r3 \<noteq> None then udp_fail env i (the r3) tun3
           else if mapping \<noteq> None then Some (True, use_mapping key tun3)
           else (let tun4 = log_op Op_Query tun3
                 in case sy_sockname env (z_ops tun3) of
                      Inl e \<Rightarrow> udp_fail env i e tun4
                    | Inr p \<Rightarrow> Some (True, tun4\<lparr>udp_mappings := udp_mappings tun4 @ [(key, \<lparr>um_port = p, um_uses = 1\<rparr>)]\<rparr>)) } } } }"

definition handle_udp_fwd :: "'u zdtun_env \<Rightarrow> zdtun_pkt \<Rightarrow> nat \<Rightarrow> 'u zdtun \<Rightarrow> (int \<times> 'u zdtun) option" where
  "handle_udp_fwd env pkt i tun0 = do {
     c0 \<leftarrow> get_zc i tun0;
     (ok, tun) \<leftarrow> (if zc_status c0 = CONN_STATUS_NEW
       then do {
         let (s, t) = open_socket env IPPROTO_UDP tun0;
         if s = INVALID_SOCKET then Some (False, t)
         else do {
           t1 \<leftarrow> upd_zc i (\<lambda>c. c\<lparr>zc_sock := s\<rparr>) t;
           (ok, t2) \<leftarrow> bind_and_connect_udp env i t1;
           if \<not> ok then Some (False, t2)
           else do { t3 \<leftarrow> upd_zc i (\<lambda>c. c\<lparr>zc_status := CONN_STATUS_CONNECTED\<rparr>) t2; Some (True, t3) } } }
       else Some (True, tun0));
     if \<not> ok then Some (-1, tun)
     else do {
       c \<leftarrow> get_zc i tun;
       u \<leftarrow> account_packet env pkt True c (z_data tun);
       payload \<leftarrow> pkt_payload pkt;
       let (r, tun1) = sock_send env (zc_sock c) payload (tun\<lparr>z_data := u\<rparr>);
       case r of
         Inl e \<Rightarrow> do { (rv, t) \<leftarrow> close_with_socket_error env i e tun1; Some (0, t) }
       | Inr n \<Rightarrow> do { t \<leftarrow> upd_zc i (check_dns_request payload) tun1; Some (0, t) } } }"

section \<open>ICMP\<close>

definition pkt_l4 :: "zdtun_pkt \<Rightarrow> byte list option" where
  "pkt_l4 p =
     (let off = unat (p_ip_hdr_len p); n = unat (p_l4_hdr_len p + p_l7_len p)
      in if off + n \<le> length (p_buf p) then Some (take n (drop off (p_buf p))) else None)"

text \<open>The source port of the connection shares its storage with the echo identifier.\<close>

definition set_echo_id :: "u16 \<Rightarrow> zdtun_conn \<Rightarrow> zdtun_conn" where
  "set_echo_id e c = c\<lparr>zc_nat := (zc_nat c)\<lparr>dc_tuple := (zc_tuple c)\<lparr>src_port := e\<rparr>\<rparr>\<rparr>"

definition handle_icmp_fwd :: "'u zdtun_env \<Rightarrow> zdtun_pkt \<Rightarrow> nat \<Rightarrow> 'u zdtun \<Rightarrow> (int \<times> 'u zdtun) option" where
  "handle_icmp_fwd env pkt i tun0 = do {
     c0 \<leftarrow> get_zc i tun0;
     (ok, tun) \<leftarrow> (if zc_status c0 = CONN_STATUS_NEW
       then do {
         ver \<leftarrow> sock_ipver tun0 c0;
         let (s, t) = open_socket env (if ver = 4 then IPPROTO_ICMP else IPPROTO_ICMPV6) tun0;
         if s = INVALID_SOCKET then do { t1 \<leftarrow> upd_zc i (\<lambda>c. c\<lparr>zc_status := CONN_STATUS_SOCKET_ERROR\<rparr>) t; Some (False, t1) }
         else do {
           e \<leftarrow> rd16 (p_buf pkt) (tcp_off pkt + 4);
           t1 \<leftarrow> upd_zc i (\<lambda>c. set_echo_id e (c\<lparr>zc_sock := s, zc_status := CONN_STATUS_CONNECTED\<rparr>)) t;
           Some (True, t1) } }
       else Some (True, tun0));
     if \<not> ok then Some (-1, tun)
     else do {
       c \<leftarrow> get_zc i tun;
       u \<leftarrow> account_packet env pkt True c (z_data tun);
       msg \<leftarrow> pkt_l4 pkt;
       addr \<leftarrow> fill_conn_sockaddr tun c;
       let (r, tun1) = sock_send env (zc_sock c) msg (tun\<lparr>z_data := u\<rparr>);
       case r of
         Inl e \<Rightarrow> do { (rv, t) \<leftarrow> close_with_socket_error env i e tun1; Some (-1, t) }
       | Inr n \<Rightarrow> Some (0, tun1) } }"

section \<open>Forwarding\<close>

definition zdtun_forward :: "'u zdtun_env \<Rightarrow> zdtun_pkt \<Rightarrow> nat \<Rightarrow> 'u zdtun \<Rightarrow> (int \<times> 'u zdtun) option" where
  "zdtun_forward env pkt i tun = do {
     c \<leftarrow> get_zc i tun;
     if closed (zc_status c) then Some (0, tun)
     else do {
       let proto = ipproto (p_tuple pkt);
       (rv, tun1) \<leftarrow> (if proto = IPPROTO_TCP then handle_tcp_fwd env pkt i tun
                      else if proto = IPPROTO_UDP then handle_udp_fwd env pkt i tun
                      else if proto = IPPROTO_ICMP then handle_icmp_fwd env pkt i tun
                      else Some (-2, tun));
       if rv = 0
       then do { let (now, tun2) = zdtun_now env tun1; tun3 \<leftarrow> upd_zc i (\<lambda>c. c\<lparr>zc_tstamp := now\<rparr>) tun2; Some (0, tun3) }
       else Some (rv, tun1) } }"

section \<open>Data from the sockets\<close>

text \<open>Received bytes are stored in the reply buffer first, behind the space of the headers.\<close>

definition recv_reply :: "'u zdtun_env \<Rightarrow> zdtun_conn \<Rightarrow> nat \<Rightarrow> nat \<Rightarrow> 'u zdtun \<Rightarrow> ((sock_err + byte list) \<times> 'u zdtun) option" where
  "recv_reply env c off n tun =
     (let (r, tun1) = sock_recv env (zc_sock c) n tun
      in case r of
           Inl e \<Rightarrow> Some (Inl e, tun1)
         | Inr bs \<Rightarrow> do { buf \<leftarrow> wr (z_reply_buf tun1) off bs; Some (Inr bs, tun1\<lparr>z_reply_buf := buf\<rparr>) })"

definition touch_zc :: "'u zdtun_env \<Rightarrow> nat \<Rightarrow> 'u zdtun \<Rightarrow> 'u zdtun option" where
  "touch_zc env i tun = (let (now, tun1) = zdtun_now env tun in upd_zc i (\<lambda>c. c\<lparr>zc_tstamp := now\<rparr>) tun1)"

definition handle_icmp_reply :: "'u zdtun_env \<Rightarrow> nat \<Rightarrow> 'u zdtun \<Rightarrow> (int \<times> 'u zdtun) option" where
  "handle_icmp_reply env i tun0 = do {
     c \<leftarrow> get_zc i tun0;
     ver \<leftarrow> sock_ipver tun0 c;
     let k = zdtun_iphdr_len ver;
     (r, tun) \<leftarrow> recv_reply env c k (REPLY_BUF_SIZE - k) tun0;
     case r of
       Inl e \<Rightarrow> do { (rv, t) \<leftarrow> close_with_socket_error env i e tun; Some (-1, t) }
     | Inr bs \<Rightarrow>
         if length bs < 8 then do { t \<leftarrow> zdtun_conn_close env i CONN_STATUS_ERROR tun; Some (-1, t) }
         else if \<not> is_echo_type (bs ! 0) then do { t \<leftarrow> zdtun_conn_close env i CONN_STATUS_ERROR tun; Some (0, t) }
         else do {
           tun1 \<leftarrow> touch_zc env i tun;
           pkt \<leftarrow> build_reply_icmp ver (zc_tuple c) bs;
           send_to_client env i pkt tun1 } }"

text \<open>The server has closed its side.\<close>

definition tcp_server_fin :: "'u zdtun_env \<Rightarrow> nat \<Rightarrow> 'u zdtun \<Rightarrow> (int \<times> 'u zdtun) option" where
  "tcp_server_fin env i tun = do {
     c \<leftarrow> get_zc i tun;
     tun1 \<leftarrow> (if \<not> fin_ack_sent c
              then do { t \<leftarrow> tcp_socket_fin_ack env i tun; upd_zc i (\<lambda>c. c\<lparr>fin_ack_sent := True\<rparr>) t }
              else Some tun);
     c1 \<leftarrow> get_zc i tun1;
     let tun2 = set_zc i (c1\<lparr>zc_sock := INVALID_SOCKET\<rparr>) (close_socket (zc_sock c1) tun1);
     tun3 \<leftarrow> (if client_closed c1 then zdtun_conn_close env i CONN_STATUS_CLOSED tun2 else Some tun2);
     Some (0, tun3) }"

text \<open>Data of the server, \<open>to_recv = min(window_size, mss)\<close> bytes at most.\<close>

definition tcp_server_data :: "'u zdtun_env \<Rightarrow> nat \<Rightarrow> byte list \<Rightarrow> 'u zdtun \<Rightarrow> (int \<times> 'u zdtun) option" where
  "tcp_server_data env i bs tun0 = do {
     c \<leftarrow> get_zc i tun0;
     if unat (window_size c) < length bs then do { t \<leftarrow> zdtun_conn_close env i CONN_STATUS_ERROR tun0; Some (-1, t) }
     else do {
       let flags = (if sy_fionread env (z_ops tun0) = 0 then TH_ACK OR TH_PUSH else TH_ACK);
       let tun = log_op Op_Query tun0;
       (rv, tun1) \<leftarrow> send_ack env i flags bs 0 tun;
       if rv \<noteq> 0 then Some (-1, tun1)
       else do {
         c1 \<leftarrow> get_zc i tun1;
         let n = of_nat (length bs);
         let c2 = c1\<lparr>zdtun_seq := zdtun_seq c1 + n, window_size := window_size c1 - n\<rparr>;
         fds \<leftarrow> (if window_size c2 = 0 then fd_clr (zc_sock c2) (z_all_fds tun1) else Some (z_all_fds tun1));
         Some (0, set_zc i c2 (tun1\<lparr>z_all_fds := fds\<rparr>)) } } }"

definition handle_tcp_reply :: "'u zdtun_env \<Rightarrow> nat \<Rightarrow> 'u zdtun \<Rightarrow> (int \<times> 'u zdtun) option" where
  "handle_tcp_reply env i tun0 = do {
     c \<leftarrow> get_zc i tun0;
     ver \<leftarrow> sock_ipver tun0 c;
     let to_recv = min (unat (window_size c)) (unat (mss c));
     (r, tun1) \<leftarrow> recv_reply env c (zdtun_iphdr_len ver + TCP_HEADER_LEN) to_recv tun0;
     tun \<leftarrow> touch_zc env i tun1;
     case r of
       Inl e \<Rightarrow> close_with_socket_error env i e tun
     | Inr bs \<Rightarrow>
         if bs = [] then tcp_server_fin env i tun
         else if socks5_in_progress c
         then do {
           (rv, tun2) \<leftarrow> handle_socks5_reply env i bs tun;
           if rv \<noteq> 0 then Some (rv, tun2)
           else do {
             c2 \<leftarrow> get_zc i tun2;
             if zc_socks5 c2 = SOCKS5_ESTABLISHED then send_syn_ack env i tun2 else Some (0, tun2) } }
         else tcp_server_data env i bs tun }"

definition handle_udp_reply :: "'u zdtun_env \<Rightarrow> nat \<Rightarrow> 'u zdtun \<Rightarrow> (int \<times> 'u zdtun) option" where
  "handle_udp_reply env i tun0 = do {
     c \<leftarrow> get_zc i tun0;
     ver \<leftarrow> sock_ipver tun0 c;
     let k = zdtun_iphdr_len ver + UDP_HEADER_LEN;
     (r, tun) \<leftarrow> recv_reply env c k (REPLY_BUF_SIZE - k) tun0;
     case r of
       Inl e \<Rightarrow> do { (rv, t) \<leftarrow> close_with_socket_error env i e tun; Some (-1, t) }
     | Inr bs \<Rightarrow> do {
         pkt \<leftarrow> build_reply_udp ver (zc_tuple c) bs;
         (rv, tun1) \<leftarrow> send_to_client env i pkt tun;
         if rv = 0 then do { tun2 \<leftarrow> touch_zc env i tun1; tun3 \<leftarrow> check_dns_purge env i bs tun2; Some (0, tun3) }
         else Some (rv, tun1) } }"

definition handle_tcp_connect_async :: "'u zdtun_env \<Rightarrow> nat \<Rightarrow> 'u zdtun \<Rightarrow> (int \<times> 'u zdtun) option" where
  "handle_tcp_connect_async env i tun0 =
     (let tun = log_op Op_Query tun0
      in case sy_so_error env (z_ops tun0) of
           None \<Rightarrow> do { t \<leftarrow> zdtun_conn_close env i CONN_STATUS_SOCKET_ERROR tun; Some (-1, t) }
         | Some None \<Rightarrow> do { (rv, t) \<leftarrow> tcp_socket_syn env i tun; t1 \<leftarrow> touch_zc env i t; Some (rv, t1) }
         | Some (Some e) \<Rightarrow> do { (rv, t) \<leftarrow> close_with_socket_error env i e tun; Some (-1, t) })"

text \<open>
  Sending the queue: the loop over the segments, with the bytes sent so far. It stops at an error, where the socket
  would block, and after a partial send. The result is the error that closes the connection, if any.
\<close>

fun send_queue :: "'u zdtun_env \<Rightarrow> int \<Rightarrow> tcp_data list \<Rightarrow> nat \<Rightarrow> 'u zdtun \<Rightarrow> (sock_err option \<times> tcp_data list \<times> nat) \<times> 'u zdtun" where
  "send_queue env s [] sent tun = ((None, [], sent), tun)"
| "send_queue env s (item # q) sent tun =
     (let rest = drop (td_sofar item) (td_data item);
          (r, tun1) = sock_send env s rest tun
      in case r of
           Inl e \<Rightarrow> ((if e = Would_Block then None else Some e, item # q, sent), tun1)
         | Inr n \<Rightarrow>
             if n \<noteq> length rest then ((None, item\<lparr>td_sofar := td_sofar item + n\<rparr> # q, sent + n), tun1)
             else send_queue env s q (sent + n) tun1)"

definition handle_queued_tcp_data :: "'u zdtun_env \<Rightarrow> nat \<Rightarrow> 'u zdtun \<Rightarrow> (int \<times> 'u zdtun) option" where
  "handle_queued_tcp_data env i tun0 = do {
     c \<leftarrow> get_zc i tun0;
     let ((err, q, sent), tun) = send_queue env (zc_sock c) (tx_queue c) 0 tun0;
     tun1 \<leftarrow> upd_zc i (\<lambda>c. c\<lparr>tx_queue := q\<rparr>) tun;
     case err of
       Some e \<Rightarrow> close_with_socket_error env i e tun1
     | None \<Rightarrow> do {
         wr \<leftarrow> (if q = [] then fd_clr (zc_sock c) (z_write_fds tun1) else Some (z_write_fds tun1));
         let tun2 = tun1\<lparr>z_write_fds := wr\<rparr>;
         if 0 < sent
         then do {
           tun3 \<leftarrow> upd_zc i (\<lambda>c. c\<lparr>client_seq := client_seq c + of_nat sent, tx_queue_size := tx_queue_size c - of_nat sent\<rparr>) tun2;
           (rv, tun4) \<leftarrow> send_ack env i TH_ACK [] 0 tun3;
           Some (if rv < 0 then -1 else 0, tun4) }
         else Some (0, tun2) } }"

text \<open>One pass over the connections, with the descriptors \<open>select\<close> found ready.\<close>

definition handle_conn_fd :: "'u zdtun_env \<Rightarrow> int set \<Rightarrow> int set \<Rightarrow> nat \<Rightarrow> 'u zdtun \<Rightarrow> (int \<times> 'u zdtun) option" where
  "handle_conn_fd env rd_fds wr_fds i tun = do {
     c \<leftarrow> get_zc i tun;
     if zc_sock c = INVALID_SOCKET then Some (0, tun)
     else if zc_sock c \<in> rd_fds
     then (if is_tcp c then handle_tcp_reply env i tun
           else if is_udp c then handle_udp_reply env i tun
           else if ipproto (zc_tuple c) = IPPROTO_ICMP then handle_icmp_reply env i tun
           else Some (0, tun))
     else if zc_sock c \<in> wr_fds \<and> is_tcp c
     then (if tx_queue c \<noteq> [] then handle_queued_tcp_data env i tun else handle_tcp_connect_async env i tun)
     else Some (0, tun) }"

text \<open>
  The code keeps one \<open>rv\<close> for the whole pass and leaves the loop when it is not 0.
\<close>

fun handle_fds :: "'u zdtun_env \<Rightarrow> int set \<Rightarrow> int set \<Rightarrow> nat list \<Rightarrow> 'u zdtun \<Rightarrow> (int \<times> 'u zdtun) option" where
  "handle_fds env rd_fds wr_fds [] tun = Some (0, tun)"
| "handle_fds env rd_fds wr_fds (i # is) tun = do {
     (rv, tun1) \<leftarrow> handle_conn_fd env rd_fds wr_fds i tun;
     if rv \<noteq> 0 then Some (rv, tun1) else handle_fds env rd_fds wr_fds is tun1 }"

definition zdtun_handle_fd :: "'u zdtun_env \<Rightarrow> int set \<Rightarrow> int set \<Rightarrow> 'u zdtun \<Rightarrow> (int \<times> 'u zdtun) option" where
  "zdtun_handle_fd env rd_fds wr_fds tun = handle_fds env rd_fds wr_fds (map fst (z_conns tun)) tun"

text \<open>\<open>zdtun_easy_forward\<close>: parse, look up and forward in one call.\<close>

definition is_established :: "zdtun_pkt \<Rightarrow> bool option" where
  "is_established pkt =
     (if ipproto (p_tuple pkt) = IPPROTO_TCP
      then do { f \<leftarrow> rd8 (p_buf pkt) (tcp_off pkt + 13); Some (f AND TH_SYN = 0 \<or> f AND TH_ACK \<noteq> 0) }
      else Some False)"

definition zdtun_easy_forward :: "'u zdtun_env \<Rightarrow> byte list \<Rightarrow> u16 \<Rightarrow> 'u zdtun \<Rightarrow> (nat option \<times> 'u zdtun) option" where
  "zdtun_easy_forward env b n tun0 = do {
     r \<leftarrow> zdtun_parse_pkt (z_frags tun0) b n;
     case r of
       Inl e \<Rightarrow> Some (None, tun0)
     | Inr (pkt, ids) \<Rightarrow> do {
         let tun = tun0\<lparr>z_frags := ids\<rparr>;
         if has_flag (p_flags pkt) ZDTUN_PKT_IS_FRAGMENT then Some (None, tun)
         else do {
           est \<leftarrow> is_established pkt;
           (found, tun1) \<leftarrow> zdtun_lookup env (p_tuple pkt) (\<not> est) tun;
           case found of
             None \<Rightarrow> Some (None, tun1)
           | Some i \<Rightarrow> do {
               (rv, tun2) \<leftarrow> zdtun_forward env pkt i tun1;
               if rv = 0 then Some (Some i, tun2)
               else do { tun3 \<leftarrow> zdtun_conn_close env i CONN_STATUS_ERROR tun2; Some (None, tun3) } } } } }"

end
