(* ===== verification/Zdtun_Sockets.thy ===== *)
theory Zdtun_Sockets
  imports Zdtun_Forward
begin

text \<open>
  Sockets of zdtun: every operation of the table and every handler keeps the books. Each open socket belongs to exactly
  one connection, is closed exactly once and never used after that, the descriptor sets and the counter agree with the
  open sockets, and no reply is written beyond its buffer.
\<close>

section \<open>Invariant\<close>

text \<open>The descriptors open after a history, and histories that use open descriptors only.\<close>

fun open_fds :: "hist \<Rightarrow> int set" where
  "open_fds [] = {}"
| "open_fds (Op_Socket s # h) = (if s < 0 then open_fds h else insert s (open_fds h))"
| "open_fds (Op_Close s # h) = open_fds h - {s}"
| "open_fds (_ # h) = open_fds h"

fun uses :: "sock_op \<Rightarrow> int set" where
  "uses (Op_Close s) = {s}"
| "uses (Op_Shutdown s) = {s}"
| "uses (Op_Connect s _ _ _) = {s}"
| "uses (Op_Bind s _) = {s}"
| "uses (Op_Send s _) = {s}"
| "uses (Op_Recv s) = {s}"
| "uses _ = {}"

fun ops_valid :: "hist \<Rightarrow> bool" where
  "ops_valid [] = True"
| "ops_valid (x # h) = (uses x \<subseteq> open_fds h \<and> ops_valid h)"

definition socks :: "'u zdtun \<Rightarrow> int list" where
  "socks tun = filter (\<lambda>s. s \<noteq> INVALID_SOCKET) (map (\<lambda>(_, c). zc_sock c) (z_conns tun))"

text \<open>
  What the application relies on: an invariant of its state, see below, and whether it may look up a new connection and
  not forward the packet.
\<close>

record 'u app =
  app_ok :: "nat option set \<Rightarrow> nat option set \<Rightarrow> 'u \<Rightarrow> bool"
  app_waits :: bool

text \<open>
  A connection by itself. \<open>zc_static\<close> always holds: a closed connection has no socket, the numbers taken from the SYN are
  in range. \<open>zc_rest\<close> is broken while a socket is opened or closed, and holds between two operations.
\<close>

definition zc_static :: "zdtun_conn \<Rightarrow> bool" where
  "zc_static c \<longleftrightarrow> unat (window_scale c) < 32 \<and> unat (mss c) \<le> 65475 \<and> (zc_proxy_mode c = PROXY_DNAT \<longrightarrow> dc_dnat (zc_nat c) \<noteq> None) \<and>
     (zc_sock c = INVALID_SOCKET \<or> 0 \<le> zc_sock c \<and> zc_sock c < FD_SETSIZE) \<and>
     (closed (zc_status c) \<longrightarrow> zc_sock c = INVALID_SOCKET) \<and> (zc_proxy_mode c = PROXY_SOCKS5 \<longrightarrow> is_tcp c)"

definition zc_rest :: "'u app \<Rightarrow> zdtun_conn \<Rightarrow> bool" where
  "zc_rest K c \<longleftrightarrow> (zc_status c = CONN_STATUS_NEW \<longrightarrow> zc_sock c = INVALID_SOCKET \<and> (is_tcp c \<longrightarrow> app_waits K)) \<and>
     (\<not> is_tcp c \<and> zc_status c \<noteq> CONN_STATUS_NEW \<and> \<not> closed (zc_status c) \<longrightarrow> zc_sock c \<noteq> INVALID_SOCKET)"

definition sock_books :: "'u zdtun \<Rightarrow> bool" where
  "sock_books tun \<longleftrightarrow> distinct (socks tun) \<and> set (socks tun) = open_fds (z_ops tun) \<and> unat (z_open tun) = length (socks tun) \<and>
     length (socks tun) \<le> 128 \<and> z_all_fds tun \<subseteq> open_fds (z_ops tun) \<and> z_write_fds tun \<subseteq> open_fds (z_ops tun) \<and> ops_valid (z_ops tun)"

definition table_ok :: "'u zdtun \<Rightarrow> bool" where
  "table_ok tun \<longleftrightarrow> distinct (map fst (z_conns tun)) \<and> (\<forall>i \<in> set (map fst (z_conns tun)). i < z_next tun) \<and>
     length (z_reply_buf tun) = REPLY_BUF_SIZE \<and> 60 \<le> unat (z_mtu tun) \<and> unat (z_mtu tun) \<le> 65515 \<and> (\<forall>c \<in> snd ` set (z_conns tun). zc_static c)"

definition sock_inv :: "'u app \<Rightarrow> nat set \<Rightarrow> 'u zdtun \<Rightarrow> bool" where
  "sock_inv K X tun \<longleftrightarrow> sock_books tun \<and> table_ok tun \<and> (\<forall>(i, c) \<in> set (z_conns tun). i \<notin> X \<longrightarrow> zc_rest K c)"

section \<open>The client\<close>

text \<open>
  What zdtun relies on: callbacks that return and keep the invariant of the application, a kernel that does not hand out a
  descriptor in use, and datagrams that leave 16 bytes of the reply buffer free. The invariant \<open>app_ok K A S u\<close> of the application
  state \<open>u\<close> speaks of its data (\<open>user_data\<close>) for the open connections \<open>A\<close> and for all connections \<open>S\<close> that may still be given
  to a callback: those that were open when the current call of zdtun began, and those opened since.
\<close>

definition reply_pkt :: "zdtun_pkt \<Rightarrow> bool" where
  "reply_pkt p \<longleftrightarrow> length (p_buf p) = REPLY_BUF_SIZE \<and> (p_buf p ! 0 = 0x45 \<or> p_buf p ! 0 = 0x60) \<and>
     (\<exists>ids n ids'. zdtun_parse_pkt ids (p_buf p) n = Some (Inr (p, ids')) \<and> unat n + 16 \<le> REPLY_BUF_SIZE)"

text \<open>A packet zdtun has built.\<close>

definition good_reply :: "byte list \<Rightarrow> bool" where
  "good_reply pkt \<longleftrightarrow> length pkt + 16 \<le> REPLY_BUF_SIZE \<and> (\<exists>r. pkt = 0x45 # r \<or> pkt = 0x60 # r)"

locale zdtun_client =
  fixes env :: "'u zdtun_env" and K :: "'u app"
  assumes fresh_socket: "sy_socket env h < 0 \<or> sy_socket env h \<notin> open_fds h"
    and short_data: "sy_recv env h = Inr bs \<Longrightarrow> length bs \<le> 65459"
    and send_ok: "app_ok K A S u \<Longrightarrow> user_data c \<in> S \<Longrightarrow> (user_data c \<in> A \<Longrightarrow> \<not> closed (zc_status c)) \<Longrightarrow> reply_pkt p \<Longrightarrow>
      \<exists>rv u'. send_client env p c u = Some (rv, u') \<and> app_ok K A S u'"
    and account_ok: "app_ok K A S u \<Longrightarrow> user_data c \<in> S \<Longrightarrow> (user_data c \<in> A \<Longrightarrow> \<not> closed (zc_status c)) \<Longrightarrow>
      \<exists>u'. account_packet env p b c u = Some u' \<and> app_ok K A S u'"
    and close_ok: "app_ok K A S u \<Longrightarrow> user_data c \<in> S \<Longrightarrow> closed (zc_status c) \<Longrightarrow>
      \<exists>u'. on_close env c u = Some u' \<and> app_ok K (A - {user_data c}) S u'"
    and open_ok: "app_ok K A S u \<Longrightarrow> \<exists>rej ud u'. on_open env c u = Some (rej, ud, u') \<and>
      (if rej then app_ok K A S u' else ud \<notin> S \<and> app_ok K (insert ud A) (insert ud S) u')"
    and weaken: "app_ok K A S u \<Longrightarrow> A' \<subseteq> A \<Longrightarrow> S' \<subseteq> S \<Longrightarrow> app_ok K A' S' u"

section \<open>Building blocks\<close>

lemma get_zc_mem: "table_ok tun \<Longrightarrow> get_zc i tun = Some c \<longleftrightarrow> (i, c) \<in> set (z_conns tun)"
  by (simp add: get_zc_def table_ok_def)

lemma get_zc_static: "table_ok tun \<Longrightarrow> get_zc i tun = Some c \<Longrightarrow> zc_static c"
  using get_zc_mem [of tun i c] by (force simp: table_ok_def)

lemma zc_ids_set [simp]: "map fst (z_conns (set_zc i c tun)) = map fst (z_conns tun)"
  by (auto simp: set_zc_def split: prod.split)

lemma set_zc_fields [simp]:
  "z_ops (set_zc i c tun) = z_ops tun" "z_open (set_zc i c tun) = z_open tun" "z_all_fds (set_zc i c tun) = z_all_fds tun"
  "z_write_fds (set_zc i c tun) = z_write_fds tun" "z_next (set_zc i c tun) = z_next tun" "z_reply_buf (set_zc i c tun) = z_reply_buf tun"
  "z_mtu (set_zc i c tun) = z_mtu tun" "z_data (set_zc i c tun) = z_data tun" "z_socks5 (set_zc i c tun) = z_socks5 tun" "z_frags (set_zc i c tun) = z_frags tun"
  by (simp_all add: set_zc_def)

lemma set_zc_mem: "(j, d) \<in> set (z_conns (set_zc i c tun)) \<longleftrightarrow> (if j = i then d = c \<and> i \<in> fst ` set (z_conns tun) else (j, d) \<in> set (z_conns tun))"
proof -
  have "(j, d) \<in> set (map (\<lambda>(j, d). if j = i then (j, c) else (j, d)) l) \<longleftrightarrow>
      (if j = i then d = c \<and> i \<in> fst ` set l else (j, d) \<in> set l)" for l :: "(nat \<times> zdtun_conn) list"
    by (induction l) (auto split: if_splits)
  then show ?thesis by (simp add: set_zc_def)
qed

lemma set_zc_all:
  assumes "\<And>j x. (j, x) \<in> set (z_conns tun) \<Longrightarrow> j \<noteq> i \<Longrightarrow> P j x" "P i c"
  shows "\<forall>(j, x) \<in> set (z_conns (set_zc i c tun)). P j x"
proof -
  have "P j x" if "(j, x) \<in> set (z_conns (set_zc i c tun))" for j x
    using that assms unfolding set_zc_mem by (cases "j = i") simp_all
  then show ?thesis by blast
qed

lemma get_set_zc: "get_zc j (set_zc i c tun) = (if j = i \<and> get_zc i tun \<noteq> None then Some c else if j = i then None else get_zc j tun)"
proof -
  have "map_of (map (\<lambda>(j, d). if j = i then (j, c) else (j, d)) l) j =
      (if j = i then if map_of l i = None then None else Some c else map_of l j)" for l :: "(nat \<times> zdtun_conn) list"
    by (induction l) auto
  then show ?thesis by (simp add: get_zc_def set_zc_def)
qed

text \<open>Two states that agree on everything the invariant reads.\<close>

definition same_books :: "'u zdtun \<Rightarrow> 'u zdtun \<Rightarrow> bool" where
  "same_books p q \<longleftrightarrow> z_conns p = z_conns q \<and> z_ops p = z_ops q \<and> z_open p = z_open q \<and> z_all_fds p = z_all_fds q \<and>
     z_write_fds p = z_write_fds q \<and> z_next p = z_next q \<and> z_mtu p = z_mtu q \<and> length (z_reply_buf p) = length (z_reply_buf q)"

lemma sock_inv_same: "same_books p q \<Longrightarrow> sock_inv K X p = sock_inv K X q"
  by (simp add: same_books_def sock_inv_def sock_books_def table_ok_def socks_def)

lemma sock_inv_mono: "sock_inv K X tun \<Longrightarrow> X \<subseteq> Y \<Longrightarrow> sock_inv K Y tun"
  by (auto simp: sock_inv_def)

lemma log_op_fields [simp]:
  "z_conns (log_op x tun) = z_conns tun" "z_open (log_op x tun) = z_open tun" "z_all_fds (log_op x tun) = z_all_fds tun"
  "z_write_fds (log_op x tun) = z_write_fds tun" "z_next (log_op x tun) = z_next tun" "z_reply_buf (log_op x tun) = z_reply_buf tun"
  "z_mtu (log_op x tun) = z_mtu tun" "z_data (log_op x tun) = z_data tun" "z_socks5 (log_op x tun) = z_socks5 tun" "get_zc i (log_op x tun) = get_zc i tun"
  "z_ops (log_op x tun) = x # z_ops tun" "z_frags (log_op x tun) = z_frags tun"
  by (simp_all add: log_op_def get_zc_def)

lemma socks_log [simp]: "socks (log_op x tun) = socks tun"
  by (simp add: socks_def)

lemma sock_inv_log:
  assumes i: "sock_inv K X tun" and u: "uses x \<subseteq> open_fds (z_ops tun)" and o: "open_fds (x # z_ops tun) = open_fds (z_ops tun)"
  shows "sock_inv K X (log_op x tun)"
  using i u o by (simp add: sock_inv_def sock_books_def table_ok_def)

text \<open>The sockets after a connection is replaced.\<close>

lemma socks_split:
  assumes "distinct (map fst l)" "(i, c) \<in> set l"
  obtains a b where "l = a @ (i, c) # b" and "i \<notin> fst ` set a" and "i \<notin> fst ` set b"
proof -
  obtain a b where l: "l = a @ (i, c) # b" using assms(2) by (meson split_list)
  with assms(1) show ?thesis by (intro that [of a b]) auto
qed

lemma set_zc_split:
  assumes t: "table_ok tun" and g: "get_zc i tun = Some c"
  obtains a b where "socks tun = a @ (if zc_sock c = INVALID_SOCKET then [] else [zc_sock c]) @ b"
    and "\<forall>d. socks (set_zc i d tun) = a @ (if zc_sock d = INVALID_SOCKET then [] else [zc_sock d]) @ b"
proof -
  have m: "distinct (map fst (z_conns tun))" "(i, c) \<in> set (z_conns tun)" using t g get_zc_mem [OF t] by (simp_all add: table_ok_def)
  obtain p q where l: "z_conns tun = p @ (i, c) # q" "i \<notin> fst ` set p" "i \<notin> fst ` set q" by (rule socks_split [OF m])
  let ?s = "\<lambda>l. filter (\<lambda>s. s \<noteq> INVALID_SOCKET) (map (\<lambda>(_, c). zc_sock c) l)"
  have k: "map (\<lambda>(j, x). if j = i then (j, d) else (j, x)) r = r" if "i \<notin> fst ` set r" for d and r :: "(nat \<times> zdtun_conn) list"
    using that by (intro map_idI) force
  have "socks tun = ?s p @ (if zc_sock c = INVALID_SOCKET then [] else [zc_sock c]) @ ?s q" by (simp add: socks_def l(1))
  moreover have "\<forall>d. socks (set_zc i d tun) = ?s p @ (if zc_sock d = INVALID_SOCKET then [] else [zc_sock d]) @ ?s q"
    by (simp add: socks_def set_zc_def l(1) k [OF l(2)] k [OF l(3)])
  ultimately show ?thesis by (rule that)
qed

lemma table_ok_set:
  assumes "table_ok tun" "zc_static c"
  shows "table_ok (set_zc i c tun)"
proof -
  have "zc_static x" if "(j, x) \<in> set (z_conns (set_zc i c tun))" for j x
    using that assms unfolding set_zc_mem by (cases "j = i") (auto simp: table_ok_def)
  then show ?thesis using assms(1) unfolding table_ok_def zc_ids_set set_zc_fields by auto
qed

text \<open>Changing a connection but not its socket.\<close>

lemma sock_inv_set:
  assumes i: "sock_inv K X tun" and g: "get_zc k tun = Some c" and s: "zc_sock d = zc_sock c" and st: "zc_static d"
    and r: "k \<notin> X \<longrightarrow> zc_rest K d"
  shows "sock_inv K X (set_zc k d tun)"
proof -
  have t: "table_ok tun" using i by (simp add: sock_inv_def)
  obtain a b where ab: "socks tun = a @ (if zc_sock c = INVALID_SOCKET then [] else [zc_sock c]) @ b"
    "\<forall>d. socks (set_zc k d tun) = a @ (if zc_sock d = INVALID_SOCKET then [] else [zc_sock d]) @ b" by (rule set_zc_split [OF t g])
  then have e: "socks (set_zc k d tun) = socks tun" by (simp add: s)
  have "sock_books tun" using i by (simp add: sock_inv_def)
  then have "sock_books (set_zc k d tun)" unfolding sock_books_def e by (simp only: set_zc_fields)
  moreover have "\<forall>(j, x) \<in> set (z_conns (set_zc k d tun)). j \<notin> X \<longrightarrow> zc_rest K x"
    by (rule set_zc_all) (use i r in \<open>auto simp: sock_inv_def\<close>)
  ultimately show ?thesis using table_ok_set [OF t st] by (simp add: sock_inv_def)
qed

lemma sock_inv_fds:
  assumes i: "sock_inv K X tun" and a: "fds \<subseteq> open_fds (z_ops tun)" "wfds \<subseteq> open_fds (z_ops tun)"
  shows "sock_inv K X (tun\<lparr>z_all_fds := fds, z_write_fds := wfds\<rparr>)"
  using assms by (simp add: sock_inv_def sock_books_def table_ok_def socks_def)

lemma open_sock_mem: "sock_inv K X tun \<Longrightarrow> get_zc i tun = Some c \<Longrightarrow> zc_sock c \<noteq> INVALID_SOCKET \<Longrightarrow> zc_sock c \<in> set (socks tun) \<and> zc_sock c \<in> open_fds (z_ops tun)"
  using get_zc_mem [of tun i c] by (force simp: sock_inv_def sock_books_def socks_def)

lemma sock_inv_table: "sock_inv K X tun \<Longrightarrow> table_ok tun"
  by (simp add: sock_inv_def)

lemma sock_range: "sock_inv K X tun \<Longrightarrow> get_zc i tun = Some c \<Longrightarrow> zc_sock c \<noteq> INVALID_SOCKET \<Longrightarrow> 0 \<le> zc_sock c \<and> zc_sock c < FD_SETSIZE"
  using get_zc_static [OF sock_inv_table, of K X tun i c] by (auto simp: zc_static_def)

text \<open>Closing the socket of a connection.\<close>

lemma unat_dec: "unat (n :: u32) = Suc k \<Longrightarrow> (if 0 < n - 1 then n - 1 else 0) = n - 1 \<and> unat (n - 1) = k"
proof -
  assume n: "unat n = Suc k"
  then have "1 \<le> n" by (simp add: word_le_nat_alt)
  then have u: "unat (n - 1) = k" using n by (simp add: unat_sub)
  have "(if 0 < n - 1 then n - 1 else 0) = n - 1" by (simp add: word_less_nat_alt word_unat_eq_iff)
  with u show ?thesis by blast
qed

lemma close_socket_open: "s \<noteq> INVALID_SOCKET \<Longrightarrow> z_open (close_socket s tun) = (if 0 < z_open tun - 1 then z_open tun - 1 else 0)"
  by (simp add: close_socket_def Let_def)

lemma close_socket_fields [simp]:
  "z_conns (close_socket s tun) = z_conns tun" "z_next (close_socket s tun) = z_next tun" "z_reply_buf (close_socket s tun) = z_reply_buf tun"
  "z_mtu (close_socket s tun) = z_mtu tun" "z_data (close_socket s tun) = z_data tun" "z_socks5 (close_socket s tun) = z_socks5 tun" "z_frags (close_socket s tun) = z_frags tun"
  "get_zc i (close_socket s tun) = get_zc i tun"
  by (simp_all add: close_socket_def Let_def get_zc_def)

lemma close_socket_ops:
  assumes "s \<noteq> INVALID_SOCKET"
  shows "z_ops (close_socket s tun) = Op_Close s # z_ops tun" "z_all_fds (close_socket s tun) = z_all_fds tun - {s}"
    "z_write_fds (close_socket s tun) = z_write_fds tun - {s}"
  using assms by (simp_all add: close_socket_def Let_def)

lemma table_ok_conns: "table_ok p \<Longrightarrow> z_conns q = z_conns p \<Longrightarrow> z_next q = z_next p \<Longrightarrow> z_mtu q = z_mtu p \<Longrightarrow> z_reply_buf q = z_reply_buf p \<Longrightarrow> table_ok q"
  by (simp add: table_ok_def)

lemma socks_conns: "z_conns q = z_conns p \<Longrightarrow> socks q = socks p"
  by (simp add: socks_def)

lemma set_zc_conns: "z_conns q = z_conns p \<Longrightarrow> z_conns (set_zc k d q) = z_conns (set_zc k d p)"
  by (simp add: set_zc_def)

lemma close_sock_inv:
  assumes i: "sock_inv K X tun" and g: "get_zc k tun = Some c" and k: "k \<notin> X \<longrightarrow> zc_rest K d" and st: "zc_static d" "zc_sock d = INVALID_SOCKET"
  shows "sock_inv K X (set_zc k d (close_socket (zc_sock c) tun))"
proof (cases "zc_sock c = INVALID_SOCKET")
  case True
  have "sock_inv K X (set_zc k d tun)" by (rule sock_inv_set [OF i g]) (use True st k in simp_all)
  then show ?thesis using True by (simp add: close_socket_def)
next
  case False
  let ?s = "zc_sock c"
  let ?t = "close_socket ?s tun"
  have t: "table_ok tun" using i by (simp add: sock_inv_def)
  obtain a b where ab0: "socks tun = a @ (if ?s = INVALID_SOCKET then [] else [?s]) @ b"
    "\<forall>x. socks (set_zc k x tun) = a @ (if zc_sock x = INVALID_SOCKET then [] else [zc_sock x]) @ b" by (rule set_zc_split [OF t g])
  have ab: "socks tun = a @ [?s] @ b" "socks (set_zc k d tun) = a @ b"
    using ab0(1) ab0(2) [rule_format, of d] st(2) False by simp_all
  have bk: "sock_books tun" using i by (simp add: sock_inv_def)
  have dis: "distinct (socks tun)" "set (socks tun) = open_fds (z_ops tun)" "unat (z_open tun) = Suc (length (a @ b))"
    using bk by (simp_all add: sock_books_def ab(1))
  have e: "socks (set_zc k d ?t) = a @ b"
    by (subst socks_conns [OF set_zc_conns [OF close_socket_fields(1)]]) (rule ab(2))
  have s: "set (a @ b) = set (socks tun) - {?s}" using dis(1) by (auto simp: ab(1))
  note ops = close_socket_ops [OF False]
  have o: "unat (z_open ?t) = length (a @ b)" by (simp only: close_socket_open [OF False] unat_dec [OF dis(3)])
  have p: "distinct (a @ b)" using dis(1) unfolding ab(1) by simp
  have l: "length (a @ b) \<le> 128" using bk unfolding sock_books_def ab(1) by simp
  have m: "?s \<in> open_fds (z_ops tun)" using dis(2) unfolding ab(1) by auto
  have v: "ops_valid (z_ops tun)" "z_all_fds tun \<subseteq> open_fds (z_ops tun)" "z_write_fds tun \<subseteq> open_fds (z_ops tun)"
    using bk by (simp_all add: sock_books_def)
  have "sock_books (set_zc k d ?t)"
    unfolding sock_books_def e set_zc_fields ops o open_fds.simps ops_valid.simps uses.simps
  proof (intro conjI)
    show "set (a @ b) = open_fds (z_ops tun) - {?s}" by (simp only: s dis(2))
    show "z_all_fds tun - {?s} \<subseteq> open_fds (z_ops tun) - {?s}" "z_write_fds tun - {?s} \<subseteq> open_fds (z_ops tun) - {?s}"
      using v(2,3) by (simp_all add: Diff_mono)
    show "{?s} \<subseteq> open_fds (z_ops tun)" using m by simp
  qed (rule p l v refl)+
  moreover have "table_ok (set_zc k d ?t)"
    by (rule table_ok_set [OF table_ok_conns [OF t]]) (simp_all add: st)
  moreover have "zc_rest K x" if "(j, x) \<in> set (z_conns tun)" "j \<noteq> k" "j \<notin> X" for j x
    using i that by (auto simp: sock_inv_def)
  then have "\<forall>(j, x) \<in> set (z_conns (set_zc k d ?t)). j \<notin> X \<longrightarrow> zc_rest K x"
    by (intro set_zc_all) (simp_all add: k)
  ultimately show ?thesis by (simp add: sock_inv_def)
qed

end
