(* ===== verification/Zdtun_Safety.thy ===== *)
theory Zdtun_Safety
  imports Zdtun_Sockets
begin

text \<open>
  Every operation of zdtun returns and keeps the socket invariant of \<open>Zdtun_Sockets\<close>. A connection may be busy (its socket is
  being opened or closed) inside an operation, and all connections are at rest between two of them.
\<close>

section \<open>Operations that return\<close>

definition yields :: "'a option \<Rightarrow> ('a \<Rightarrow> bool) \<Rightarrow> bool" where
  "yields m P \<longleftrightarrow> (\<exists>x. m = Some x \<and> P x)"

lemma yields_simps [simp]:
  "yields (Some x) P = P x"
  "\<not> yields None P"
  by (simp_all add: yields_def)

lemma yields_bind: "yields m Q \<Longrightarrow> (\<And>x. m = Some x \<Longrightarrow> Q x \<Longrightarrow> yields (f x) P) \<Longrightarrow> yields (m \<bind> f) P"
  by (auto simp: yields_def)

lemma yields_mono: "yields m Q \<Longrightarrow> (\<And>x. Q x \<Longrightarrow> P x) \<Longrightarrow> yields m P"
  by (auto simp: yields_def)

lemma yields_if: "(b \<Longrightarrow> yields m P) \<Longrightarrow> (\<not> b \<Longrightarrow> yields n P) \<Longrightarrow> yields (if b then m else n) P"
  by simp

lemma yields_bind_Some: "m = Some x \<Longrightarrow> yields (f x) P \<Longrightarrow> yields (m \<bind> f) P"
  by simp

section \<open>Frames\<close>

text \<open>Fields the invariant does not read.\<close>

lemma inv_frame [simp]:
  "sock_inv K X (z_data_update f tun) = sock_inv K X tun"
  "sock_inv K X (z_frags_update g tun) = sock_inv K X tun"
  "sock_inv K X (z_now_update h tun) = sock_inv K X tun"
  "sock_inv K X (udp_mappings_update k tun) = sock_inv K X tun"
  "sock_inv K X (z_tcp_conn_update a tun) = sock_inv K X tun"
  "sock_inv K X (z_udp_conn_update a tun) = sock_inv K X tun"
  "sock_inv K X (z_icmp_conn_update a tun) = sock_inv K X tun"
  by (simp_all add: sock_inv_def sock_books_def table_ok_def socks_def)

lemma get_frame [simp]:
  "get_zc i (z_data_update f tun) = get_zc i tun"
  "get_zc i (z_frags_update g tun) = get_zc i tun"
  "get_zc i (z_now_update h tun) = get_zc i tun"
  "get_zc i (udp_mappings_update k tun) = get_zc i tun"
  "get_zc i (z_reply_buf_update b tun) = get_zc i tun"
  "get_zc i (z_all_fds_update s tun) = get_zc i tun"
  "get_zc i (z_write_fds_update s tun) = get_zc i tun"
  by (simp_all add: get_zc_def)

lemma inv_reply_buf: "length b = REPLY_BUF_SIZE \<Longrightarrow> sock_inv K X tun \<Longrightarrow> sock_inv K X (tun\<lparr>z_reply_buf := b\<rparr>)"
  by (simp add: sock_inv_def sock_books_def table_ok_def socks_def)

lemma inv_all_fds: "sock_inv K X tun \<Longrightarrow> s \<subseteq> open_fds (z_ops tun) \<Longrightarrow> sock_inv K X (tun\<lparr>z_all_fds := s\<rparr>)"
  by (simp add: sock_inv_def sock_books_def table_ok_def socks_def)

lemma inv_write_fds: "sock_inv K X tun \<Longrightarrow> s \<subseteq> open_fds (z_ops tun) \<Longrightarrow> sock_inv K X (tun\<lparr>z_write_fds := s\<rparr>)"
  by (simp add: sock_inv_def sock_books_def table_ok_def socks_def)

lemma inv_fds_open: "sock_inv K X tun \<Longrightarrow> z_all_fds tun \<subseteq> open_fds (z_ops tun) \<and> z_write_fds tun \<subseteq> open_fds (z_ops tun)"
  by (simp add: sock_inv_def sock_books_def)

lemma inv_buf: "sock_inv K X tun \<Longrightarrow> length (z_reply_buf tun) = REPLY_BUF_SIZE"
  by (simp add: sock_inv_def table_ok_def)

lemma inv_mtu: "sock_inv K X tun \<Longrightarrow> 60 \<le> unat (z_mtu tun) \<and> unat (z_mtu tun) \<le> 65515"
  by (simp add: sock_inv_def table_ok_def)

lemma inv_static: "sock_inv K X tun \<Longrightarrow> get_zc i tun = Some c \<Longrightarrow> zc_static c"
  using get_zc_static [OF sock_inv_table] by blast

lemma inv_rest: "sock_inv K X tun \<Longrightarrow> get_zc i tun = Some c \<Longrightarrow> i \<notin> X \<Longrightarrow> zc_rest K c"
  using get_zc_mem [OF sock_inv_table, of K X tun i c] by (auto simp: sock_inv_def)

text \<open>The connections of the table, in its order.\<close>

abbreviation zids :: "'u zdtun \<Rightarrow> nat list" where "zids tun \<equiv> map fst (z_conns tun)"

lemma zids_get: "i \<in> set (zids tun) \<Longrightarrow> \<exists>c. get_zc i tun = Some c"
  by (cases "get_zc i tun") (auto simp: get_zc_def map_of_eq_None_iff)

lemma inv_put_rest: "sock_inv K {i} tun \<Longrightarrow> get_zc i tun = Some c \<Longrightarrow> zc_rest K c \<Longrightarrow> sock_inv K {} tun"
proof -
  assume i: "sock_inv K {i} tun" and g: "get_zc i tun = Some c" and r: "zc_rest K c"
  have "zc_rest K b" if "(j, b) \<in> set (z_conns tun)" for j b
  proof (cases "j = i")
    case True
    then show ?thesis using that g r get_zc_mem [OF sock_inv_table [OF i], of i b] by simp
  next
    case False
    then show ?thesis using that i by (auto simp: sock_inv_def)
  qed
  then show ?thesis using i by (auto simp: sock_inv_def)
qed

text \<open>Queries and the clock.\<close>

lemma log_quiet [simp]:
  "sock_inv K X (log_op Op_Query tun) = sock_inv K X tun" "sock_inv K X (log_op Op_Clock tun) = sock_inv K X tun"
  by (simp_all add: sock_inv_def sock_books_def table_ok_def)

lemma log_use: "sock_inv K X tun \<Longrightarrow> uses x \<subseteq> open_fds (z_ops tun) \<Longrightarrow> open_fds (x # z_ops tun) = open_fds (z_ops tun) \<Longrightarrow> sock_inv K X (log_op x tun)"
  by (rule sock_inv_log)

section \<open>The application\<close>

text \<open>
  The data of the open connections: the application may be given it, and no two of them share it.
\<close>

definition open_data :: "'u zdtun \<Rightarrow> nat option set" where
  "open_data tun = {user_data c | j c. (j, c) \<in> set (z_conns tun) \<and> \<not> closed (zc_status c)}"

definition one_owner :: "'u zdtun \<Rightarrow> bool" where
  "one_owner tun \<longleftrightarrow> (\<forall>(j, c) \<in> set (z_conns tun). \<forall>(k, d) \<in> set (z_conns tun).
     \<not> closed (zc_status c) \<and> \<not> closed (zc_status d) \<and> user_data c = user_data d \<longrightarrow> j = k)"

definition app_inv :: "'u app \<Rightarrow> nat option set \<Rightarrow> 'u zdtun \<Rightarrow> bool" where
  "app_inv K S tun \<longleftrightarrow> app_ok K (open_data tun) S (z_data tun) \<and> open_data tun \<subseteq> S \<and> one_owner tun"

text \<open>Connection \<open>i\<close> may use its data, and no other open connection has the same.\<close>

definition owns :: "nat option set \<Rightarrow> nat \<Rightarrow> zdtun_conn \<Rightarrow> 'u zdtun \<Rightarrow> bool" where
  "owns S i c tun \<longleftrightarrow> user_data c \<in> S \<and>
     (\<forall>(j, d) \<in> set (z_conns tun). j \<noteq> i \<and> \<not> closed (zc_status d) \<longrightarrow> user_data d \<noteq> user_data c)"

lemma app_cong: "z_conns p = z_conns q \<Longrightarrow> z_data p = z_data q \<Longrightarrow> app_inv K S p = app_inv K S q"
  by (simp add: app_inv_def open_data_def one_owner_def)

lemma owns_cong: "z_conns p = z_conns q \<Longrightarrow> owns S i c p = owns S i c q"
  by (simp add: owns_def)

lemma app_frame [simp]:
  "app_inv K S (z_frags_update g tun) = app_inv K S tun"
  "app_inv K S (z_now_update h tun) = app_inv K S tun"
  "app_inv K S (udp_mappings_update k tun) = app_inv K S tun"
  "app_inv K S (z_reply_buf_update b tun) = app_inv K S tun"
  "app_inv K S (z_all_fds_update s tun) = app_inv K S tun"
  "app_inv K S (z_write_fds_update s tun) = app_inv K S tun"
  "app_inv K S (log_op x tun) = app_inv K S tun"
  "app_inv K S (close_socket s' tun) = app_inv K S tun"
  by (simp_all add: app_inv_def open_data_def one_owner_def)

lemma owns_frame [simp]:
  "owns S i c (z_data_update f tun) = owns S i c tun"
  "owns S i c (z_frags_update g tun) = owns S i c tun"
  "owns S i c (z_now_update h tun) = owns S i c tun"
  "owns S i c (udp_mappings_update k tun) = owns S i c tun"
  "owns S i c (z_reply_buf_update b tun) = owns S i c tun"
  "owns S i c (z_all_fds_update s tun) = owns S i c tun"
  "owns S i c (z_write_fds_update s tun) = owns S i c tun"
  "owns S i c (log_op x tun) = owns S i c tun"
  "owns S i c (close_socket s' tun) = owns S i c tun"
  by (simp_all add: owns_def)

lemma data_frame [simp]:
  "open_data (z_data_update f tun) = open_data tun" "one_owner (z_data_update f tun) = one_owner tun"
  by (simp_all add: open_data_def one_owner_def)

text \<open>A connection keeps its data, and is not closed.\<close>

definition kept :: "zdtun_conn \<Rightarrow> zdtun_conn \<Rightarrow> bool" where
  "kept c d \<longleftrightarrow> zc_sock d = zc_sock c \<and> user_data d = user_data c \<and> (closed (zc_status d) \<longleftrightarrow> closed (zc_status c))"

lemma set_owned:
  assumes t: "table_ok tun" and g: "get_zc i tun = Some c" and o: "owns S i c tun" and p: "one_owner tun"
    and u: "user_data d = user_data c" and k: "closed (zc_status c) \<Longrightarrow> closed (zc_status d)"
  shows "open_data (set_zc i d tun) = (if closed (zc_status d) then open_data tun - {user_data c} else open_data tun)"
    and "owns S i d (set_zc i d tun)" and "one_owner (set_zc i d tun)"
proof -
  have m: "(i, x) \<in> set (z_conns tun) \<longleftrightarrow> x = c" for x using get_zc_mem [OF t, of i x] g by auto
  then have i: "i \<in> fst ` set (z_conns tun)" by force
  have n: "user_data x \<noteq> user_data c" if "(j, x) \<in> set (z_conns tun)" "j \<noteq> i" "\<not> closed (zc_status x)" for j x
    using o that by (auto simp: owns_def)
  define r where "r = {user_data y | j y. j \<noteq> i \<and> (j, y) \<in> set (z_conns tun) \<and> \<not> closed (zc_status y)}"
  have t2: "(j, y) \<in> set (z_conns (set_zc i d tun)) \<longleftrightarrow> (if j = i then y = d else (j, y) \<in> set (z_conns tun))" for j y
    using i by (simp add: set_zc_mem)
  have E1: "open_data tun = (if closed (zc_status c) then {} else {user_data c}) \<union> r"
  proof (intro set_eqI iffI)
    fix v assume "v \<in> open_data tun"
    then obtain j y where y: "(j, y) \<in> set (z_conns tun)" "\<not> closed (zc_status y)" "v = user_data y" by (auto simp: open_data_def)
    then show "v \<in> (if closed (zc_status c) then {} else {user_data c}) \<union> r" using m [of y] by (cases "j = i") (auto simp: r_def)
  next
    fix v assume "v \<in> (if closed (zc_status c) then {} else {user_data c}) \<union> r"
    then show "v \<in> open_data tun" using m [of c] by (auto simp: r_def open_data_def split: if_splits)
  qed
  have E2: "open_data (set_zc i d tun) = (if closed (zc_status d) then {} else {user_data d}) \<union> r"
    unfolding open_data_def t2 r_def by (auto split: if_splits)
  have E3: "user_data c \<notin> r"
  proof
    assume "user_data c \<in> r"
    then have "\<exists>j y. user_data c = user_data y \<and> j \<noteq> i \<and> (j, y) \<in> set (z_conns tun) \<and> \<not> closed (zc_status y)"
      unfolding r_def by (rule CollectD)
    then show False by (elim exE conjE) (use n in metis)
  qed
  show "open_data (set_zc i d tun) = (if closed (zc_status d) then open_data tun - {user_data c} else open_data tun)"
  proof (cases "closed (zc_status d)")
    case True
    have "open_data tun - {user_data c} = r" unfolding E1 using E3 by auto
    then show ?thesis unfolding E2 if_P [OF True] by simp
  next
    case False
    then have "\<not> closed (zc_status c)" using k by blast
    then show ?thesis unfolding E1 E2 if_not_P [OF False] u by simp
  qed
  show "owns S i d (set_zc i d tun)" using o u unfolding owns_def by (auto simp: set_zc_mem split: if_splits)
  show "one_owner (set_zc i d tun)" unfolding one_owner_def
  proof (clarify, rule ccontr)
    fix j x l y
    assume j: "(j, x) \<in> set (z_conns (set_zc i d tun))" "\<not> closed (zc_status x)" and l: "(l, y) \<in> set (z_conns (set_zc i d tun))" "\<not> closed (zc_status y)"
      and e: "user_data x = user_data y" and ne: "j \<noteq> l"
    show False
    proof (cases "j = i \<or> l = i")
      case True
      then show False using j l e ne u n [of j x] n [of l y] by (auto simp: t2)
    next
      case False
      then have "(j, x) \<in> set (z_conns tun)" "(l, y) \<in> set (z_conns tun)" using j(1) l(1) by (simp_all add: t2)
      then have "j = l" using p j(2) l(2) e unfolding one_owner_def by fast
      then show False using ne by simp
    qed
  qed
qed

text \<open>
  At rest: the invariants with the table of connections \<open>ids\<close>. Busy: connection \<open>i\<close>, which is \<open>c\<close>, may be changing; it may
  be closed, when it was closed since the call began.
\<close>

definition rest :: "'u app \<Rightarrow> nat option set \<Rightarrow> nat list \<Rightarrow> 'u zdtun \<Rightarrow> bool" where
  "rest K S ids tun \<longleftrightarrow> sock_inv K {} tun \<and> zids tun = ids \<and> app_inv K S tun"

definition busy :: "'u app \<Rightarrow> nat option set \<Rightarrow> nat list \<Rightarrow> nat \<Rightarrow> zdtun_conn \<Rightarrow> 'u zdtun \<Rightarrow> bool" where
  "busy K S ids i c tun \<longleftrightarrow> sock_inv K {i} tun \<and> zids tun = ids \<and> get_zc i tun = Some c \<and> app_inv K S tun \<and> owns S i c tun"

lemma rest_busy: "rest K S ids tun \<Longrightarrow> get_zc i tun = Some c \<Longrightarrow> \<not> closed (zc_status c) \<Longrightarrow> busy K S ids i c tun"
proof -
  assume r: "rest K S ids tun" and g: "get_zc i tun = Some c" and o: "\<not> closed (zc_status c)"
  have t: "table_ok tun" using r by (simp add: rest_def sock_inv_def)
  have m: "(i, c) \<in> set (z_conns tun)" using get_zc_mem [OF t] g by blast
  then have "user_data c \<in> S" using r o by (auto simp: rest_def app_inv_def open_data_def)
  moreover have "user_data d \<noteq> user_data c" if "(j, d) \<in> set (z_conns tun)" "j \<noteq> i" "\<not> closed (zc_status d)" for j d
    using r m o that unfolding rest_def app_inv_def one_owner_def by blast
  ultimately show "busy K S ids i c tun" using sock_inv_mono [of K "{}" tun "{i}"] r g by (auto simp: rest_def busy_def owns_def)
qed

lemma busy_rest: "busy K S ids i c tun \<Longrightarrow> zc_rest K c \<Longrightarrow> rest K S ids tun"
  using inv_put_rest by (auto simp: rest_def busy_def)

lemma rest_obtain:
  assumes "rest K S ids tun" "i \<in> set ids"
  obtains c where "get_zc i tun = Some c" "\<not> closed (zc_status c) \<Longrightarrow> busy K S ids i c tun" "zc_static c" "zc_rest K c"
proof -
  obtain c where c: "get_zc i tun = Some c" using zids_get [of i tun] assms by (auto simp: rest_def)
  show ?thesis
    using that [OF c rest_busy [OF assms(1) c]] inv_static [of K "{}" tun i c] inv_rest [of K "{}" tun i c] assms(1) c by (simp add: rest_def)
qed

lemma busy_static: "busy K S ids i c tun \<Longrightarrow> zc_static c"
  unfolding busy_def using inv_static by blast

lemma busy_get: "busy K S ids i c tun \<Longrightarrow> get_zc i tun = Some c"
  by (simp add: busy_def)

lemma busy_table: "busy K S ids i c tun \<Longrightarrow> table_ok tun"
  by (simp add: busy_def sock_inv_def)

lemma busy_app: "busy K S ids i c tun \<Longrightarrow> app_inv K S tun \<and> owns S i c tun"
  by (simp add: busy_def)

text \<open>The connection as it is when a callback gets it.\<close>

lemma busy_open: "busy K S ids i c tun \<Longrightarrow> user_data c \<in> open_data tun \<Longrightarrow> \<not> closed (zc_status c)"
proof -
  assume b: "busy K S ids i c tun" and d: "user_data c \<in> open_data tun"
  obtain j e where e: "(j, e) \<in> set (z_conns tun)" "\<not> closed (zc_status e)" "user_data e = user_data c" using d by (auto simp: open_data_def)
  then have "j = i" using b by (auto simp: busy_def owns_def)
  then have "e = c" using e(1) get_zc_mem [OF busy_table [OF b], of i e] busy_get [OF b] by simp
  with e(2) show "\<not> closed (zc_status c)" by simp
qed

lemma busy_data:
  assumes "busy K S ids i c tun" "app_ok K (open_data tun) S u"
  shows "busy K S ids i c (tun\<lparr>z_data := u\<rparr>)"
  using assms by (simp add: busy_def app_inv_def)

lemma busy_client:
  assumes "zdtun_client env K" "busy K S ids i c tun"
  shows "reply_pkt p \<Longrightarrow> \<exists>rv u. send_client env p c (z_data tun) = Some (rv, u) \<and> busy K S ids i c (tun\<lparr>z_data := u\<rparr>)"
    and "\<exists>u. account_packet env p' b c (z_data tun) = Some u \<and> busy K S ids i c (tun\<lparr>z_data := u\<rparr>)"
proof -
  have k: "app_ok K (open_data tun) S (z_data tun)" "user_data c \<in> S" using busy_app [OF assms(2)] by (simp_all add: app_inv_def owns_def)
  note o = busy_open [OF assms(2)]
  show "reply_pkt p \<Longrightarrow> \<exists>rv u. send_client env p c (z_data tun) = Some (rv, u) \<and> busy K S ids i c (tun\<lparr>z_data := u\<rparr>)"
    using zdtun_client.send_ok [OF assms(1) k o, of p] busy_data [OF assms(2)] by fast
  show "\<exists>u. account_packet env p' b c (z_data tun) = Some u \<and> busy K S ids i c (tun\<lparr>z_data := u\<rparr>)"
    using zdtun_client.account_ok [OF assms(1) k o, of p' b] busy_data [OF assms(2)] by fast
qed

text \<open>Changing a connection: its data stay, it is not closed.\<close>

lemma busy_put:
  assumes b: "busy K S ids i c tun" and e: "z_conns t = z_conns tun" "z_data t = z_data tun"
    and i: "sock_inv K {i} (set_zc i d t)" and u: "user_data d = user_data c" and k: "closed (zc_status d) = closed (zc_status c)"
  shows "busy K S ids i d (set_zc i d t)"
proof -
  have a: "app_inv K S tun" "owns S i c tun" using busy_app [OF b] by simp_all
  then have p: "one_owner tun" by (simp add: app_inv_def)
  have kc: "closed (zc_status c) \<Longrightarrow> closed (zc_status d)" using k by simp
  note s = set_owned [OF busy_table [OF b] busy_get [OF b] a(2) p u kc]
  have "open_data (set_zc i d tun) = open_data tun"
  proof (cases "closed (zc_status d)")
    case True
    then have "user_data c \<notin> open_data tun" using busy_open [OF b] k by blast
    then show ?thesis using s(1) True by simp
  qed (use s(1) in simp)
  then have "app_inv K S (set_zc i d tun)" using s(3) a(1) by (simp add: app_inv_def)
  moreover have z: "z_conns (set_zc i d t) = z_conns (set_zc i d tun)" by (rule set_zc_conns [OF e(1)])
  ultimately have "app_inv K S (set_zc i d t)" "owns S i d (set_zc i d t)" using app_cong [OF z] owns_cong [OF z] s(2) e(2) by auto
  moreover have "get_zc i t = Some c" using e(1) busy_get [OF b] by (simp add: get_zc_def)
  ultimately show ?thesis using b i e(1) by (simp add: busy_def get_set_zc)
qed

lemma busy_same:
  assumes b: "busy K S ids i c tun" and e: "z_conns t = z_conns tun" "z_data t = z_data tun" and i: "sock_inv K {i} t"
  shows "busy K S ids i c t"
  using b i app_cong [OF e] owns_cong [OF e(1)] e(1) by (simp add: busy_def get_zc_def)

lemma busy_set:
  assumes "busy K S ids i c tun" "kept c d" "zc_static d"
  shows "busy K S ids i d (set_zc i d tun)"
  using assms sock_inv_set [of K "{i}" tun i c d] by (intro busy_put [OF assms(1) refl refl]) (simp_all add: busy_def kept_def)

text \<open>Closing it without telling the application.\<close>

lemma busy_close:
  assumes e: "zdtun_client env K" and b: "busy K S ids i c tun" and k: "zc_sock d = zc_sock c" "user_data d = user_data c" "closed (zc_status d)" "zc_static d"
  shows "busy K S ids i d (set_zc i d tun)"
proof -
  have a: "app_inv K S tun" "owns S i c tun" using busy_app [OF b] by simp_all
  then have p: "one_owner tun" by (simp add: app_inv_def)
  note s = set_owned [OF busy_table [OF b] busy_get [OF b] a(2) p k(2,3)]
  have "sock_inv K {i} (set_zc i d tun)" using b k sock_inv_set [of K "{i}" tun i c d] by (simp add: busy_def)
  moreover have "app_ok K (open_data (set_zc i d tun)) S (z_data tun)" using a(1) zdtun_client.weaken [OF e] unfolding s(1) app_inv_def by auto
  moreover have "open_data (set_zc i d tun) \<subseteq> S" using a(1) unfolding s(1) app_inv_def by auto
  ultimately show ?thesis using b s(2,3) by (simp add: busy_def app_inv_def get_set_zc)
qed

lemma upd_busy:
  assumes "busy K S ids i c tun" "kept c (f c)" "zc_static (f c)" "busy K S ids i (f c) (set_zc i (f c) tun) \<Longrightarrow> P (set_zc i (f c) tun)"
  shows "yields (upd_zc i f tun) P"
  using busy_set [OF assms(1-3)] assms(1,4) by (simp add: upd_zc_def busy_def)

lemma busy_frame [simp]:
  "busy K S ids i c (z_now_update h tun) = busy K S ids i c tun"
  "busy K S ids i c (z_frags_update g tun) = busy K S ids i c tun"
  "busy K S ids i c (udp_mappings_update k tun) = busy K S ids i c tun"
  "busy K S ids i c (log_op Op_Query tun) = busy K S ids i c tun"
  "busy K S ids i c (log_op Op_Clock tun) = busy K S ids i c tun"
  by (simp_all add: busy_def)

lemma rest_frame [simp]:
  "rest K S ids (z_now_update h tun) = rest K S ids tun"
  "rest K S ids (z_frags_update g tun) = rest K S ids tun"
  "rest K S ids (udp_mappings_update k tun) = rest K S ids tun"
  "rest K S ids (log_op Op_Query tun) = rest K S ids tun"
  "rest K S ids (log_op Op_Clock tun) = rest K S ids tun"
  by (simp_all add: rest_def)

lemma busy_reply_buf: "busy K S ids i c tun \<Longrightarrow> length b = REPLY_BUF_SIZE \<Longrightarrow> busy K S ids i c (tun\<lparr>z_reply_buf := b\<rparr>)"
  by (simp add: busy_def inv_reply_buf)

lemma busy_log: "busy K S ids i c tun \<Longrightarrow> zc_sock c \<noteq> INVALID_SOCKET \<Longrightarrow> uses x = {zc_sock c} \<Longrightarrow>
    open_fds (x # z_ops tun) = open_fds (z_ops tun) \<Longrightarrow> busy K S ids i c (log_op x tun)"
  using open_sock_mem [of K "{i}" tun i c] log_use [of K "{i}" tun x] by (simp add: busy_def)

lemma busy_sock: "busy K S ids i c tun \<Longrightarrow> zc_sock c \<noteq> INVALID_SOCKET \<Longrightarrow> 0 \<le> zc_sock c \<and> zc_sock c < FD_SETSIZE \<and> zc_sock c \<in> open_fds (z_ops tun)"
  using open_sock_mem [of K "{i}" tun i c] sock_range [of K "{i}" tun i c] by (simp add: busy_def)

lemma busy_all_fds: "busy K S ids i c tun \<Longrightarrow> s \<subseteq> open_fds (z_ops tun) \<Longrightarrow> busy K S ids i c (tun\<lparr>z_all_fds := s\<rparr>)"
  by (simp add: busy_def inv_all_fds)

lemma busy_write_fds: "busy K S ids i c tun \<Longrightarrow> s \<subseteq> open_fds (z_ops tun) \<Longrightarrow> busy K S ids i c (tun\<lparr>z_write_fds := s\<rparr>)"
  by (simp add: busy_def inv_write_fds)

lemma busy_fds: "busy K S ids i c tun \<Longrightarrow> z_all_fds tun \<subseteq> open_fds (z_ops tun) \<and> z_write_fds tun \<subseteq> open_fds (z_ops tun)"
  unfolding busy_def using inv_fds_open by blast

section \<open>Replies and closing\<close>

text \<open>After a close: connection \<open>i\<close> has a final status, hence no socket.\<close>

definition shut :: "'u app \<Rightarrow> nat option set \<Rightarrow> nat list \<Rightarrow> nat \<Rightarrow> 'u zdtun \<Rightarrow> bool" where
  "shut K S ids i tun \<longleftrightarrow> (\<exists>d. busy K S ids i d tun \<and> closed (zc_status d))"

lemma closed_rest: "closed (zc_status c) \<Longrightarrow> zc_rest K c"
  by (auto simp: zc_rest_def)

lemma closed_sock: "busy K S ids i c tun \<Longrightarrow> closed (zc_status c) \<Longrightarrow> zc_sock c = INVALID_SOCKET"
  using busy_static [of K S ids i c tun] by (simp add: zc_static_def)

lemma shut_rest: "shut K S ids i tun \<Longrightarrow> rest K S ids tun"
  unfolding shut_def by (elim exE conjE) (rule busy_rest, assumption, rule closed_rest)

lemma shut_frame [simp]:
  "shut K S ids i (z_now_update h tun) = shut K S ids i tun"
  "shut K S ids i (log_op Op_Clock tun) = shut K S ids i tun"
  by (simp_all add: shut_def)

lemma sock_ipver_ok: "zc_static c \<Longrightarrow> \<exists>v. sock_ipver tun c = Some v"
  by (auto simp: sock_ipver_def zc_static_def split: proxy_mode.split)

lemma iphdr_good: "zdtun_make_iphdr ver t n = Some h \<Longrightarrow> length h + length b + 16 \<le> REPLY_BUF_SIZE \<Longrightarrow> good_reply (h @ b)"
  by (auto simp: good_reply_def zdtun_make_iphdr_def ip4_header_def ip6_header_def Let_def split: if_splits bind_splits)

lemma build_tcp_ok:
  assumes "length body \<le> 65459"
  shows "\<exists>pkt. build_reply_tcpip ver t f body = Some pkt \<and> good_reply pkt"
proof -
  let ?n = "of_nat (length body) + of_nat TCP_HEADER_LEN :: u16"
  obtain h where h: "zdtun_make_iphdr ver t ?n = Some h" "length h = zdtun_iphdr_len ver" using make_iphdr_ok by blast
  have n: "unat ?n \<le> length (tcp_header t f 0 @ body)"
    using assms unat_of_nat16 [of "length body + 20"] by simp
  obtain c where c: "zdtun_l3_checksum ver (ipproto t) h (tcp_header t f 0 @ body) ?n = Some c"
    using l3_checksum_ok [OF n h(1)] by blast
  have "good_reply (h @ tcp_header t f c @ body)" by (rule iphdr_good [OF h(1)]) (use assms h(2) in \<open>simp add: zdtun_iphdr_len_def\<close>)
  then show ?thesis using h c by (simp add: build_reply_tcpip_def Let_def)
qed

text \<open>A reply only asks the socket for its buffers.\<close>

lemma reply_window_ok:
  assumes "zc_static c"
  shows "yields (reply_window env c tun) (\<lambda>(w, t). t = log_op Op_Query tun \<or> t = log_op Op_Query (log_op Op_Query tun))"
  using assms by (simp add: reply_window_def shl32_def zc_static_def Let_def)

lemma tcp_reply_ok:
  fixes env :: "'u zdtun_env"
  assumes c: "zc_static c" and n: "length body \<le> 65459"
  shows "yields (tcp_reply env c fl body off tun)
    (\<lambda>(pkt, t). good_reply pkt \<and> (t = log_op Op_Query tun \<or> t = log_op Op_Query (log_op Op_Query tun)))"
proof -
  obtain v where v: "sock_ipver tun c = Some v" using sock_ipver_ok [OF c] by blast
  show ?thesis unfolding tcp_reply_def v bind.bind_lunit
  proof (rule yields_bind [OF reply_window_ok [OF c]])
    fix x :: "u16 \<times> 'u zdtun"
    assume q: "case x of (w, t) \<Rightarrow> t = log_op Op_Query tun \<or> t = log_op Op_Query (log_op Op_Query tun)"
    obtain w t where x: "x = (w, t)" by (cases x)
    obtain pkt where "build_reply_tcpip v (zc_tuple c) \<lparr>tf_seq = zdtun_seq c, tf_ack = client_seq c, tf_flags = fl, tf_win = w, tf_optsoff = off\<rparr> body = Some pkt"
      "good_reply pkt" using build_tcp_ok [OF n] by blast
    then show "yields (case x of (win, tun1) \<Rightarrow>
        build_reply_tcpip v (zc_tuple c) \<lparr>tf_seq = zdtun_seq c, tf_ack = client_seq c, tf_flags = fl, tf_win = win, tf_optsoff = off\<rparr> body \<bind>
        (\<lambda>pkt. Some (pkt, tun1))) (\<lambda>(pkt, t). good_reply pkt \<and> (t = log_op Op_Query tun \<or> t = log_op Op_Query (log_op Op_Query tun)))"
      using q by (simp add: x)
  qed
qed

lemma busy_release: "busy K S ids i c (release_mapping t tun) = busy K S ids i c tun"
  by (simp add: release_mapping_def Let_def split: option.split)

lemma drop_sock_busy:
  assumes "busy K S ids i c tun"
  shows "busy K S ids i (c\<lparr>zc_sock := INVALID_SOCKET\<rparr>) (set_zc i (c\<lparr>zc_sock := INVALID_SOCKET\<rparr>) (close_socket (zc_sock c) tun))"
proof (rule busy_put [OF assms])
  have s: "zc_static (c\<lparr>zc_sock := INVALID_SOCKET\<rparr>)" using busy_static [OF assms] by (simp add: zc_static_def)
  show "sock_inv K {i} (set_zc i (c\<lparr>zc_sock := INVALID_SOCKET\<rparr>) (close_socket (zc_sock c) tun))"
    by (rule close_sock_inv) (use assms s in \<open>simp_all add: busy_def\<close>)
qed simp_all

lemma close_begin_busy:
  assumes "busy K S ids i c tun"
  shows "busy K S ids i (c\<lparr>zc_sock := INVALID_SOCKET\<rparr>) (close_begin i c tun)"
  unfolding close_begin_def by (rule drop_sock_busy) (use assms in \<open>simp add: busy_release\<close>)

lemma close_end_shut:
  assumes e: "zdtun_client env K" and b: "busy K S ids i c tun" and s: "zc_sock c = INVALID_SOCKET"
  shows "yields (close_end env i st tun) (shut K S ids i)"
proof -
  let ?d = "c\<lparr>tx_queue := (if is_tcp c then [] else tx_queue c), zc_status := (if closed st then st else CONN_STATUS_CLOSED)\<rparr>"
  have cl: "closed (zc_status ?d)" by simp
  have a: "app_ok K (open_data tun) S (z_data tun)" "open_data tun \<subseteq> S" "one_owner tun" "owns S i c tun"
    using busy_app [OF b] by (simp_all add: app_inv_def)
  then have "user_data ?d \<in> S" by (simp add: owns_def)
  from zdtun_client.close_ok [OF e a(1) this cl]
  obtain u where u: "on_close env ?d (z_data tun) = Some u" "app_ok K (open_data tun - {user_data ?d}) S u" by blast
  have o: "owns S i c (tun\<lparr>z_data := u\<rparr>)" "one_owner (tun\<lparr>z_data := u\<rparr>)" "table_ok (tun\<lparr>z_data := u\<rparr>)" "get_zc i (tun\<lparr>z_data := u\<rparr>) = Some c"
    using a busy_table [OF b] busy_get [OF b] by (simp_all add: table_ok_def)
  note s1 = set_owned [OF o(3,4,1,2), of ?d]
  have "sock_inv K {i} (set_zc i ?d (tun\<lparr>z_data := u\<rparr>))"
    by (rule sock_inv_set [where c = c]) (use b s busy_static [OF b] in \<open>simp_all add: zc_static_def busy_def\<close>)
  moreover have "app_inv K S (set_zc i ?d (tun\<lparr>z_data := u\<rparr>))" using s1(1,3) u(2) a(2) by (auto simp: app_inv_def)
  ultimately have "busy K S ids i ?d (set_zc i ?d (tun\<lparr>z_data := u\<rparr>))"
    using b s1(2) o(4) by (simp add: busy_def get_set_zc)
  with cl have "shut K S ids i (set_zc i ?d (tun\<lparr>z_data := u\<rparr>))" unfolding shut_def by blast
  then show ?thesis unfolding close_end_def busy_get [OF b] bind.bind_lunit Let_def u(1) by simp
qed

lemma conn_close_quiet_shut:
  assumes e: "zdtun_client env K" and b: "busy K S ids i c tun"
  shows "yields (conn_close_quiet env i st tun) (shut K S ids i)"
proof (cases "closed (zc_status c)")
  case True
  then show ?thesis using b unfolding conn_close_quiet_def busy_get [OF b] by (auto simp: shut_def)
next
  case False
  have "yields (close_end env i st (close_begin i c tun)) (shut K S ids i)"
    by (rule close_end_shut [OF e close_begin_busy [OF b]]) simp
  then show ?thesis using False unfolding conn_close_quiet_def busy_get [OF b] by simp
qed

text \<open>Sending: the connection is unchanged, or sending has failed and it is closed.\<close>

definition sent_or_shut :: "'u app \<Rightarrow> nat option set \<Rightarrow> nat list \<Rightarrow> nat \<Rightarrow> zdtun_conn \<Rightarrow> int \<times> 'u zdtun \<Rightarrow> bool" where
  "sent_or_shut K S ids i c r \<longleftrightarrow> (case r of (rv, t) \<Rightarrow> busy K S ids i c t \<or> rv \<noteq> 0 \<and> shut K S ids i t)"

text \<open>The packet given to the application is the one written to the reply buffer.\<close>

lemma written_reply:
  assumes g: "good_reply pkt" and l: "length buf = REPLY_BUF_SIZE"
  obtains buf' where "wr buf 0 pkt = Some buf'" "length buf' = REPLY_BUF_SIZE" "unat (of_nat (length pkt) :: u16) \<le> length buf'"
    "\<And>ids p ids'. zdtun_parse_pkt ids buf' (of_nat (length pkt)) = Some (Inr (p, ids')) \<Longrightarrow> reply_pkt p"
proof -
  have n: "length pkt + 16 \<le> REPLY_BUF_SIZE" using g by (simp add: good_reply_def)
  obtain buf' where w: "wr buf 0 pkt = Some buf'" "length buf' = REPLY_BUF_SIZE" using n l by (simp add: wr_def)
  have u: "unat (of_nat (length pkt) :: u16) = length pkt" using n unat_of_nat16 [of "length pkt"] by simp
  have "buf' ! 0 = 0x45 \<or> buf' ! 0 = 0x60" using w(1) g by (auto simp: wr_def good_reply_def split: if_splits)
  then have "reply_pkt p" if "zdtun_parse_pkt ids buf' (of_nat (length pkt)) = Some (Inr (p, ids'))" for ids p ids'
    using that zdtun_parse_pkt_buf [OF that] w(2) n u unfolding reply_pkt_def by metis
  then show ?thesis using that w u n by simp
qed

lemma send_to_client_ok:
  assumes e: "zdtun_client env K" and b: "busy K S ids i c tun" and n: "good_reply pkt"
  shows "yields (send_to_client env i pkt tun) (sent_or_shut K S ids i c)"
proof -
  have l: "length (z_reply_buf tun) = REPLY_BUF_SIZE" using b inv_buf by (auto simp: busy_def)
  obtain buf where buf: "wr (z_reply_buf tun) 0 pkt = Some buf" "length buf = REPLY_BUF_SIZE" "unat (of_nat (length pkt) :: u16) \<le> length buf"
    "\<And>ids p ids'. zdtun_parse_pkt ids buf (of_nat (length pkt)) = Some (Inr (p, ids')) \<Longrightarrow> reply_pkt p" using written_reply [OF n l] by blast
  obtain r where r: "zdtun_parse_pkt (z_frags tun) buf (of_nat (length pkt)) = Some r" using zdtun_parse_pkt_bounds [OF buf(3)] by blast
  have b1: "busy K S ids i c (tun\<lparr>z_reply_buf := buf\<rparr>)" by (rule busy_reply_buf [OF b buf(2)])
  show ?thesis
  proof (cases r)
    case (Inl x)
    then show ?thesis using b1 unfolding send_to_client_def busy_get [OF b] buf(1) bind.bind_lunit r by (simp add: sent_or_shut_def)
  next
    case (Inr q)
    obtain p frags where q: "q = (p, frags)" by (cases q)
    have rp: "reply_pkt p" using buf(4) r Inr q by simp
    have b2: "busy K S ids i c (tun\<lparr>z_reply_buf := buf, z_frags := frags\<rparr>)" using b1 by simp
    obtain rv u where s: "send_client env p c (z_data tun) = Some (rv, u)" and b3: "busy K S ids i c (tun\<lparr>z_reply_buf := buf, z_frags := frags, z_data := u\<rparr>)"
      using busy_client(1) [OF e b2 rp] by auto
    let ?t1 = "tun\<lparr>z_reply_buf := buf, z_frags := frags, z_data := u\<rparr>"
    show ?thesis
    proof (cases "rv = 0")
      case True
      obtain u' where "account_packet env p False c u = Some u'" "busy K S ids i c (?t1\<lparr>z_data := u'\<rparr>)"
        using busy_client(2) [OF e b3, of p False] by auto
      then show ?thesis using True unfolding send_to_client_def busy_get [OF b] buf(1) bind.bind_lunit r Inr q sum.case prod.case s Let_def
        by (simp add: sent_or_shut_def)
    next
      case False
      let ?t2 = "if is_tcp c then set_zc i (c\<lparr>fin_ack_sent := True\<rparr>) ?t1 else ?t1"
      have "\<exists>d. busy K S ids i d ?t2"
        using b3 busy_set [OF b3, of "c\<lparr>fin_ack_sent := True\<rparr>"] busy_static [OF b] by (auto simp: zc_static_def kept_def)
      then have "yields (conn_close_quiet env i CONN_STATUS_CLIENT_ERROR ?t2) (shut K S ids i)" using conn_close_quiet_shut [OF e] by blast
      then obtain t3 where t3: "conn_close_quiet env i CONN_STATUS_CLIENT_ERROR ?t2 = Some t3" "shut K S ids i t3" by (auto simp: yields_def)
      then show ?thesis using False unfolding send_to_client_def busy_get [OF b] buf(1) bind.bind_lunit r Inr q sum.case prod.case s Let_def
        by (simp add: sent_or_shut_def)
    qed
  qed
qed

lemma send_ack_ok:
  fixes env :: "'u zdtun_env"
  assumes e: "zdtun_client env K" and b: "busy K S ids i c tun" and n: "length body \<le> 65459"
  shows "yields (send_ack env i fl body off tun) (sent_or_shut K S ids i c)"
  unfolding send_ack_def busy_get [OF b] bind.bind_lunit
proof (rule yields_bind [OF tcp_reply_ok [OF busy_static [OF b] n]], clarify)
  fix pkt :: "byte list" and t :: "'u zdtun"
  assume p: "good_reply pkt" and t: "t = log_op Op_Query tun \<or> t = log_op Op_Query (log_op Op_Query tun)"
  have "busy K S ids i c t" using t b by auto
  then show "yields (send_to_client env i pkt t) (sent_or_shut K S ids i c)" using send_to_client_ok [OF e _ p] by blast
qed

lemma sent_cases:
  assumes "sent_or_shut K S ids i c (rv, t)"
  obtains d where "busy K S ids i d t" and "d = c \<or> rv \<noteq> 0 \<and> closed (zc_status d)"
  using assms by (auto simp: sent_or_shut_def shut_def)

lemma zdtun_conn_close_shut:
  fixes env :: "'u zdtun_env"
  assumes e: "zdtun_client env K" and b: "busy K S ids i c tun"
  shows "yields (zdtun_conn_close env i st tun) (shut K S ids i)"
proof (cases "closed (zc_status c)")
  case True
  then show ?thesis using b unfolding zdtun_conn_close_def busy_get [OF b] by (auto simp: shut_def)
next
  case False
  let ?c = "c\<lparr>zc_sock := INVALID_SOCKET\<rparr>" and ?t = "close_begin i c tun"
  have b1: "busy K S ids i ?c ?t" by (rule close_begin_busy [OF b])
  have s: "zc_static ?c" by (rule busy_static [OF b1])
  let ?rst = "if is_tcp c \<and> \<not> fin_ack_sent c
      then tcp_reply env ?c (TH_RST OR TH_ACK) [] 0 ?t \<bind> (\<lambda>(pkt, t1). send_to_client env i pkt t1 \<bind> (\<lambda>(rv, t2). Some t2))
      else Some ?t"
  have r: "yields ?rst (\<lambda>t. \<exists>d. busy K S ids i d t \<and> zc_sock d = INVALID_SOCKET)"
  proof (cases "is_tcp c \<and> \<not> fin_ack_sent c")
    case True
    have a: "send_ack env i (TH_RST OR TH_ACK) [] 0 ?t = tcp_reply env ?c (TH_RST OR TH_ACK) [] 0 ?t \<bind> (\<lambda>(pkt, t1). send_to_client env i pkt t1)"
      by (simp add: send_ack_def busy_get [OF b1])
    have "yields (send_ack env i (TH_RST OR TH_ACK) [] 0 ?t) (sent_or_shut K S ids i ?c)" by (rule send_ack_ok [OF e b1]) simp
    then obtain x where x: "send_ack env i (TH_RST OR TH_ACK) [] 0 ?t = Some x" "sent_or_shut K S ids i ?c x" unfolding yields_def by blast
    obtain rv t2 where "x = (rv, t2)" by (cases x)
    with x obtain pkt t1 d where "tcp_reply env ?c (TH_RST OR TH_ACK) [] 0 ?t = Some (pkt, t1)" "send_to_client env i pkt t1 = Some (rv, t2)"
      "busy K S ids i d t2" "d = ?c \<or> closed (zc_status d)"
      unfolding a by (auto simp: bind_eq_Some_conv elim: sent_cases)
    then show ?thesis using True closed_sock [of K S ids i d t2] by auto
  qed (use b1 in auto)
  have "yields (?rst \<bind> close_end env i st) (shut K S ids i)"
  proof (rule yields_bind [OF r], elim exE conjE)
    fix t :: "'u zdtun" and d assume "busy K S ids i d t" "zc_sock d = INVALID_SOCKET"
    then show "yields (close_end env i st t) (shut K S ids i)" using close_end_shut [OF e] by blast
  qed
  then show ?thesis using False unfolding zdtun_conn_close_def busy_get [OF b] bind.bind_lunit Let_def by simp
qed

lemma close_with_socket_error_shut:
  assumes e: "zdtun_client env K" and b: "busy K S ids i c tun"
  shows "yields (close_with_socket_error env i x tun) (\<lambda>(rv, t). shut K S ids i t)"
proof -
  obtain st rv where "close_with_socket_error env i x tun = zdtun_conn_close env i st tun \<bind> (\<lambda>tun1. Some (rv, tun1))"
    by (cases x) (auto simp: close_with_socket_error_def Let_def)
  then show ?thesis using zdtun_conn_close_shut [OF e b, of st] by (auto simp: yields_def)
qed

section \<open>Opening a socket\<close>

lemma count_socket_frame [simp]:
  "sock_inv K X (count_socket proto tun) = sock_inv K X tun" "z_conns (count_socket proto tun) = z_conns tun"
  "z_ops (count_socket proto tun) = z_ops tun" "z_open (count_socket proto tun) = z_open tun"
  "z_all_fds (count_socket proto tun) = z_all_fds tun" "z_write_fds (count_socket proto tun) = z_write_fds tun"
  "z_next (count_socket proto tun) = z_next tun" "z_mtu (count_socket proto tun) = z_mtu tun"
  "z_reply_buf (count_socket proto tun) = z_reply_buf tun" "z_data (count_socket proto tun) = z_data tun"
  by (simp_all add: count_socket_def sock_inv_def sock_books_def table_ok_def socks_def)

lemma inv_ops: "sock_inv K X tun \<Longrightarrow> open_fds h = open_fds (z_ops tun) \<Longrightarrow> ops_valid h \<Longrightarrow> sock_inv K X (tun\<lparr>z_ops := h\<rparr>)"
  by (simp add: sock_inv_def sock_books_def table_ok_def socks_def)

lemma open_socket_fail:
  assumes e: "zdtun_client env K" and i: "sock_inv K X tun" and o: "open_socket env proto tun = (INVALID_SOCKET, t)"
  shows "sock_inv K X t \<and> z_conns t = z_conns tun \<and> z_data t = z_data tun"
proof -
  let ?s = "sy_socket env (z_ops tun)"
  have f: "?s < 0 \<or> ?s \<notin> open_fds (z_ops tun)" by (rule zdtun_client.fresh_socket [OF e])
  have v: "ops_valid (z_ops tun)" using i by (simp add: sock_inv_def sock_books_def)
  show ?thesis
  proof (cases "MAX_NUM_SOCKETS \<le> z_open tun")
    case True
    then show ?thesis using o i by (simp add: open_socket_def)
  next
    case n: False
    show ?thesis
    proof (cases "?s < 0")
      case True
      have "t = log_op (Op_Socket ?s) tun" using o n True by (simp add: open_socket_def Let_def)
      then show ?thesis using inv_ops [OF i, of "Op_Socket ?s # z_ops tun"] v True by (simp add: log_op_def)
    next
      case p: False
      have m: "FD_SETSIZE \<le> ?s"
      proof (rule ccontr)
        assume "\<not> FD_SETSIZE \<le> ?s"
        then have "?s = INVALID_SOCKET" using o n p by (simp add: open_socket_def Let_def)
        then show False using p by simp
      qed
      have t: "t = log_op (Op_Close ?s) (log_op (Op_Socket ?s) tun)" using o n p m by (simp add: open_socket_def Let_def)
      have "sock_inv K X (tun\<lparr>z_ops := Op_Close ?s # Op_Socket ?s # z_ops tun\<rparr>)"
        by (rule inv_ops [OF i]) (use f p v in simp_all)
      then show ?thesis unfolding t by (simp add: log_op_def)
    qed
  qed
qed

lemma open_socket_fail_busy:
  assumes "zdtun_client env K" "busy K S ids i c tun" "open_socket env proto tun = (INVALID_SOCKET, t)"
  shows "busy K S ids i c t"
proof -
  have "sock_inv K {i} tun" using assms(2) by (simp add: busy_def)
  from open_socket_fail [OF assms(1) this assms(3)] show ?thesis using busy_same [OF assms(2)] by blast
qed

text \<open>What an open that succeeds does.\<close>

lemma open_socket_done:
  assumes e: "zdtun_client env K" and o: "open_socket env proto tun = (s, t)" and s: "s \<noteq> INVALID_SOCKET"
  shows "0 \<le> s" "s < FD_SETSIZE" "s \<notin> open_fds (z_ops tun)" "z_open tun < MAX_NUM_SOCKETS" "z_conns t = z_conns tun" "z_next t = z_next tun"
    "z_mtu t = z_mtu tun" "z_reply_buf t = z_reply_buf tun" "z_ops t = Op_Socket s # z_ops tun" "z_open t = z_open tun + 1"
    "z_all_fds t = insert s (z_all_fds tun)" "z_write_fds t = z_write_fds tun" "z_data t = z_data tun"
proof -
  let ?s = "sy_socket env (z_ops tun)"
  have c: "z_open tun < MAX_NUM_SOCKETS \<and> 0 \<le> ?s \<and> ?s < FD_SETSIZE \<and> s = ?s \<and> t = count_socket proto
      ((log_op (Op_Socket ?s) tun)\<lparr>z_all_fds := insert ?s (z_all_fds tun), z_open := z_open tun + 1, z_max_fd := max (z_max_fd (log_op (Op_Socket ?s) tun)) ?s\<rparr>)"
    using o s by (auto simp: open_socket_def Let_def not_le not_less split: if_splits)
  have "sy_socket env (z_ops tun) < 0 \<or> sy_socket env (z_ops tun) \<notin> open_fds (z_ops tun)" by (rule zdtun_client.fresh_socket [OF e])
  then show "0 \<le> s" "s < FD_SETSIZE" "s \<notin> open_fds (z_ops tun)" "z_open tun < MAX_NUM_SOCKETS" "z_conns t = z_conns tun" "z_next t = z_next tun"
    "z_mtu t = z_mtu tun" "z_reply_buf t = z_reply_buf tun" "z_ops t = Op_Socket s # z_ops tun" "z_open t = z_open tun + 1"
    "z_all_fds t = insert s (z_all_fds tun)" "z_write_fds t = z_write_fds tun" "z_data t = z_data tun"
    using c by simp_all
qed

lemma open_socket_busy:
  assumes e: "zdtun_client env K" and b: "busy K S ids i c tun" and n: "zc_sock c = INVALID_SOCKET"
    and o: "open_socket env proto tun = (s, t)" and s: "s \<noteq> INVALID_SOCKET" and d: "zc_sock d = s" "zc_static d"
    and k: "user_data d = user_data c" "closed (zc_status d) = closed (zc_status c)"
  shows "busy K S ids i d (set_zc i d t)"
proof -
  note od = open_socket_done [OF e o s]
  have inv: "sock_inv K {i} tun" and g: "get_zc i tun = Some c" and ids: "zids tun = ids" using b by (simp_all add: busy_def)
  have tb: "table_ok tun" and bk: "sock_books tun" using inv by (simp_all add: sock_inv_def)
  obtain a p where ab: "socks tun = a @ (if zc_sock c = INVALID_SOCKET then [] else [zc_sock c]) @ p"
    "\<forall>x. socks (set_zc i x tun) = a @ (if zc_sock x = INVALID_SOCKET then [] else [zc_sock x]) @ p" by (rule set_zc_split [OF tb g])
  have s0: "socks tun = a @ p" using ab(1) n by simp
  have s1: "socks (set_zc i d t) = a @ s # p"
    using ab(2) [rule_format, of d] d(1) s socks_conns [OF set_zc_conns [OF od(5)], of i d] by simp
  have u: "unat (z_open tun) = length (a @ p)" "set (a @ p) = open_fds (z_ops tun)" "distinct (a @ p)" "ops_valid (z_ops tun)"
    "z_all_fds tun \<subseteq> open_fds (z_ops tun)" "z_write_fds tun \<subseteq> open_fds (z_ops tun)"
    using bk unfolding sock_books_def s0 by blast+
  have l: "unat (z_open tun) < 128" using od(4) by (simp add: word_less_nat_alt)
  then have o1: "unat (z_open tun + 1) = Suc (unat (z_open tun))" by (simp add: unat_word_ariths(1))
  have "sock_books (set_zc i d t)"
    unfolding sock_books_def s1 set_zc_fields od(9-12)
  proof (intro conjI)
    show "distinct (a @ s # p)" using u(2,3) od(3) by auto
    show "set (a @ s # p) = open_fds (Op_Socket s # z_ops tun)" using u(2) od(1) by auto
    show "unat (z_open tun + 1) = length (a @ s # p)" using o1 u(1) by simp
    show "length (a @ s # p) \<le> 128" using l u(1) by simp
    show "insert s (z_all_fds tun) \<subseteq> open_fds (Op_Socket s # z_ops tun)" using u(5) od(1) by auto
    show "z_write_fds tun \<subseteq> open_fds (Op_Socket s # z_ops tun)" using u(6) od(1) by auto
    show "ops_valid (Op_Socket s # z_ops tun)" using u(4) by simp
  qed
  moreover have "table_ok (set_zc i d t)" by (rule table_ok_set [OF table_ok_conns [OF tb od(5-8)] d(2)])
  moreover have "\<forall>(j, x) \<in> set (z_conns (set_zc i d t)). j \<notin> {i} \<longrightarrow> zc_rest K x"
    by (rule set_zc_all) (use inv od(5) in \<open>auto simp: sock_inv_def\<close>)
  ultimately have "sock_inv K {i} (set_zc i d t)" by (simp add: sock_inv_def)
  then show ?thesis by (rule busy_put [OF b od(5,13) _ k])
qed

end
