(* ===== verification/Zdtun_Tcp_Safety.thy ===== *)
theory Zdtun_Tcp_Safety
  imports Zdtun_Safety
begin

text \<open>
  The TCP handlers and the proxy handshake return and leave every connection at rest.
\<close>

section \<open>Small steps\<close>

text \<open>Connection \<open>i\<close> is at rest, whatever it has become.\<close>

definition calm :: "'u app \<Rightarrow> nat option set \<Rightarrow> nat list \<Rightarrow> nat \<Rightarrow> 'u zdtun \<Rightarrow> bool" where
  "calm K S ids i tun \<longleftrightarrow> (\<exists>d. busy K S ids i d tun \<and> zc_rest K d)"

lemma calmI: "busy K S ids i c tun \<Longrightarrow> zc_rest K c \<Longrightarrow> calm K S ids i tun"
  by (auto simp: calm_def)

lemma shut_calm: "shut K S ids i tun \<Longrightarrow> calm K S ids i tun"
  unfolding shut_def calm_def using closed_rest by blast

lemma calm_rest: "calm K S ids i tun \<Longrightarrow> rest K S ids tun"
  unfolding calm_def using busy_rest by blast

lemma calm_frame [simp]:
  "calm K S ids i (z_now_update h tun) = calm K S ids i tun"
  "calm K S ids i (log_op Op_Clock tun) = calm K S ids i tun"
  "calm K S ids i (log_op Op_Query tun) = calm K S ids i tun"
  by (simp_all add: calm_def)

lemma sent_calm: "sent_or_shut K S ids i c (rv, t) \<Longrightarrow> zc_rest K c \<Longrightarrow> calm K S ids i t"
  using shut_calm calmI by (auto simp: sent_or_shut_def)

lemma sent_ok: "sent_or_shut K S ids i c (0, t) \<Longrightarrow> busy K S ids i c t"
  by (simp add: sent_or_shut_def)

text \<open>Changes that leave status, socket and protocol alone.\<close>

definition same_kind :: "zdtun_conn \<Rightarrow> zdtun_conn \<Rightarrow> bool" where
  "same_kind c d \<longleftrightarrow> zc_sock d = zc_sock c \<and> user_data d = user_data c \<and> zc_status d = zc_status c \<and> ipproto (zc_tuple d) = ipproto (zc_tuple c)"

lemma same_kind_kept: "same_kind c d \<Longrightarrow> kept c d"
  by (simp add: same_kind_def kept_def)

lemma same_kind_rest: "same_kind c d \<Longrightarrow> zc_rest K c \<Longrightarrow> zc_rest K d"
  by (simp add: same_kind_def zc_rest_def)

lemma set_calm:
  assumes "busy K S ids i c tun" "zc_rest K c" "same_kind c d" "zc_static d"
  shows "calm K S ids i (set_zc i d tun)"
proof (rule calmI)
  show "busy K S ids i d (set_zc i d tun)" by (rule busy_set [OF assms(1) same_kind_kept [OF assms(3)] assms(4)])
  show "zc_rest K d" by (rule same_kind_rest [OF assms(3,2)])
qed

lemma upd_calm:
  assumes "busy K S ids i c tun" "zc_rest K c" "same_kind c (f c)" "zc_static (f c)"
  shows "yields (upd_zc i f tun) (calm K S ids i)"
  using set_calm [OF assms] by (simp add: upd_zc_def busy_get [OF assms(1)])

lemma calm_upd:
  assumes "calm K S ids i tun" "\<And>c. zc_static c \<Longrightarrow> same_kind c (f c) \<and> zc_static (f c)"
  shows "yields (upd_zc i f tun) (calm K S ids i)"
proof -
  obtain c where c: "busy K S ids i c tun" "zc_rest K c" using assms(1) by (auto simp: calm_def)
  show ?thesis by (rule upd_calm [OF c]) (use assms(2) [OF busy_static [OF c(1)]] in simp_all)
qed

lemma busy_upd:
  assumes "busy K S ids i c tun" "kept c (f c)" "zc_static (f c)"
  shows "yields (upd_zc i f tun) (busy K S ids i (f c))"
  using busy_set [OF assms] by (simp add: upd_zc_def busy_get [OF assms(1)])

text \<open>Closing a connection without the callback.\<close>

lemma close_upd:
  assumes "zdtun_client env K" "busy K S ids i c tun" "zc_sock (f c) = zc_sock c" "user_data (f c) = user_data c" "closed (zc_status (f c))" "zc_static (f c)"
  shows "yields (upd_zc i f tun) (busy K S ids i (f c))"
  using busy_close [OF assms] by (simp add: upd_zc_def busy_get [OF assms(2)])

lemma touch_calm:
  assumes "calm K S ids i tun"
  shows "yields (touch_zc env i tun) (calm K S ids i)"
  unfolding touch_zc_def zdtun_now_def Let_def prod.case
  by (rule calm_upd) (use assms in \<open>simp_all add: same_kind_def zc_static_def\<close>)

lemma yields_close:
  assumes "zdtun_client env K" "busy K S ids i c tun"
  shows "yields (zdtun_conn_close env i st tun \<bind> (\<lambda>t. Some (rv, t))) (\<lambda>(rv, t). shut K S ids i t)"
  using zdtun_conn_close_shut [OF assms, of st] by (auto simp: yields_def)

lemma close_calm:
  assumes "zdtun_client env K" "busy K S ids i c tun"
  shows "yields (zdtun_conn_close env i st tun \<bind> (\<lambda>t. Some (rv, t))) (\<lambda>(rv, t). calm K S ids i t)"
  by (rule yields_mono [OF yields_close [OF assms]]) (auto intro: shut_calm)

lemma conn_close_calm: "zdtun_client env K \<Longrightarrow> busy K S ids i c tun \<Longrightarrow> yields (zdtun_conn_close env i st tun) (calm K S ids i)"
  by (rule yields_mono [OF zdtun_conn_close_shut]) (auto intro: shut_calm)

lemma sock_send_busy:
  assumes b: "busy K S ids i c tun" and s: "zc_sock c \<noteq> INVALID_SOCKET"
  shows "\<exists>r t. sock_send env (zc_sock c) bs tun = (r, t) \<and> busy K S ids i c t"
  using busy_log [OF b s, of "Op_Send (zc_sock c) []"] busy_log [OF b s, of "Op_Send (zc_sock c) (take m bs)" for m]
  by (simp add: sock_send_def Let_def split: sum.split)

lemma recv_busy:
  assumes e: "zdtun_client env K" and b: "busy K S ids i c tun" and s: "zc_sock c \<noteq> INVALID_SOCKET" and n: "off + n \<le> REPLY_BUF_SIZE"
  shows "yields (recv_reply env c off n tun) (\<lambda>(r, t). busy K S ids i c t \<and> (case r of Inl e \<Rightarrow> True | Inr bs \<Rightarrow> length bs \<le> n \<and> length bs \<le> 65459))"
proof -
  have b1: "busy K S ids i c (log_op (Op_Recv (zc_sock c)) tun)" by (rule busy_log [OF b s]) simp_all
  have l: "length (z_reply_buf tun) = REPLY_BUF_SIZE" using b inv_buf by (auto simp: busy_def)
  show ?thesis
  proof (cases "sy_recv env (z_ops tun)")
    case (Inl e)
    then show ?thesis using b1 by (simp add: recv_reply_def sock_recv_def)
  next
    case (Inr bs)
    have w: "off + length (take n bs) \<le> length (z_reply_buf tun)" using n l by simp
    then obtain buf where buf: "wr (z_reply_buf tun) off (take n bs) = Some buf" "length buf = REPLY_BUF_SIZE"
      using l by (simp add: wr_def)
    then show ?thesis using Inr busy_reply_buf [OF b1 buf(2)] zdtun_client.short_data [OF e Inr] by (simp add: recv_reply_def sock_recv_def)
  qed
qed

section \<open>Proxy handshake\<close>

lemma socks5_send_calm:
  assumes e: "zdtun_client env K" and b: "busy K S ids i c tun" and r: "zc_rest K c" and s: "zc_sock c \<noteq> INVALID_SOCKET"
  shows "yields (socks5_send env i bs st tun) (\<lambda>(rv, t). calm K S ids i t)"
proof -
  obtain q t where q: "sock_send env (zc_sock c) bs tun = (q, t)" "busy K S ids i c t" using sock_send_busy [OF b s] by blast
  show ?thesis
  proof (cases q)
    case (Inl x)
    have "yields (close_with_socket_error env i x t) (\<lambda>(rv, t). calm K S ids i t)"
      by (rule yields_mono [OF close_with_socket_error_shut [OF e q(2)]]) (auto intro: shut_calm)
    then show ?thesis using Inl by (simp add: socks5_send_def busy_get [OF b] q(1))
  next
    case (Inr n)
    have "yields (upd_zc i (\<lambda>c. c\<lparr>zc_socks5 := st\<rparr>) t) (calm K S ids i)"
      by (rule upd_calm [OF q(2) r]) (use busy_static [OF b] in \<open>simp_all add: same_kind_def zc_static_def\<close>)
    then show ?thesis using Inr by (auto simp: socks5_send_def busy_get [OF b] q(1) yields_def)
  qed
qed

lemma socks5_fail_calm:
  assumes e: "zdtun_client env K" and b: "busy K S ids i c tun"
  shows "yields (socks5_fail env i tun) (\<lambda>(rv, t). calm K S ids i t)"
  unfolding socks5_fail_def by (rule close_calm [OF assms])

lemma socks5_req_calm:
  assumes "zdtun_client env K" "busy K S ids i c tun" "zc_rest K c" "zc_sock c \<noteq> INVALID_SOCKET"
  shows "yields (socks5_req env i tun) (\<lambda>(rv, t). calm K S ids i t)"
  using socks5_send_calm [OF assms] by (simp add: socks5_req_def busy_get [OF assms(2)])

lemma socks5_skip_calm:
  assumes e: "zdtun_client env K" and b: "busy K S ids i c tun" and r: "zc_rest K c"
  shows "yields (socks5_skip env i dat tun) (\<lambda>(rv, t). calm K S ids i t)"
proof (cases "length dat \<le> unat (zc_skip c)")
  case True
  let ?w = "zc_skip c - of_nat (length dat)"
  let ?f = "\<lambda>c. c\<lparr>zc_skip := ?w, zc_socks5 := (if ?w = 0 then SOCKS5_ESTABLISHED else zc_socks5 c)\<rparr>"
  have "yields (upd_zc i ?f tun) (calm K S ids i)"
    by (rule upd_calm [OF b r]) (use busy_static [OF b] in \<open>simp_all add: same_kind_def zc_static_def\<close>)
  then obtain t where t: "upd_zc i ?f tun = Some t" "calm K S ids i t" unfolding yields_def by blast
  have "socks5_skip env i dat tun = Some (0, t)"
    unfolding socks5_skip_def busy_get [OF b] bind.bind_lunit Let_def t(1) using True by simp
  then show ?thesis using t(2) by simp
next
  case False
  then show ?thesis using socks5_fail_calm [OF e b] by (simp add: socks5_skip_def busy_get [OF b])
qed

lemma socks5_connect_reply_calm:
  fixes env :: "'u zdtun_env"
  assumes e: "zdtun_client env K" and b: "busy K S ids i c tun" and r: "zc_rest K c"
  shows "yields (socks5_connect_reply env i dat tun) (\<lambda>(rv, t). calm K S ids i t)"
proof -
  note f = socks5_fail_calm [OF e b]
  note cl = close_calm [OF e b]
  let ?f = "\<lambda>(w :: u8) c. c\<lparr>zc_skip := w, zc_socks5 := SOCKS5_SKIP_BND\<rparr>"
  have up: "yields (upd_zc i (?f w) tun \<bind> (\<lambda>tun1. if 4 < length dat then socks5_skip env i (drop 4 dat) tun1 else Some (0, tun1))) (\<lambda>(rv, t). calm K S ids i t)" for w
  proof (rule yields_bind [OF busy_upd [OF b]])
    show "kept c (?f w c)" "zc_static (?f w c)" using busy_static [OF b] by (simp_all add: zc_static_def kept_def)
    fix t :: "'u zdtun"
    assume t: "busy K S ids i (?f w c) t"
    have r': "zc_rest K (?f w c)" using r by (simp add: zc_rest_def)
    show "yields (if 4 < length dat then socks5_skip env i (drop 4 dat) t else Some (0, t)) (\<lambda>(rv, t). calm K S ids i t)"
      using socks5_skip_calm [OF e t r'] calmI [OF t r'] by simp
  qed
  show ?thesis unfolding socks5_connect_reply_def
    by (intro yields_if f up) (auto simp: Let_def intro: cl)
qed

lemma handle_socks5_reply_calm:
  assumes e: "zdtun_client env K" and b: "busy K S ids i c tun" and r: "zc_rest K c" and s: "zc_sock c \<noteq> INVALID_SOCKET"
  shows "yields (handle_socks5_reply env i dat tun) (\<lambda>(rv, t). calm K S ids i t)"
proof -
  note f = socks5_fail_calm [OF e b] and q = socks5_req_calm [OF e b r s]
  have a: "yields (socks5_auth env i tun) (\<lambda>(rv, t). calm K S ids i t)" if "z_userpass tun \<noteq> None"
    using that socks5_send_calm [OF e b r s] by (auto simp: socks5_auth_def)
  have "yields (socks5_hello_reply env i dat tun) (\<lambda>(rv, t). calm K S ids i t)"
    unfolding socks5_hello_reply_def by (intro yields_if f q a) simp
  moreover have "yields (socks5_auth_reply env i dat tun) (\<lambda>(rv, t). calm K S ids i t)"
    unfolding socks5_auth_reply_def by (intro yields_if f q)
  ultimately show ?thesis
    using f socks5_connect_reply_calm [OF e b r] socks5_skip_calm [OF e b r]
    by (simp add: handle_socks5_reply_def busy_get [OF b] split: socks5_status.split)
qed

section \<open>Connection set-up\<close>

lemma send_syn_ack_calm:
  fixes env :: "'u zdtun_env"
  assumes e: "zdtun_client env K" and b: "busy K S ids i c tun" and r: "zc_rest K c"
  shows "yields (send_syn_ack env i tun) (\<lambda>(rv, t). calm K S ids i t)"
proof -
  obtain v where v: "sock_ipver tun c = Some v" using sock_ipver_ok [OF busy_static [OF b]] by blast
  let ?o = "syn_ack_opts (default_mss v (z_mtu tun)) (window_scale c)"
  show ?thesis unfolding send_syn_ack_def busy_get [OF b] v bind.bind_lunit
  proof (rule yields_bind [OF send_ack_ok [OF e b]], simp add: syn_ack_opts_def, clarify)
    fix rv and t :: "'u zdtun"
    assume s: "sent_or_shut K S ids i c (rv, t)"
    show "yields (if rv = 0 then upd_zc i (\<lambda>c. c\<lparr>zdtun_seq := zdtun_seq c + 1\<rparr>) t \<bind> (\<lambda>tun2. Some (0, tun2)) else Some (rv, t)) (\<lambda>(rv, t). calm K S ids i t)"
    proof (rule yields_if)
      show "yields (upd_zc i (\<lambda>c. c\<lparr>zdtun_seq := zdtun_seq c + 1\<rparr>) t \<bind> (\<lambda>tun2. Some (0, tun2))) (\<lambda>(rv, t). calm K S ids i t)"
        by (rule yields_bind [OF calm_upd [OF sent_calm [OF s r]]]) (simp_all add: same_kind_def zc_static_def)
    qed (use sent_calm [OF s r] in simp)
  qed
qed

lemma tcp_socket_syn_calm:
  fixes env :: "'u zdtun_env"
  assumes e: "zdtun_client env K" and b: "busy K S ids i c tun" and s: "zc_sock c \<noteq> INVALID_SOCKET" and p: "is_tcp c"
  shows "yields (tcp_socket_syn env i tun) (\<lambda>(rv, t). calm K S ids i t)"
proof -
  let ?d = "c\<lparr>zc_status := CONN_STATUS_CONNECTED\<rparr>"
  have wr: "fd_clr (zc_sock c) (z_write_fds tun) = Some (z_write_fds tun - {zc_sock c})" using busy_sock [OF b s] by (simp add: fd_clr_def)
  have b1: "busy K S ids i c (log_op Op_Query (tun\<lparr>z_write_fds := z_write_fds tun - {zc_sock c}\<rparr>))"
    using busy_write_fds [OF b, of "z_write_fds tun - {zc_sock c}"] busy_fds [OF b] by auto
  have r: "zc_rest K ?d" using p by (simp add: zc_rest_def)
  show ?thesis unfolding tcp_socket_syn_def busy_get [OF b] wr bind.bind_lunit
  proof (rule yields_bind [OF busy_upd [OF b1]])
    show "kept c ?d" "zc_static ?d" using busy_static [OF b] s by (auto simp: zc_static_def kept_def)
    fix t :: "'u zdtun" assume t: "busy K S ids i ?d t"
    have "zc_sock ?d \<noteq> INVALID_SOCKET" using s by simp
    then show "yields (if zc_proxy_mode c = PROXY_SOCKS5 then socks5_connect env i t else send_syn_ack env i t) (\<lambda>(rv, t). calm K S ids i t)"
      unfolding socks5_connect_def using socks5_send_calm [OF e t r] send_syn_ack_calm [OF e t r] by simp
  qed
qed

text \<open>A connection that may lose its socket: TCP, or closed.\<close>

definition calm_tcp :: "'u app \<Rightarrow> nat option set \<Rightarrow> nat list \<Rightarrow> nat \<Rightarrow> 'u zdtun \<Rightarrow> bool" where
  "calm_tcp K S ids i tun \<longleftrightarrow> (\<exists>d. busy K S ids i d tun \<and> zc_rest K d \<and> (is_tcp d \<or> closed (zc_status d)))"

lemma calm_tcp_upd:
  assumes "calm_tcp K S ids i tun" "\<And>c. zc_static c \<Longrightarrow> same_kind c (f c) \<and> zc_static (f c)"
  shows "yields (upd_zc i f tun) (calm_tcp K S ids i)"
proof -
  obtain c where c: "busy K S ids i c tun" "zc_rest K c" "is_tcp c \<or> closed (zc_status c)" using assms(1) by (auto simp: calm_tcp_def)
  have k: "same_kind c (f c)" "zc_static (f c)" using assms(2) [OF busy_static [OF c(1)]] by simp_all
  show ?thesis
  proof (rule yields_mono [OF busy_upd [where f = f, OF c(1) same_kind_kept [OF k(1)] k(2)]])
    fix x :: "'a zdtun" assume "busy K S ids i (f c) x"
    moreover have "is_tcp (f c) \<or> closed (zc_status (f c))" using k(1) c(3) by (simp add: same_kind_def)
    ultimately show "calm_tcp K S ids i x" unfolding calm_tcp_def using same_kind_rest [OF k(1) c(2)] by blast
  qed
qed

lemma tcp_socket_fin_ack_calm:
  fixes env :: "'u zdtun_env"
  assumes e: "zdtun_client env K" and b: "busy K S ids i c tun" and r: "zc_rest K c" and p: "is_tcp c"
  shows "yields (tcp_socket_fin_ack env i tun) (calm_tcp K S ids i)"
  unfolding tcp_socket_fin_ack_def
proof (rule yields_bind [OF send_ack_ok [OF e b]], simp, clarify)
  fix rv and t :: "'u zdtun"
  assume s: "sent_or_shut K S ids i c (rv, t)"
  have t: "calm_tcp K S ids i t" using s r p closed_rest unfolding sent_or_shut_def shut_def calm_tcp_def by auto
  have "yields (upd_zc i (\<lambda>c. c\<lparr>zdtun_seq := zdtun_seq c + 1\<rparr>) t) (calm_tcp K S ids i)"
    by (rule calm_tcp_upd [OF t]) (simp add: same_kind_def zc_static_def)
  then show "yields (if rv = 0 then upd_zc i (\<lambda>c. c\<lparr>zdtun_seq := zdtun_seq c + 1\<rparr>) t else Some t) (calm_tcp K S ids i)"
    using t by simp
qed

lemma fill_conn_sockaddr_ok: "zc_static c \<Longrightarrow> \<exists>x. fill_conn_sockaddr tun c = Some x"
  by (auto simp: fill_conn_sockaddr_def sock_ipver_def zc_static_def Let_def split: proxy_mode.split)

text \<open>The MSS zdtun announces, and the default for a client that sends none.\<close>

lemma default_mss_range:
  assumes "60 \<le> unat mtu" "unat mtu \<le> 65515"
  shows "unat (default_mss ver mtu) \<le> 65475"
proof -
  have u: "unat (ucast mtu :: u16) = unat mtu" using assms(2) by (simp add: unsigned_ucast_eq take_bit_eq_mod)
  have "unat (ucast mtu - k :: u16) = unat mtu - unat k" if "unat k \<le> 60" for k :: u16
    using that assms u by (simp add: unat_sub word_le_nat_alt)
  from this [of 40] this [of 60] have "unat (ucast mtu - 40 :: u16) = unat mtu - 40" "unat (ucast mtu - 60 :: u16) = unat mtu - 60" by simp_all
  then show ?thesis using assms(2) by (cases "ver = 4") (simp_all add: default_mss_def diff_diff_eq)
qed

text \<open>The options of a SYN can be scanned, and give a scale below 32 and an MSS for which a packet fits the reply buffer.\<close>

definition syn_ok :: "zdtun_pkt \<Rightarrow> bool" where
  "syn_ok p \<longleftrightarrow> (case read_tcp p of
      None \<Rightarrow> False
    | Some h \<Rightarrow> (case scan_opts (p_buf p) (tcp_off p + 20) (th_off h * 4 - 20) (0, 0) of
        None \<Rightarrow> False
      | Some (m, s) \<Rightarrow> unat m \<le> 65475 \<and> unat s < 32))"

lemma scan_opts_default:
  "scan_opts b off n (m, s) = Some (m', s') \<Longrightarrow> \<exists>m''. scan_opts b off n (k, s) = Some (m'', s') \<and> (m'' = k \<or> m'' = m')"
proof (induction b off n "(m, s)" arbitrary: m s k rule: scan_opts.induct)
  case (1 b off n m s)
  note st = scan_opts.simps [of b off n]
  consider "n \<le> 1" | "\<not> n \<le> 1" "length b \<le> off" | "\<not> n \<le> 1" "\<not> length b \<le> off" "b ! off = 1" |
    "\<not> n \<le> 1" "\<not> length b \<le> off" "b ! off \<noteq> 1" by meson
  then show ?case
  proof cases
    case 1
    then show ?thesis using "1.prems" by (simp add: st)
  next
    case 2
    then show ?thesis using "1.prems" by (simp add: st)
  next
    case 3
    then have "scan_opts b (off + 1) (n + 1) (m, s) = Some (m', s')" using "1.prems" by (simp add: st)
    from "1.hyps"(1) [OF _ _ refl _ this, of k] 3 show ?thesis by (simp add: st)
  next
    case 4
    have l: "\<not> length b \<le> off + 1" using "1.prems" 4 by (auto simp: st Let_def split: if_splits)
    let ?k = "b ! off" and ?l = "b ! (off + 1)"
    show ?thesis
    proof (cases "?k = 0 \<or> ?l < 2 \<or> n < ?l")
      case True
      then show ?thesis using "1.prems" 4 l by (simp add: st Let_def)
    next
      case False
      let ?m = "\<lambda>x. if ?k = 2 \<and> ?l = 4 then map_option ntohs (rd16 b (off + 2)) else Some x"
      let ?s = "if ?k = 3 \<and> ?l = 3 then rd8 b (off + 2) else Some s"
      have e: "scan_opts b off n (x, s) = (?m x \<bind> (\<lambda>m1. ?s \<bind> (\<lambda>s1. scan_opts b (off + unat ?l) (n - ?l) (m1, s1))))" for x
        using 4 l False by (subst st) (simp add: Let_def)
      obtain m1 s1 where o: "?m m = Some m1" "?s = Some s1" "scan_opts b (off + unat ?l) (n - ?l) (m1, s1) = Some (m', s')"
        using "1.prems" unfolding e by (auto simp: bind_eq_Some_conv)
      show ?thesis
      proof (cases "?k = 2 \<and> ?l = 4")
        case True
        then have "?m k = Some m1" using o(1) by simp
        then show ?thesis unfolding e using o(2,3) by auto
      next
        case F: False
        have "\<exists>m''. scan_opts b (off + unat ?l) (n - ?l) (k, s1) = Some (m'', s') \<and> (m'' = k \<or> m'' = m')"
          by (rule "1.hyps"(2) [OF _ _ refl _ _ refl _ o]) (use 4 l False in \<open>simp_all add:\<close>)
        moreover have "?m k = Some k" using F by auto
        ultimately show ?thesis unfolding e by (simp only: o(2) bind.bind_lunit)
      qed
    qed
  qed
qed

lemma syn_ok_scan:
  assumes "syn_ok p" "read_tcp p = Some h" "unat m0 \<le> 65475"
  shows "\<exists>m s. scan_opts (p_buf p) (tcp_off p + 20) (th_off h * 4 - 20) (m0, 0) = Some (m, s) \<and> unat m \<le> 65475 \<and> unat s < 32"
proof -
  obtain m s where ms: "scan_opts (p_buf p) (tcp_off p + 20) (th_off h * 4 - 20) (0, 0) = Some (m, s)" "unat m \<le> 65475" "unat s < 32"
    using assms(1,2) by (auto simp: syn_ok_def split: option.splits)
  from scan_opts_default [OF ms(1), of m0] ms(2,3) assms(3) show ?thesis by auto
qed

lemma tcp_connect_calm:
  fixes env :: "'u zdtun_env"
  assumes e: "zdtun_client env K" and b: "busy K S ids i c tun" and s: "zc_sock c = s" "s \<noteq> INVALID_SOCKET" and p: "is_tcp c"
  shows "yields (if res \<noteq> None \<and> res \<noteq> Some In_Progress
     then close_with_socket_error env i (the res) tun \<bind> (\<lambda>(rv, t). Some (0, t))
     else upd_zc i (\<lambda>c. c\<lparr>client_seq := cs, zdtun_seq := zs\<rparr>) tun \<bind> (\<lambda>tun4.
       if res = None then tcp_socket_syn env i tun4
       else upd_zc i (\<lambda>c. c\<lparr>zc_status := CONN_STATUS_CONNECTING\<rparr>) tun4 \<bind> (\<lambda>tun5.
         fd_set s (z_write_fds tun5) \<bind> (\<lambda>wr. Some (0, tun5\<lparr>z_write_fds := wr\<rparr>))))) (\<lambda>(rv, t). calm K S ids i t)"
proof (rule yields_if)
  show "yields (close_with_socket_error env i (the res) tun \<bind> (\<lambda>(rv, t). Some (0, t))) (\<lambda>(rv, t). calm K S ids i t)"
    by (rule yields_bind [OF close_with_socket_error_shut [OF e b]]) (auto intro: shut_calm)
  let ?d = "c\<lparr>client_seq := cs, zdtun_seq := zs\<rparr>"
  let ?k = "?d\<lparr>zc_status := CONN_STATUS_CONNECTING\<rparr>"
  show "yields (upd_zc i (\<lambda>c. c\<lparr>client_seq := cs, zdtun_seq := zs\<rparr>) tun \<bind> (\<lambda>tun4.
       if res = None then tcp_socket_syn env i tun4
       else upd_zc i (\<lambda>c. c\<lparr>zc_status := CONN_STATUS_CONNECTING\<rparr>) tun4 \<bind> (\<lambda>tun5.
         fd_set s (z_write_fds tun5) \<bind> (\<lambda>wr. Some (0, tun5\<lparr>z_write_fds := wr\<rparr>))))) (\<lambda>(rv, t). calm K S ids i t)"
  proof (rule yields_bind [OF busy_upd [OF b]])
    show "kept c ?d" "zc_static ?d" using busy_static [OF b] by (simp_all add: zc_static_def kept_def)
    fix t4 :: "'u zdtun" assume t4: "busy K S ids i ?d t4"
    show "yields (if res = None then tcp_socket_syn env i t4
       else upd_zc i (\<lambda>c. c\<lparr>zc_status := CONN_STATUS_CONNECTING\<rparr>) t4 \<bind> (\<lambda>tun5.
         fd_set s (z_write_fds tun5) \<bind> (\<lambda>wr. Some (0, tun5\<lparr>z_write_fds := wr\<rparr>)))) (\<lambda>(rv, t). calm K S ids i t)"
    proof (rule yields_if)
      show "yields (tcp_socket_syn env i t4) (\<lambda>(rv, t). calm K S ids i t)" by (rule tcp_socket_syn_calm [OF e t4]) (use s p in simp_all)
      show "yields (upd_zc i (\<lambda>c. c\<lparr>zc_status := CONN_STATUS_CONNECTING\<rparr>) t4 \<bind> (\<lambda>tun5.
         fd_set s (z_write_fds tun5) \<bind> (\<lambda>wr. Some (0, tun5\<lparr>z_write_fds := wr\<rparr>)))) (\<lambda>(rv, t). calm K S ids i t)"
      proof (rule yields_bind [OF busy_upd [OF t4]])
        show "kept ?d ?k" "zc_static ?k" using busy_static [OF b] s by (auto simp: zc_static_def kept_def)
        fix t5 :: "'u zdtun" assume t5: "busy K S ids i ?k t5"
        have v: "0 \<le> s \<and> s < FD_SETSIZE \<and> s \<in> open_fds (z_ops t5)" using busy_sock [OF t5] s by simp
        have "busy K S ids i ?k (t5\<lparr>z_write_fds := insert s (z_write_fds t5)\<rparr>)"
          by (rule busy_write_fds [OF t5]) (use v busy_fds [OF t5] in auto)
        then have "calm K S ids i (t5\<lparr>z_write_fds := insert s (z_write_fds t5)\<rparr>)" by (rule calmI) (use p in \<open>simp add: zc_rest_def\<close>)
        then show "yields (fd_set s (z_write_fds t5) \<bind> (\<lambda>wr. Some (0, t5\<lparr>z_write_fds := wr\<rparr>))) (\<lambda>(rv, t). calm K S ids i t)"
          using v by (simp add: fd_set_def)
      qed
    qed
  qed
qed

lemma tcp_open_calm:
  fixes env :: "'u zdtun_env"
  assumes e: "zdtun_client env K" and b: "busy K S ids i c tun" and n: "zc_sock c = INVALID_SOCKET" "is_tcp c" "zc_status c = CONN_STATUS_NEW"
    and p: "syn_ok pkt" "read_tcp pkt = Some h"
  shows "yields (tcp_open env pkt h i tun) (\<lambda>(rv, t). calm K S ids i t)"
proof (cases "open_socket env IPPROTO_TCP tun")
  case (Pair s t)
  show ?thesis
  proof (cases "s = INVALID_SOCKET")
    case True
    have bt: "busy K S ids i c t" using open_socket_fail_busy [OF e b] Pair True by simp
    let ?f = "\<lambda>c. c\<lparr>zc_status := CONN_STATUS_SOCKET_ERROR\<rparr>"
    have "yields (upd_zc i ?f t) (busy K S ids i (?f c))" by (rule close_upd [OF e bt]) (use busy_static [OF b] n in \<open>simp_all add: zc_static_def\<close>)
    then have "yields (upd_zc i ?f t) (calm K S ids i)" by (rule yields_mono) (auto intro: calmI simp: zc_rest_def)
    then show ?thesis using Pair True by (auto simp: tcp_open_def yields_def)
  next
    case False
    let ?d = "c\<lparr>zc_sock := s\<rparr>" and ?t1 = "set_zc i (c\<lparr>zc_sock := s\<rparr>) t"
    have g: "get_zc i t = Some c" using busy_get [OF b] open_socket_done(5) [OF e Pair False] by (simp add: get_zc_def)
    have s: "0 \<le> s" "s < FD_SETSIZE" using open_socket_done [OF e Pair False] by simp_all
    have sd: "zc_static ?d" using busy_static [OF b] s n by (simp add: zc_static_def)
    have b1: "busy K S ids i ?d ?t1" by (rule open_socket_busy [OF e b n(1) Pair False]) (use sd in simp_all)
    have u1: "upd_zc i (\<lambda>c. c\<lparr>zc_sock := s\<rparr>) t = Some ?t1" by (simp add: upd_zc_def g)
    obtain ip port ver where fill: "fill_conn_sockaddr ?t1 ?d = Some (ip, port, ver)"
      using fill_conn_sockaddr_ok [OF sd, of ?t1] by (metis prod_cases3)
    obtain u where acc: "account_packet env pkt True ?d (z_data ?t1) = Some u" and bu: "busy K S ids i ?d (?t1\<lparr>z_data := u\<rparr>)"
      using busy_client(2) [OF e b1, of pkt True] by blast
    have "60 \<le> unat (z_mtu ?t1) \<and> unat (z_mtu ?t1) \<le> 65515" using b1 unfolding busy_def by (elim conjE) (rule inv_mtu)
    then have "unat (default_mss ver (z_mtu ?t1)) \<le> 65475" by (intro default_mss_range) simp_all
    then obtain m sc where scan: "scan_opts (p_buf pkt) (tcp_off pkt + 20) (th_off h * 4 - 20) (default_mss ver (z_mtu ?t1), 0) = Some (m, sc)"
      "unat m \<le> 65475" "unat sc < 32" using syn_ok_scan [OF p] by blast
    have win: "shl32 (ucast (th_win h)) sc = Some (push_bit (unat sc) (ucast (th_win h)))" using scan(3) by (simp add: shl32_def)
    let ?f2 = "\<lambda>c. c\<lparr>window_size := push_bit (unat sc) (ucast (th_win h)), window_scale := sc, mss := m\<rparr>"
    have "yields (upd_zc i ?f2 (?t1\<lparr>z_data := u\<rparr>)) (busy K S ids i (?f2 ?d))"
      by (rule busy_upd [OF bu]) (use sd scan(2,3) in \<open>simp_all add: zc_static_def kept_def\<close>)
    then obtain t2 where t2: "upd_zc i ?f2 (?t1\<lparr>z_data := u\<rparr>) = Some t2" "busy K S ids i (?f2 ?d) t2" unfolding yields_def by blast
    have b3: "busy K S ids i (?f2 ?d) (log_op (Op_Connect s ip port ver) t2)" by (rule busy_log [OF t2(2)]) (use False in simp_all)
    show ?thesis
      unfolding tcp_open_def Pair Let_def prod.case if_not_P [OF False] u1 bind.bind_lunit busy_get [OF b1] fill acc scan(1) win t2(1)
      by (rule tcp_connect_calm [OF e b3]) (use False n in simp_all)
  qed
qed

section \<open>Packets of the client\<close>

lemma enqueue_calm:
  assumes e: "zdtun_client env K" and b: "busy K S ids i c tun" and r: "zc_rest K c" and s: "zc_sock c \<noteq> INVALID_SOCKET"
  shows "yields (enqueue_tcp_data env i buf fl tun) (\<lambda>(rv, t). calm K S ids i t)"
proof (cases "sy_alloc env (z_ops tun)")
  case True
  have v: "0 \<le> zc_sock c \<and> zc_sock c < FD_SETSIZE \<and> zc_sock c \<in> open_fds (z_ops tun)" by (rule busy_sock [OF b s])
  let ?d = "c\<lparr>tx_queue := tx_queue c @ [\<lparr>td_flags = fl, td_sofar = 0, td_data = buf\<rparr>], tx_queue_size := tx_queue_size c + of_nat (length buf)\<rparr>"
  have b1: "busy K S ids i c (tun\<lparr>z_write_fds := insert (zc_sock c) (z_write_fds tun)\<rparr>)"
    by (rule busy_write_fds [OF b]) (use v busy_fds [OF b] in auto)
  have "calm K S ids i (set_zc i ?d (tun\<lparr>z_write_fds := insert (zc_sock c) (z_write_fds tun)\<rparr>))"
    by (rule set_calm [OF b1 r]) (use busy_static [OF b] in \<open>simp_all add: same_kind_def zc_static_def\<close>)
  then show ?thesis using True v by (simp add: enqueue_tcp_data_def busy_get [OF b] fd_set_def)
next
  case False
  then show ?thesis using close_calm [OF e b] by (simp add: enqueue_tcp_data_def)
qed

lemma tcp_client_fin_calm:
  fixes env :: "'u zdtun_env"
  assumes e: "zdtun_client env K" and b: "busy K S ids i c tun" and r: "zc_rest K c"
  shows "yields (tcp_client_fin env pkt i tun) (\<lambda>(rv, t). calm K S ids i t)"
proof -
  let ?t1 = "if zc_sock c \<noteq> INVALID_SOCKET then log_op (Op_Shutdown (zc_sock c)) tun else tun"
  have b1: "busy K S ids i c ?t1" using b busy_log [OF b, of "Op_Shutdown (zc_sock c)"] by simp
  let ?f = "\<lambda>c. c\<lparr>client_seq := client_seq c + ucast (p_l7_len pkt) + 1, client_closed := True\<rparr>"
  show ?thesis unfolding tcp_client_fin_def busy_get [OF b] bind.bind_lunit Let_def
  proof (rule yields_bind [OF busy_upd [OF b1]])
    show "kept c (?f c)" "zc_static (?f c)" using busy_static [OF b] by (simp_all add: zc_static_def kept_def)
    fix t2 :: "'u zdtun" assume t2: "busy K S ids i (?f c) t2"
    have r2: "zc_rest K (?f c)" using r by (simp add: zc_rest_def)
    show "yields (send_ack env i TH_ACK [] 0 t2 \<bind> (\<lambda>(rv, tun3). get_zc i tun3 \<bind> (\<lambda>c3.
        (if zc_sock c3 = INVALID_SOCKET then zdtun_conn_close env i CONN_STATUS_CLOSED tun3 else Some tun3) \<bind> (\<lambda>tun4. Some (rv, tun4))))) (\<lambda>(rv, t). calm K S ids i t)"
    proof (rule yields_bind [OF send_ack_ok [OF e t2]], simp, clarify)
      fix rv and t3 :: "'u zdtun" assume "sent_or_shut K S ids i (?f c) (rv, t3)"
      then have "calm K S ids i t3" by (rule sent_calm [OF _ r2])
      then obtain d where d: "busy K S ids i d t3" "zc_rest K d" by (auto simp: calm_def)
      have "yields (if zc_sock d = INVALID_SOCKET then zdtun_conn_close env i CONN_STATUS_CLOSED t3 else Some t3) (calm K S ids i)"
        using conn_close_calm [OF e d(1)] calmI [OF d] by simp
      then show "yields (get_zc i t3 \<bind> (\<lambda>c3.
        (if zc_sock c3 = INVALID_SOCKET then zdtun_conn_close env i CONN_STATUS_CLOSED t3 else Some t3) \<bind> (\<lambda>tun4. Some (rv, tun4)))) (\<lambda>(rv, t). calm K S ids i t)"
        unfolding busy_get [OF d(1)] bind.bind_lunit by (rule yields_bind) simp
    qed
  qed
qed

lemma tcp_client_ack_calm:
  fixes env :: "'u zdtun_env"
  assumes e: "zdtun_client env K" and b: "busy K S ids i c tun" and r: "zc_rest K c" and s: "zc_sock c \<noteq> INVALID_SOCKET"
  shows "yields (tcp_client_ack env h ka i tun) (\<lambda>(rv, t). calm K S ids i t)"
proof (cases ka)
  case True
  have "busy K S ids i c (log_op Op_Query tun)" using b by simp
  from send_ack_ok [OF e this, of "[]" TH_ACK 0] show ?thesis using True r sent_calm
    by (auto simp: tcp_client_ack_def yields_def)
next
  case False
  have v: "0 \<le> zc_sock c \<and> zc_sock c < FD_SETSIZE \<and> zc_sock c \<in> open_fds (z_ops tun)" by (rule busy_sock [OF b s])
  have st: "unat (window_scale c) < 32" using busy_static [OF b] by (simp add: zc_static_def)
  have set: "calm K S ids i (set_zc i (c\<lparr>window_size := w\<rparr>) (tun\<lparr>z_all_fds := fds\<rparr>))" if "fds \<subseteq> open_fds (z_ops tun)" for w fds
    by (rule set_calm [OF busy_all_fds [OF b that] r]) (use busy_static [OF b] in \<open>simp_all add: same_kind_def zc_static_def\<close>)
  have "calm K S ids i (set_zc i (c\<lparr>window_size := w\<rparr>) tun)" for w
    by (rule set_calm [OF b r]) (use busy_static [OF b] in \<open>simp_all add: same_kind_def zc_static_def\<close>)
  then show ?thesis using False st v set busy_fds [OF b]
    by (simp add: tcp_client_ack_def busy_get [OF b] shl32_def fd_set_def Let_def)
qed

lemma tcp_client_data_calm:
  fixes env :: "'u zdtun_env"
  assumes e: "zdtun_client env K" and b: "calm K S ids i tun" and p: "pkt_payload pkt \<noteq> None"
  shows "yields (tcp_client_data env pkt h i tun) (\<lambda>(rv, t). calm K S ids i t)"
proof -
  obtain c where c: "busy K S ids i c tun" "zc_rest K c" using b by (auto simp: calm_def)
  have "yields (upd_zc i (\<lambda>c. c\<lparr>client_seq := client_seq c + ucast (p_l7_len pkt)\<rparr>) tun \<bind> (\<lambda>tun1. send_ack env i TH_ACK [] 0 tun1)) (\<lambda>(rv, t). calm K S ids i t)"
  proof (rule yields_bind [OF calm_upd [OF b]])
    fix t :: "'u zdtun" assume "calm K S ids i t"
    then obtain d where d: "busy K S ids i d t" "zc_rest K d" by (auto simp: calm_def)
    show "yields (send_ack env i TH_ACK [] 0 t) (\<lambda>(rv, t). calm K S ids i t)"
      by (rule yields_mono [OF send_ack_ok [OF e d(1)]]) (use sent_calm d(2) in auto)
  qed (simp add: same_kind_def zc_static_def)
  then show ?thesis using p b enqueue_calm [OF e c] by (auto simp: tcp_client_data_def busy_get [OF c(1)])
qed

lemma tcp_active_calm:
  fixes env :: "'u zdtun_env"
  assumes e: "zdtun_client env K" and b0: "busy K S ids i c tun0" and r: "zc_rest K c" and p: "pkt_payload pkt \<noteq> None"
  shows "yields (tcp_active env pkt h i tun0) (\<lambda>(rv, t). calm K S ids i t)"
proof -
  obtain u where u: "account_packet env pkt True c (z_data tun0) = Some u" and b: "busy K S ids i c (tun0\<lparr>z_data := u\<rparr>)"
    using busy_client(2) [OF e b0, of pkt True] by blast
  let ?t = "tun0\<lparr>z_data := u\<rparr>"
  note cl = close_calm [OF e b]
  have ack: "yields ((if th_flags h AND TH_ACK \<noteq> 0 \<and> zc_sock c \<noteq> INVALID_SOCKET then tcp_client_ack env h ka i ?t else Some (0, ?t)) \<bind>
      (\<lambda>(rv, tun1). if rv \<noteq> 0 then Some (-1, tun1) else tcp_client_data env pkt h i tun1)) (\<lambda>(rv, t). calm K S ids i t)" for ka
  proof (rule yields_bind [where Q = "\<lambda>(rv, t). calm K S ids i t"], rule yields_if)
    assume "th_flags h AND TH_ACK \<noteq> 0 \<and> zc_sock c \<noteq> INVALID_SOCKET"
    then show "yields (tcp_client_ack env h ka i ?t) (\<lambda>(rv, t). calm K S ids i t)" using tcp_client_ack_calm [OF e b r] by blast
  next
    show "yields (Some (0, ?t)) (\<lambda>(rv, t). calm K S ids i t)" using calmI [OF b r] by simp
  next
    fix x :: "int \<times> 'u zdtun" assume "case x of (rv, t) \<Rightarrow> calm K S ids i t"
    then show "yields (case x of (rv, tun1) \<Rightarrow> if rv \<noteq> 0 then Some (-1, tun1) else tcp_client_data env pkt h i tun1) (\<lambda>(rv, t). calm K S ids i t)"
      using tcp_client_data_calm [OF e _ p] by (auto split: prod.split)
  qed
  show ?thesis unfolding tcp_active_def busy_get [OF b0] bind.bind_lunit u Let_def
    by (intro yields_if cl ack tcp_client_fin_calm [OF e b r]) (use calmI [OF b r] in simp)
qed

lemma handle_tcp_fwd_calm:
  assumes e: "zdtun_client env K" and b: "busy K S ids i c tun" and p: "pkt_payload pkt \<noteq> None" "read_tcp pkt \<noteq> None" and t: "is_tcp c"
    and n: "zc_status c = CONN_STATUS_NEW \<Longrightarrow> zc_sock c = INVALID_SOCKET \<and> syn_ok pkt"
  shows "yields (handle_tcp_fwd env pkt i tun) (\<lambda>(rv, t). calm K S ids i t)"
proof -
  obtain h where h: "read_tcp pkt = Some h" using p by blast
  have r: "zc_rest K c" if "zc_status c \<noteq> CONN_STATUS_NEW" using that t by (simp add: zc_rest_def)
  show ?thesis unfolding handle_tcp_fwd_def h busy_get [OF b] bind.bind_lunit
  proof (intro yields_if)
    show "yields (zdtun_conn_close env i CONN_STATUS_ERROR tun \<bind> (\<lambda>t. Some (- 1, t))) (\<lambda>(rv, t). calm K S ids i t)"
      by (rule close_calm [OF e b])
    assume "zc_status c = CONN_STATUS_CONNECTING"
    then show "yields (Some (0, tun)) (\<lambda>(rv, t). calm K S ids i t)" using calmI [OF b r] by simp
  next
    assume "zc_status c = CONN_STATUS_NEW"
    then show "yields (tcp_open env pkt h i tun) (\<lambda>(rv, t). calm K S ids i t)" using n tcp_open_calm [OF e b _ t _ _ h] by simp
  next
    assume "zc_status c \<noteq> CONN_STATUS_NEW"
    then show "yields (tcp_active env pkt h i tun) (\<lambda>(rv, t). calm K S ids i t)" by (intro tcp_active_calm [OF e b r p(1)])
  qed
qed

section \<open>Data of the server\<close>

text \<open>A connection's socket closed: a TCP connection may go on without.\<close>

lemma tcp_server_fin_calm:
  fixes env :: "'u zdtun_env"
  assumes e: "zdtun_client env K" and b: "busy K S ids i c tun" and r: "zc_rest K c" and t: "is_tcp c"
  shows "yields (tcp_server_fin env i tun) (\<lambda>(rv, t). calm K S ids i t)"
proof -
  have fin: "yields (if \<not> fin_ack_sent c then tcp_socket_fin_ack env i tun \<bind> (\<lambda>t. upd_zc i (\<lambda>c. c\<lparr>fin_ack_sent := True\<rparr>) t) else Some tun) (calm_tcp K S ids i)"
  proof (rule yields_if)
    show "yields (tcp_socket_fin_ack env i tun \<bind> (\<lambda>t. upd_zc i (\<lambda>c. c\<lparr>fin_ack_sent := True\<rparr>) t)) (calm_tcp K S ids i)"
      by (rule yields_bind [OF tcp_socket_fin_ack_calm [OF e b r t]], rule calm_tcp_upd) (auto simp: same_kind_def zc_static_def)
    show "yields (Some tun) (calm_tcp K S ids i)" using b r t by (auto simp: calm_tcp_def)
  qed
  show ?thesis unfolding tcp_server_fin_def busy_get [OF b] bind.bind_lunit
  proof (rule yields_bind [OF fin])
    fix t1 :: "'u zdtun" assume "calm_tcp K S ids i t1"
    then obtain d where d: "busy K S ids i d t1" "zc_rest K d" "is_tcp d \<or> closed (zc_status d)" by (auto simp: calm_tcp_def)
    let ?d = "d\<lparr>zc_sock := INVALID_SOCKET\<rparr>" and ?t2 = "set_zc i (d\<lparr>zc_sock := INVALID_SOCKET\<rparr>) (close_socket (zc_sock d) t1)"
    have d2: "busy K S ids i ?d ?t2" by (rule drop_sock_busy [OF d(1)])
    have "zc_rest K ?d" using d(2,3) by (auto simp: zc_rest_def)
    then have "yields (if client_closed d then zdtun_conn_close env i CONN_STATUS_CLOSED ?t2 else Some ?t2) (calm K S ids i)"
      using conn_close_calm [OF e d2] calmI [OF d2] by simp
    then show "yields (get_zc i t1 \<bind> (\<lambda>c1. let tun2 = set_zc i (c1\<lparr>zc_sock := INVALID_SOCKET\<rparr>) (close_socket (zc_sock c1) t1)
        in (if client_closed c1 then zdtun_conn_close env i CONN_STATUS_CLOSED tun2 else Some tun2) \<bind> (\<lambda>tun3. Some (0, tun3)))) (\<lambda>(rv, t). calm K S ids i t)"
      unfolding busy_get [OF d(1)] bind.bind_lunit Let_def by (rule yields_bind) simp
  qed
qed

lemma tcp_server_data_calm:
  fixes env :: "'u zdtun_env"
  assumes e: "zdtun_client env K" and b: "busy K S ids i c tun" and r: "zc_rest K c" and s: "zc_sock c \<noteq> INVALID_SOCKET" and n: "length bs \<le> 65459"
  shows "yields (tcp_server_data env i bs tun) (\<lambda>(rv, t). calm K S ids i t)"
proof (cases "unat (window_size c) < length bs")
  case True
  then show ?thesis using close_calm [OF e b] by (simp add: tcp_server_data_def busy_get [OF b])
next
  case False
  have b1: "busy K S ids i c (log_op Op_Query tun)" using b by simp
  show ?thesis unfolding tcp_server_data_def busy_get [OF b] bind.bind_lunit if_not_P [OF False] Let_def
  proof (rule yields_bind [OF send_ack_ok [OF e b1 n]], clarify)
    fix rv and t :: "'u zdtun" assume sn: "sent_or_shut K S ids i c (rv, t)"
    show "yields (if rv \<noteq> 0 then Some (- 1, t) else get_zc i t \<bind> (\<lambda>c1.
        (if window_size (c1\<lparr>zdtun_seq := zdtun_seq c1 + of_nat (length bs), window_size := window_size c1 - of_nat (length bs)\<rparr>) = 0
         then fd_clr (zc_sock (c1\<lparr>zdtun_seq := zdtun_seq c1 + of_nat (length bs), window_size := window_size c1 - of_nat (length bs)\<rparr>)) (z_all_fds t)
         else Some (z_all_fds t)) \<bind>
        (\<lambda>fds. Some (0, set_zc i (c1\<lparr>zdtun_seq := zdtun_seq c1 + of_nat (length bs), window_size := window_size c1 - of_nat (length bs)\<rparr>)
           (t\<lparr>z_all_fds := fds\<rparr>))))) (\<lambda>(rv, t). calm K S ids i t)"
    proof (rule yields_if)
      show "yields (Some (- 1, t)) (\<lambda>(rv, t). calm K S ids i t)" using sent_calm [OF sn r] by simp
      assume "\<not> rv \<noteq> 0"
      then have bt: "busy K S ids i c t" using sent_ok sn by simp
      let ?d = "c\<lparr>zdtun_seq := zdtun_seq c + of_nat (length bs), window_size := window_size c - of_nat (length bs)\<rparr>"
      have k: "same_kind c ?d" "zc_static ?d" using busy_static [OF b] by (simp_all add: same_kind_def zc_static_def)
      have v: "0 \<le> zc_sock c \<and> zc_sock c < FD_SETSIZE" using busy_sock [OF bt s] by simp
      have set: "calm K S ids i (set_zc i ?d (t\<lparr>z_all_fds := fds\<rparr>))" if "fds \<subseteq> open_fds (z_ops t)" for fds
        by (rule set_calm [OF busy_all_fds [OF bt that] r k])
      have "yields (if window_size ?d = 0 then fd_clr (zc_sock ?d) (z_all_fds t) else Some (z_all_fds t)) (\<lambda>fds. fds \<subseteq> open_fds (z_ops t))"
        using busy_fds [OF bt] v by (auto simp: fd_clr_def)
      then show "yields (get_zc i t \<bind> (\<lambda>c1.
        (if window_size (c1\<lparr>zdtun_seq := zdtun_seq c1 + of_nat (length bs), window_size := window_size c1 - of_nat (length bs)\<rparr>) = 0
         then fd_clr (zc_sock (c1\<lparr>zdtun_seq := zdtun_seq c1 + of_nat (length bs), window_size := window_size c1 - of_nat (length bs)\<rparr>)) (z_all_fds t)
         else Some (z_all_fds t)) \<bind>
        (\<lambda>fds. Some (0, set_zc i (c1\<lparr>zdtun_seq := zdtun_seq c1 + of_nat (length bs), window_size := window_size c1 - of_nat (length bs)\<rparr>)
           (t\<lparr>z_all_fds := fds\<rparr>))))) (\<lambda>(rv, t). calm K S ids i t)"
        unfolding busy_get [OF bt] bind.bind_lunit by (rule yields_bind) (use set in simp)
    qed
  qed
qed

lemma touch_busy:
  assumes "busy K S ids i c tun"
  shows "yields (touch_zc env i tun) (\<lambda>t. \<exists>now. busy K S ids i (c\<lparr>zc_tstamp := now\<rparr>) t)"
  unfolding touch_zc_def zdtun_now_def Let_def prod.case
  by (rule yields_mono [OF busy_upd [where c = c]]) (use assms busy_static [OF assms] in \<open>auto simp: zc_static_def kept_def\<close>)

lemma handle_tcp_reply_calm:
  fixes env :: "'u zdtun_env"
  assumes e: "zdtun_client env K" and b: "busy K S ids i c tun" and r: "zc_rest K c" and s: "zc_sock c \<noteq> INVALID_SOCKET" and p: "is_tcp c"
  shows "yields (handle_tcp_reply env i tun) (\<lambda>(rv, t). calm K S ids i t)"
proof -
  obtain v where v: "sock_ipver tun c = Some v" using sock_ipver_ok [OF busy_static [OF b]] by blast
  let ?n = "min (unat (window_size c)) (unat (mss c))"
  have m: "?n \<le> 65475" using busy_static [OF b] by (simp add: zc_static_def min.coboundedI2)
  then have o: "zdtun_iphdr_len v + TCP_HEADER_LEN + ?n \<le> REPLY_BUF_SIZE" by (simp add: zdtun_iphdr_len_def)
  show ?thesis unfolding handle_tcp_reply_def busy_get [OF b] v bind.bind_lunit Let_def
  proof (rule yields_bind [OF recv_busy [OF e b s o]], clarify)
    fix q :: "sock_err + byte list" and t1 :: "'u zdtun"
    assume q: "busy K S ids i c t1" "case q of Inl e \<Rightarrow> True | Inr bs \<Rightarrow> length bs \<le> ?n \<and> length bs \<le> 65459"
    show "yields (touch_zc env i t1 \<bind> (\<lambda>tun. case q of Inl a \<Rightarrow> close_with_socket_error env i a tun
        | Inr bs \<Rightarrow> if bs = [] then tcp_server_fin env i tun
           else if socks5_in_progress c then handle_socks5_reply env i bs tun \<bind> (\<lambda>(rv, tun2). if rv \<noteq> 0 then Some (rv, tun2)
             else get_zc i tun2 \<bind> (\<lambda>c2. if zc_socks5 c2 = SOCKS5_ESTABLISHED then send_syn_ack env i tun2 else Some (0, tun2)))
           else tcp_server_data env i bs tun)) (\<lambda>(rv, t). calm K S ids i t)"
    proof (rule yields_bind [OF touch_busy [OF q(1)]], elim exE)
      fix t2 :: "'u zdtun" and now assume b2: "busy K S ids i (c\<lparr>zc_tstamp := now\<rparr>) t2"
      let ?d = "c\<lparr>zc_tstamp := now\<rparr>"
      have d: "zc_rest K ?d" "zc_sock ?d \<noteq> INVALID_SOCKET" "is_tcp ?d" using r s p by (simp_all add: zc_rest_def)
      have s5: "yields (handle_socks5_reply env i bs t2 \<bind> (\<lambda>(rv, tun2). if rv \<noteq> 0 then Some (rv, tun2)
             else get_zc i tun2 \<bind> (\<lambda>c2. if zc_socks5 c2 = SOCKS5_ESTABLISHED then send_syn_ack env i tun2 else Some (0, tun2)))) (\<lambda>(rv, t). calm K S ids i t)" for bs
      proof (rule yields_bind [OF handle_socks5_reply_calm [OF e b2 d(1,2)]], clarify)
        fix rv and t3 :: "'u zdtun" assume t3: "calm K S ids i t3"
        then obtain x where x: "busy K S ids i x t3" "zc_rest K x" by (auto simp: calm_def)
        show "yields (if rv \<noteq> 0 then Some (rv, t3) else get_zc i t3 \<bind> (\<lambda>c2. if zc_socks5 c2 = SOCKS5_ESTABLISHED then send_syn_ack env i t3 else Some (0, t3))) (\<lambda>(rv, t). calm K S ids i t)"
          using t3 send_syn_ack_calm [OF e x] by (simp add: busy_get [OF x(1)])
      qed
      have ce: "yields (close_with_socket_error env i a t2) (\<lambda>(rv, t). calm K S ids i t)" for a
        by (rule yields_mono [OF close_with_socket_error_shut [OF e b2]]) (auto intro: shut_calm)
      show "yields (case q of Inl a \<Rightarrow> close_with_socket_error env i a t2
        | Inr bs \<Rightarrow> if bs = [] then tcp_server_fin env i t2
           else if socks5_in_progress c then handle_socks5_reply env i bs t2 \<bind> (\<lambda>(rv, tun2). if rv \<noteq> 0 then Some (rv, tun2)
             else get_zc i tun2 \<bind> (\<lambda>c2. if zc_socks5 c2 = SOCKS5_ESTABLISHED then send_syn_ack env i tun2 else Some (0, tun2)))
           else tcp_server_data env i bs t2) (\<lambda>(rv, t). calm K S ids i t)"
      proof (cases q)
        case (Inl a)
        then show ?thesis using ce by simp
      next
        case (Inr bs)
        have l: "length bs \<le> 65459" using q(2) Inr by simp
        show ?thesis unfolding Inr sum.case
          by (intro yields_if s5 tcp_server_fin_calm [OF e b2 d(1,3)] tcp_server_data_calm [OF e b2 d(1,2) l])
      qed
    qed
  qed
qed

lemma close_err_calm:
  assumes "zdtun_client env K" "busy K S ids i c tun"
  shows "yields (close_with_socket_error env i a tun) (\<lambda>(rv, t). calm K S ids i t)"
  by (rule yields_mono [OF close_with_socket_error_shut [OF assms]]) (auto intro: shut_calm)

lemma handle_tcp_connect_async_calm:
  fixes env :: "'u zdtun_env"
  assumes e: "zdtun_client env K" and b: "busy K S ids i c tun" and s: "zc_sock c \<noteq> INVALID_SOCKET" and p: "is_tcp c"
  shows "yields (handle_tcp_connect_async env i tun) (\<lambda>(rv, t). calm K S ids i t)"
proof -
  let ?t = "log_op Op_Query tun"
  have b1: "busy K S ids i c ?t" using b by simp
  have ok: "yields (tcp_socket_syn env i ?t \<bind> (\<lambda>(rv, t). touch_zc env i t \<bind> (\<lambda>t1. Some (rv, t1)))) (\<lambda>(rv, t). calm K S ids i t)"
  proof (rule yields_bind [OF tcp_socket_syn_calm [OF e b1 s p]], clarify)
    fix rv and t :: "'u zdtun" assume "calm K S ids i t"
    then show "yields (touch_zc env i t \<bind> (\<lambda>t1. Some (rv, t1))) (\<lambda>(rv, t). calm K S ids i t)" by (rule yields_bind [OF touch_calm]) simp
  qed
  have err: "yields (close_with_socket_error env i a ?t \<bind> (\<lambda>(rv, t). Some (-1 :: int, t))) (\<lambda>(rv, t). calm K S ids i t)" for a
    by (rule yields_bind [OF close_err_calm [OF e b1]]) auto
  show ?thesis unfolding handle_tcp_connect_async_def Let_def
    using close_calm [OF e b1, of CONN_STATUS_SOCKET_ERROR "-1 :: int"] ok err by (simp split: option.split)
qed

lemma send_queue_busy:
  "busy K S ids i c tun \<Longrightarrow> zc_sock c \<noteq> INVALID_SOCKET \<Longrightarrow> \<exists>r t. send_queue env (zc_sock c) q n tun = (r, t) \<and> busy K S ids i c t"
proof (induction q arbitrary: n tun)
  case (Cons x q)
  obtain r t where r: "sock_send env (zc_sock c) (drop (td_sofar x) (td_data x)) tun = (r, t)" "busy K S ids i c t"
    using sock_send_busy [OF Cons.prems] by blast
  then show ?case using Cons.IH [OF r(2) Cons.prems(2)] by (simp add: Let_def split: sum.split)
qed simp

lemma handle_queued_calm:
  fixes env :: "'u zdtun_env"
  assumes e: "zdtun_client env K" and b: "busy K S ids i c tun" and r: "zc_rest K c" and s: "zc_sock c \<noteq> INVALID_SOCKET"
  shows "yields (handle_queued_tcp_data env i tun) (\<lambda>(rv, t). calm K S ids i t)"
proof -
  obtain err q n t where sq: "send_queue env (zc_sock c) (tx_queue c) 0 tun = ((err, q, n), t)" "busy K S ids i c t"
    using send_queue_busy [OF b s, of env "tx_queue c" 0] by auto
  let ?d = "c\<lparr>tx_queue := q\<rparr>"
  have d: "zc_rest K ?d" "zc_sock ?d \<noteq> INVALID_SOCKET" "zc_static ?d" using r s busy_static [OF b] by (simp_all add: zc_rest_def zc_static_def)
  obtain t1 where t1: "upd_zc i (\<lambda>c. c\<lparr>tx_queue := q\<rparr>) t = Some t1" "busy K S ids i ?d t1"
    using busy_upd [OF sq(2), of "\<lambda>c. c\<lparr>tx_queue := q\<rparr>"] d(3) by (auto simp: yields_def kept_def)
  have v: "0 \<le> zc_sock c \<and> zc_sock c < FD_SETSIZE" using busy_sock [OF b s] by simp
  have wr: "yields (if q = [] then fd_clr (zc_sock c) (z_write_fds t1) else Some (z_write_fds t1)) (\<lambda>w. w \<subseteq> open_fds (z_ops t1))"
    using busy_fds [OF t1(2)] v by (auto simp: fd_clr_def)
  let ?f = "\<lambda>c. c\<lparr>client_seq := client_seq c + of_nat n, tx_queue_size := tx_queue_size c - of_nat n\<rparr>"
  have ack: "yields (upd_zc i ?f t2 \<bind> (\<lambda>tun3. send_ack env i TH_ACK [] 0 tun3 \<bind> (\<lambda>(rv, tun4). Some (if rv < 0 then -1 else 0, tun4)))) (\<lambda>(rv, t). calm K S ids i t)"
    if t2: "busy K S ids i ?d t2" for t2
  proof (rule yields_bind [OF busy_upd [OF t2]])
    show "kept ?d (?f ?d)" "zc_static (?f ?d)" using d(3) by (simp_all add: zc_static_def kept_def)
    fix t3 :: "'u zdtun" assume t3: "busy K S ids i (?f ?d) t3"
    have r3: "zc_rest K (?f ?d)" using d(1) by (simp add: zc_rest_def)
    show "yields (send_ack env i TH_ACK [] 0 t3 \<bind> (\<lambda>(rv, tun4). Some (if rv < 0 then -1 else 0, tun4))) (\<lambda>(rv, t). calm K S ids i t)"
      by (rule yields_bind [OF send_ack_ok [OF e t3]]) (use sent_calm r3 in auto)
  qed
  show ?thesis
  proof (cases err)
    case (Some a)
    then show ?thesis using close_err_calm [OF e t1(2)] by (simp add: handle_queued_tcp_data_def busy_get [OF b] sq(1) t1(1))
  next
    case None
    show ?thesis unfolding handle_queued_tcp_data_def busy_get [OF b] bind.bind_lunit sq(1) None Let_def prod.case t1(1) option.case
    proof (rule yields_bind [OF wr])
      fix w assume "w \<subseteq> open_fds (z_ops t1)"
      then have t2: "busy K S ids i ?d (t1\<lparr>z_write_fds := w\<rparr>)" by (rule busy_write_fds [OF t1(2)])
      show "yields (if 0 < n then upd_zc i ?f (t1\<lparr>z_write_fds := w\<rparr>) \<bind> (\<lambda>tun3. send_ack env i TH_ACK [] 0 tun3 \<bind> (\<lambda>(rv, tun4). Some (if rv < 0 then -1 else 0, tun4)))
          else Some (0, t1\<lparr>z_write_fds := w\<rparr>)) (\<lambda>(rv, t). calm K S ids i t)"
        by (rule yields_if [OF ack [OF t2]]) (use calmI [OF t2 d(1)] in simp)
    qed
  qed
qed

end
