(* ===== verification/Zdtun_Udp_Safety.thy ===== *)
theory Zdtun_Udp_Safety
  imports Zdtun_Tcp_Safety
begin

text \<open>
  The UDP and ICMP handlers, in both directions, return and leave the connection at rest.
\<close>

section \<open>UDP and ICMP\<close>

lemma udp_fail_shut:
  assumes "zdtun_client env K" "busy K S ids i c tun"
  shows "yields (udp_fail env i x tun) (\<lambda>(ok, t). \<not> ok \<and> shut K S ids i t)"
  unfolding udp_fail_def by (rule yields_bind [OF close_with_socket_error_shut [OF assms]]) auto

lemma bind_and_connect_busy:
  fixes env :: "'u zdtun_env"
  assumes e: "zdtun_client env K" and b: "busy K S ids i c tun" and s: "zc_sock c \<noteq> INVALID_SOCKET"
  shows "yields (bind_and_connect_udp env i tun) (\<lambda>(ok, t). if ok then busy K S ids i c t else shut K S ids i t)"
    (is "yields _ ?Q")
proof -
  obtain v where v: "sock_ipver tun c = Some v" using sock_ipver_ok [OF busy_static [OF b]] by blast
  let ?key = "udp_mapping_key (zc_tuple c)"
  let ?mp = "map_of (udp_mappings tun) ?key"
  let ?t1 = "log_op Op_Query tun"
  let ?t2 = "log_op (Op_Bind (zc_sock c) (case_option 0 um_port ?mp)) ?t1"
  have b1: "busy K S ids i c ?t1" using b by simp
  have b2: "busy K S ids i c ?t2" by (rule busy_log [OF b1 s]) simp_all
  obtain ip port w where fill: "fill_conn_sockaddr ?t2 c = Some (ip, port, w)"
    using fill_conn_sockaddr_ok [OF busy_static [OF b], of ?t2] by (metis prod_cases3)
  let ?t3 = "log_op (Op_Connect (zc_sock c) ip port w) ?t2"
  have b3: "busy K S ids i c ?t3" by (rule busy_log [OF b2 s]) simp_all
  have fl: "yields (udp_fail env i x t) ?Q" if "busy K S ids i c t" for x t
    by (rule yields_mono [OF udp_fail_shut [OF e that]]) auto
  have um: "busy K S ids i c (use_mapping key t) = busy K S ids i c t" for key and t :: "'u zdtun" by (simp add: use_mapping_def)
  have cl: "yields (zdtun_conn_close env i CONN_STATUS_ERROR tun \<bind> (\<lambda>t. Some (False, t))) ?Q"
    by (rule yields_bind [OF zdtun_conn_close_shut [OF e b]]) simp
  have sn: "yields (case sy_sockname env (z_ops ?t3) of Inl x \<Rightarrow> udp_fail env i x (log_op Op_Query ?t3)
      | Inr p \<Rightarrow> Some (True, (log_op Op_Query ?t3)\<lparr>udp_mappings := udp_mappings (log_op Op_Query ?t3) @ [(?key, \<lparr>um_port = p, um_uses = 1\<rparr>)]\<rparr>)) ?Q"
  proof (cases "sy_sockname env (z_ops ?t3)")
    case (Inl x)
    show ?thesis unfolding Inl sum.case by (rule fl) (use b3 in simp)
  next
    case (Inr p)
    show ?thesis unfolding Inr sum.case yields_simps prod.case if_True busy_frame by (rule b3)
  qed
  show ?thesis unfolding bind_and_connect_udp_def busy_get [OF b] v bind.bind_lunit Let_def fill prod.case
    by (intro yields_if cl fl [OF b1] fl [OF b2] fl [OF b3] sn) (simp add: um b3 del: log_op_fields)
qed

lemma pending_calm:
  assumes "calm K S ids i tun"
  shows "yields (upd_zc i (check_dns_request payload) tun) (calm K S ids i)"
  by (rule calm_upd [OF assms]) (auto simp: check_dns_request_def same_kind_def zc_static_def split: option.split)

lemma handle_udp_fwd_calm:
  fixes env :: "'u zdtun_env"
  assumes e: "zdtun_client env K" and b: "busy K S ids i c tun" and r: "zc_rest K c" and p: "pkt_payload pkt \<noteq> None" and u: "is_udp c"
    and cl: "\<not> closed (zc_status c)"
  shows "yields (handle_udp_fwd env pkt i tun) (\<lambda>(rv, t). calm K S ids i t)"
proof -
  let ?Q = "\<lambda>(ok, t). if ok then \<exists>d. busy K S ids i d t \<and> zc_rest K d \<and> zc_sock d \<noteq> INVALID_SOCKET else calm K S ids i t"
  have up: "yields (if zc_status c = CONN_STATUS_NEW
       then let (s, t) = open_socket env IPPROTO_UDP tun
         in if s = INVALID_SOCKET then Some (False, t)
         else upd_zc i (\<lambda>c. c\<lparr>zc_sock := s\<rparr>) t \<bind> (\<lambda>t1. bind_and_connect_udp env i t1 \<bind> (\<lambda>(ok, t2).
           if \<not> ok then Some (False, t2) else upd_zc i (\<lambda>c. c\<lparr>zc_status := CONN_STATUS_CONNECTED\<rparr>) t2 \<bind> (\<lambda>t3. Some (True, t3))))
       else Some (True, tun)) ?Q"
  proof (rule yields_if)
    assume n: "zc_status c = CONN_STATUS_NEW"
    then have i0: "zc_sock c = INVALID_SOCKET" using r by (simp add: zc_rest_def)
    obtain s t where st: "open_socket env IPPROTO_UDP tun = (s, t)" by (cases "open_socket env IPPROTO_UDP tun")
    show "yields (let (s, t) = open_socket env IPPROTO_UDP tun
         in if s = INVALID_SOCKET then Some (False, t)
         else upd_zc i (\<lambda>c. c\<lparr>zc_sock := s\<rparr>) t \<bind> (\<lambda>t1. bind_and_connect_udp env i t1 \<bind> (\<lambda>(ok, t2).
           if \<not> ok then Some (False, t2) else upd_zc i (\<lambda>c. c\<lparr>zc_status := CONN_STATUS_CONNECTED\<rparr>) t2 \<bind> (\<lambda>t3. Some (True, t3))))) ?Q"
    proof (cases "s = INVALID_SOCKET")
      case True
      have "busy K S ids i c t" using open_socket_fail_busy [OF e b] st True by simp
      then show ?thesis using st True calmI r by simp
    next
      case False
      let ?d = "c\<lparr>zc_sock := s\<rparr>"
      have g: "get_zc i t = Some c" using busy_get [OF b] open_socket_done(5) [OF e st False] by (simp add: get_zc_def)
      have sd: "zc_static ?d" using busy_static [OF b] open_socket_done(1,2) [OF e st False] n by (simp add: zc_static_def)
      have b1: "busy K S ids i ?d (set_zc i ?d t)" by (rule open_socket_busy [OF e b i0 st False]) (use sd in simp_all)
      have u1: "upd_zc i (\<lambda>c. c\<lparr>zc_sock := s\<rparr>) t = Some (set_zc i ?d t)" by (simp add: upd_zc_def g)
      have sock: "zc_sock ?d \<noteq> INVALID_SOCKET" using False by simp
      show ?thesis unfolding st Let_def prod.case if_not_P [OF False] u1 bind.bind_lunit
      proof (rule yields_bind [OF bind_and_connect_busy [OF e b1 sock]], clarify)
        fix ok and t2 :: "'u zdtun" assume q: "if ok then busy K S ids i ?d t2 else shut K S ids i t2"
        let ?k = "?d\<lparr>zc_status := CONN_STATUS_CONNECTED\<rparr>"
        show "yields (if \<not> ok then Some (False, t2) else upd_zc i (\<lambda>c. c\<lparr>zc_status := CONN_STATUS_CONNECTED\<rparr>) t2 \<bind> (\<lambda>t3. Some (True, t3))) ?Q"
        proof (rule yields_if)
          assume "\<not> ok" then show "yields (Some (False, t2)) ?Q" using q shut_calm by simp
        next
          assume "\<not> \<not> ok"
          then have b2: "busy K S ids i ?d t2" using q by simp
          show "yields (upd_zc i (\<lambda>c. c\<lparr>zc_status := CONN_STATUS_CONNECTED\<rparr>) t2 \<bind> (\<lambda>t3. Some (True, t3))) ?Q"
          proof (rule yields_bind [OF busy_upd [OF b2]])
            show "kept ?d ?k" "zc_static ?k" using sd n by (simp_all add: zc_static_def kept_def)
            fix t3 :: "'u zdtun" assume "busy K S ids i ?k t3"
            moreover have "zc_rest K ?k" "zc_sock ?k \<noteq> INVALID_SOCKET" using False by (simp_all add: zc_rest_def)
            ultimately have "\<exists>d. busy K S ids i d t3 \<and> zc_rest K d \<and> zc_sock d \<noteq> INVALID_SOCKET" by blast
            then show "yields (Some (True, t3)) ?Q" by simp
          qed
        qed
      qed
    qed
  next
    assume "zc_status c \<noteq> CONN_STATUS_NEW"
    then have "zc_sock c \<noteq> INVALID_SOCKET" using r u cl by (simp add: zc_rest_def)
    then show "yields (Some (True, tun)) ?Q" using b r by auto
  qed
  show ?thesis unfolding handle_udp_fwd_def busy_get [OF b] bind.bind_lunit
  proof (rule yields_bind [OF up], clarify)
    fix ok and t :: "'u zdtun"
    assume q: "if ok then \<exists>d. busy K S ids i d t \<and> zc_rest K d \<and> zc_sock d \<noteq> INVALID_SOCKET else calm K S ids i t"
    show "yields (if \<not> ok then Some (- 1 :: int, t) else get_zc i t \<bind> (\<lambda>c. account_packet env pkt True c (z_data t) \<bind> (\<lambda>u. pkt_payload pkt \<bind> (\<lambda>payload.
        let (r, tun1) = sock_send env (zc_sock c) payload (t\<lparr>z_data := u\<rparr>) in case r of
          Inl e \<Rightarrow> close_with_socket_error env i e tun1 \<bind> (\<lambda>(rv, t). Some (0 :: int, t))
        | Inr n \<Rightarrow> upd_zc i (check_dns_request payload) tun1 \<bind> (\<lambda>t. Some (0 :: int, t)))))) (\<lambda>(rv, t). calm K S ids i t)"
    proof (rule yields_if)
      assume "\<not> ok" then show "yields (Some (- 1 :: int, t)) (\<lambda>(rv, t). calm K S ids i t)" using q by simp
    next
      assume "\<not> \<not> ok"
      then obtain d where d: "busy K S ids i d t" "zc_rest K d" "zc_sock d \<noteq> INVALID_SOCKET" using q by auto
      obtain w where w: "account_packet env pkt True d (z_data t) = Some w" and d1: "busy K S ids i d (t\<lparr>z_data := w\<rparr>)"
        using busy_client(2) [OF e d(1), of pkt True] by blast
      obtain payload where pl: "pkt_payload pkt = Some payload" using p by blast
      obtain q t1 where sd: "sock_send env (zc_sock d) payload (t\<lparr>z_data := w\<rparr>) = (q, t1)" "busy K S ids i d t1" using sock_send_busy [OF d1 d(3)] by blast
      have err: "yields (close_with_socket_error env i x t1 \<bind> (\<lambda>(rv, t). Some (0 :: int, t))) (\<lambda>(rv, t). calm K S ids i t)" for x
        by (rule yields_bind [OF close_err_calm [OF e sd(2)]]) auto
      have ok: "yields (upd_zc i (check_dns_request payload) t1 \<bind> (\<lambda>t. Some (0 :: int, t))) (\<lambda>(rv, t). calm K S ids i t)"
        by (rule yields_bind [OF pending_calm [OF calmI [OF sd(2) d(2)]]]) simp
      show "yields (get_zc i t \<bind> (\<lambda>c. account_packet env pkt True c (z_data t) \<bind> (\<lambda>u. pkt_payload pkt \<bind> (\<lambda>payload.
        let (r, tun1) = sock_send env (zc_sock c) payload (t\<lparr>z_data := u\<rparr>) in case r of
          Inl e \<Rightarrow> close_with_socket_error env i e tun1 \<bind> (\<lambda>(rv, t). Some (0 :: int, t))
        | Inr n \<Rightarrow> upd_zc i (check_dns_request payload) tun1 \<bind> (\<lambda>t. Some (0 :: int, t)))))) (\<lambda>(rv, t). calm K S ids i t)"
        unfolding busy_get [OF d(1)] bind.bind_lunit w pl sd(1) Let_def prod.case using err ok by (simp split: sum.split)
    qed
  qed
qed

lemma handle_icmp_fwd_calm:
  fixes env :: "'u zdtun_env"
  assumes e: "zdtun_client env K" and b: "busy K S ids i c tun" and r: "zc_rest K c" and u: "\<not> is_tcp c"
    and p: "rd16 (p_buf pkt) (tcp_off pkt + 4) \<noteq> None" "pkt_l4 pkt \<noteq> None"
    and cl: "\<not> closed (zc_status c)"
  shows "yields (handle_icmp_fwd env pkt i tun) (\<lambda>(rv, t). calm K S ids i t)"
proof -
  let ?Q = "\<lambda>(ok, t). if ok then \<exists>d. busy K S ids i d t \<and> zc_rest K d \<and> zc_sock d \<noteq> INVALID_SOCKET else calm K S ids i t"
  obtain x where x: "rd16 (p_buf pkt) (tcp_off pkt + 4) = Some x" using p by blast
  have op: "yields (if zc_status c = CONN_STATUS_NEW
       then sock_ipver tun c \<bind> (\<lambda>ver. let (s, t) = open_socket env (if ver = 4 then IPPROTO_ICMP else IPPROTO_ICMPV6) tun
         in if s = INVALID_SOCKET then upd_zc i (\<lambda>c. c\<lparr>zc_status := CONN_STATUS_SOCKET_ERROR\<rparr>) t \<bind> (\<lambda>t1. Some (False, t1))
         else rd16 (p_buf pkt) (tcp_off pkt + 4) \<bind> (\<lambda>e.
           upd_zc i (\<lambda>c. set_echo_id e (c\<lparr>zc_sock := s, zc_status := CONN_STATUS_CONNECTED\<rparr>)) t \<bind> (\<lambda>t1. Some (True, t1))))
       else Some (True, tun)) ?Q"
  proof (rule yields_if)
    assume n: "zc_status c = CONN_STATUS_NEW"
    then have i0: "zc_sock c = INVALID_SOCKET" using r by (simp add: zc_rest_def)
    obtain v where v: "sock_ipver tun c = Some v" using sock_ipver_ok [OF busy_static [OF b]] by blast
    obtain s t where st: "open_socket env (if v = 4 then IPPROTO_ICMP else IPPROTO_ICMPV6) tun = (s, t)"
      by (cases "open_socket env (if v = 4 then IPPROTO_ICMP else IPPROTO_ICMPV6) tun")
    show "yields (sock_ipver tun c \<bind> (\<lambda>ver. let (s, t) = open_socket env (if ver = 4 then IPPROTO_ICMP else IPPROTO_ICMPV6) tun
         in if s = INVALID_SOCKET then upd_zc i (\<lambda>c. c\<lparr>zc_status := CONN_STATUS_SOCKET_ERROR\<rparr>) t \<bind> (\<lambda>t1. Some (False, t1))
         else rd16 (p_buf pkt) (tcp_off pkt + 4) \<bind> (\<lambda>e.
           upd_zc i (\<lambda>c. set_echo_id e (c\<lparr>zc_sock := s, zc_status := CONN_STATUS_CONNECTED\<rparr>)) t \<bind> (\<lambda>t1. Some (True, t1))))) ?Q"
    proof (cases "s = INVALID_SOCKET")
      case True
      have bt: "busy K S ids i c t" using open_socket_fail_busy [OF e b] st True by simp
      show ?thesis unfolding v bind.bind_lunit st Let_def prod.case if_P [OF True]
      proof (rule yields_bind [OF close_upd [OF e bt]])
        show "zc_sock (c\<lparr>zc_status := CONN_STATUS_SOCKET_ERROR\<rparr>) = zc_sock c" "user_data (c\<lparr>zc_status := CONN_STATUS_SOCKET_ERROR\<rparr>) = user_data c"
          "closed (zc_status (c\<lparr>zc_status := CONN_STATUS_SOCKET_ERROR\<rparr>))" "zc_static (c\<lparr>zc_status := CONN_STATUS_SOCKET_ERROR\<rparr>)"
          using busy_static [OF b] i0 by (simp_all add: zc_static_def)
        fix t1 :: "'u zdtun" assume "busy K S ids i (c\<lparr>zc_status := CONN_STATUS_SOCKET_ERROR\<rparr>) t1"
        then have "calm K S ids i t1" by (rule calmI) (simp add: zc_rest_def)
        then show "yields (Some (False, t1)) ?Q" by simp
      qed
    next
      case False
      let ?d = "set_echo_id x (c\<lparr>zc_sock := s, zc_status := CONN_STATUS_CONNECTED\<rparr>)"
      have g: "get_zc i t = Some c" using busy_get [OF b] open_socket_done(5) [OF e st False] by (simp add: get_zc_def)
      have sd: "zc_static ?d" using busy_static [OF b] open_socket_done(1,2) [OF e st False] by (simp add: zc_static_def set_echo_id_def)
      have sk: "zc_sock ?d = s" by (simp add: set_echo_id_def)
      have b1: "busy K S ids i ?d (set_zc i ?d t)" by (rule open_socket_busy [OF e b i0 st False sk sd]) (simp_all add: set_echo_id_def n)
      have rd: "zc_rest K ?d" using False by (simp add: zc_rest_def set_echo_id_def)
      have nd: "zc_sock ?d \<noteq> INVALID_SOCKET" unfolding sk by (rule False)
      have "\<exists>d. busy K S ids i d (set_zc i ?d t) \<and> zc_rest K d \<and> zc_sock d \<noteq> INVALID_SOCKET" by (intro exI conjI) (rule b1 rd nd)+
      moreover have u: "upd_zc i (\<lambda>c. set_echo_id x (c\<lparr>zc_sock := s, zc_status := CONN_STATUS_CONNECTED\<rparr>)) t = Some (set_zc i ?d t)"
        unfolding upd_zc_def g bind.bind_lunit ..
      ultimately show ?thesis unfolding v bind.bind_lunit st Let_def prod.case if_not_P [OF False] x u yields_simps if_True by blast
    qed
  next
    assume "zc_status c \<noteq> CONN_STATUS_NEW"
    then have "zc_sock c \<noteq> INVALID_SOCKET" using r u cl by (simp add: zc_rest_def)
    then show "yields (Some (True, tun)) ?Q" using b r by auto
  qed
  show ?thesis unfolding handle_icmp_fwd_def busy_get [OF b] bind.bind_lunit
  proof (rule yields_bind [OF op], clarify)
    fix ok and t :: "'u zdtun"
    assume q: "if ok then \<exists>d. busy K S ids i d t \<and> zc_rest K d \<and> zc_sock d \<noteq> INVALID_SOCKET else calm K S ids i t"
    show "yields (if \<not> ok then Some (- 1 :: int, t) else get_zc i t \<bind> (\<lambda>c. account_packet env pkt True c (z_data t) \<bind> (\<lambda>u. pkt_l4 pkt \<bind> (\<lambda>msg.
        fill_conn_sockaddr t c \<bind> (\<lambda>addr. let (r, tun1) = sock_send env (zc_sock c) msg (t\<lparr>z_data := u\<rparr>) in case r of
          Inl e \<Rightarrow> close_with_socket_error env i e tun1 \<bind> (\<lambda>(rv, t). Some (- 1 :: int, t))
        | Inr n \<Rightarrow> Some (0, tun1)))))) (\<lambda>(rv, t). calm K S ids i t)"
    proof (rule yields_if)
      assume "\<not> ok" then show "yields (Some (- 1 :: int, t)) (\<lambda>(rv, t). calm K S ids i t)" using q by simp
    next
      assume "\<not> \<not> ok"
      then obtain d where d: "busy K S ids i d t" "zc_rest K d" "zc_sock d \<noteq> INVALID_SOCKET" using q by auto
      obtain w where w: "account_packet env pkt True d (z_data t) = Some w" and d1: "busy K S ids i d (t\<lparr>z_data := w\<rparr>)"
        using busy_client(2) [OF e d(1), of pkt True] by blast
      obtain msg where pl: "pkt_l4 pkt = Some msg" using p by blast
      obtain addr where addr: "fill_conn_sockaddr t d = Some addr" using fill_conn_sockaddr_ok [OF busy_static [OF d(1)]] by blast
      obtain q t1 where sd: "sock_send env (zc_sock d) msg (t\<lparr>z_data := w\<rparr>) = (q, t1)" "busy K S ids i d t1" using sock_send_busy [OF d1 d(3)] by blast
      have err: "yields (close_with_socket_error env i x t1 \<bind> (\<lambda>(rv, t). Some (- 1 :: int, t))) (\<lambda>(rv, t). calm K S ids i t)" for x
        by (rule yields_bind [OF close_err_calm [OF e sd(2)]]) auto
      show "yields (get_zc i t \<bind> (\<lambda>c. account_packet env pkt True c (z_data t) \<bind> (\<lambda>u. pkt_l4 pkt \<bind> (\<lambda>msg.
        fill_conn_sockaddr t c \<bind> (\<lambda>addr. let (r, tun1) = sock_send env (zc_sock c) msg (t\<lparr>z_data := u\<rparr>) in case r of
          Inl e \<Rightarrow> close_with_socket_error env i e tun1 \<bind> (\<lambda>(rv, t). Some (- 1 :: int, t))
        | Inr n \<Rightarrow> Some (0, tun1)))))) (\<lambda>(rv, t). calm K S ids i t)"
        unfolding busy_get [OF d(1)] bind.bind_lunit w pl addr sd(1) Let_def prod.case using err calmI [OF sd(2) d(2)] by (simp split: sum.split)
    qed
  qed
qed

section \<open>Replies\<close>

lemma build_udp_ok:
  assumes "length body \<le> 65459"
  shows "\<exists>pkt. build_reply_udp ver t body = Some pkt \<and> good_reply pkt"
proof -
  let ?n = "of_nat (length body) + of_nat UDP_HEADER_LEN :: u16"
  obtain h where h: "zdtun_make_iphdr ver t ?n = Some h" "length h = zdtun_iphdr_len ver" using make_iphdr_ok by blast
  have n: "unat ?n \<le> length (udp_header t ?n 0 @ body)" using assms unat_of_nat16 [of "length body + 8"] by simp
  obtain c where c: "zdtun_l3_checksum ver (ipproto t) h (udp_header t ?n 0 @ body) ?n = Some c" using l3_checksum_ok [OF n h(1)] by blast
  have "good_reply (h @ udp_header t ?n k @ body)" for k by (rule iphdr_good [OF h(1)]) (use assms h(2) in \<open>simp add: zdtun_iphdr_len_def\<close>)
  then show ?thesis using h c by (cases "ver = 4") (simp_all add: build_reply_udp_def Let_def)
qed

lemma wr_ok: "i + length bs \<le> length b \<Longrightarrow> \<exists>d. wr b i bs = Some d \<and> length d = length b"
  by (simp add: wr_def)

lemma icmp_set_ok:
  assumes "8 \<le> length dat"
  shows "\<exists>d. icmp_set dat x y = Some d \<and> length d = length dat"
proof -
  obtain d where d: "wr dat 4 (put16 x) = Some d" "length d = length dat" using wr_ok [of 4 "put16 x" dat] assms by auto
  then show ?thesis using wr_ok [of 2 "put16 y" d] assms by (simp add: icmp_set_def)
qed

lemma build_icmp_ok:
  assumes "8 \<le> length dat" "length dat \<le> 65459"
  shows "\<exists>pkt. build_reply_icmp ver t dat = Some pkt \<and> good_reply pkt"
proof -
  let ?n = "of_nat (length dat) :: u16"
  obtain d0 where d0: "icmp_set dat (src_port t) 0 = Some d0" "length d0 = length dat" using icmp_set_ok [OF assms(1)] by blast
  obtain h where h: "zdtun_make_iphdr ver t ?n = Some h" "length h = zdtun_iphdr_len ver" using make_iphdr_ok by blast
  have n: "unat ?n \<le> length d0" using assms d0(2) unat_of_nat16 [of "length dat"] by simp
  obtain c where c: "zdtun_l3_checksum ver (ipproto t) h d0 ?n = Some c" using l3_checksum_ok [OF n h(1)] by blast
  obtain k where k: "calc_checksum 0 d0 ?n = Some k" using calc_checksum_eq [OF n] by blast
  have "\<exists>cks. (if ver = 4 then calc_checksum 0 d0 ?n \<bind> (\<lambda>c. Some (NOT c))
      else if ver = 6 then zdtun_l3_checksum ver (ipproto t) h d0 ?n else Some 0) = Some cks"
    unfolding c k by simp
  then obtain cks where cks: "(if ver = 4 then calc_checksum 0 d0 ?n \<bind> (\<lambda>c. Some (NOT c))
      else if ver = 6 then zdtun_l3_checksum ver (ipproto t) h d0 ?n else Some 0) = Some cks" by blast
  obtain d1 where d1: "icmp_set dat (src_port t) cks = Some d1" "length d1 = length dat" using icmp_set_ok [OF assms(1)] by blast
  have "build_reply_icmp ver t dat = Some (h @ d1)"
    unfolding build_reply_icmp_def Let_def d0(1) h(1) bind.bind_lunit cks d1(1) by simp
  moreover have "good_reply (h @ d1)" by (rule iphdr_good [OF h(1)]) (use assms(2) h(2) d1(2) in \<open>simp add: zdtun_iphdr_len_def\<close>)
  ultimately show ?thesis by blast
qed

lemma sent_any_calm: "sent_or_shut K S ids i c x \<Longrightarrow> zc_rest K c \<Longrightarrow> case x of (rv, t) \<Rightarrow> calm K S ids i t"
  using sent_calm by (cases x) auto

lemma handle_icmp_reply_calm:
  fixes env :: "'u zdtun_env"
  assumes e: "zdtun_client env K" and b: "busy K S ids i c tun" and r: "zc_rest K c" and s: "zc_sock c \<noteq> INVALID_SOCKET"
  shows "yields (handle_icmp_reply env i tun) (\<lambda>(rv, t). calm K S ids i t)"
proof -
  obtain v where v: "sock_ipver tun c = Some v" using sock_ipver_ok [OF busy_static [OF b]] by blast
  let ?k = "zdtun_iphdr_len v"
  have o: "?k + (REPLY_BUF_SIZE - ?k) \<le> REPLY_BUF_SIZE" by (simp add: zdtun_iphdr_len_def)
  show ?thesis unfolding handle_icmp_reply_def busy_get [OF b] v bind.bind_lunit Let_def
  proof (rule yields_bind [OF recv_busy [OF e b s o]], clarify)
    fix q :: "sock_err + byte list" and t1 :: "'u zdtun"
    assume q: "busy K S ids i c t1" "case q of Inl e \<Rightarrow> True | Inr bs \<Rightarrow> length bs \<le> REPLY_BUF_SIZE - ?k \<and> length bs \<le> 65459"
    have err: "yields (close_with_socket_error env i x t1 \<bind> (\<lambda>(rv, t). Some (- 1 :: int, t))) (\<lambda>(rv, t). calm K S ids i t)" for x
      by (rule yields_bind [OF close_err_calm [OF e q(1)]]) auto
    show "yields (case q of Inl a \<Rightarrow> close_with_socket_error env i a t1 \<bind> (\<lambda>(rv, t). Some (- 1 :: int, t))
        | Inr bs \<Rightarrow> if length bs < 8 then zdtun_conn_close env i CONN_STATUS_ERROR t1 \<bind> (\<lambda>t. Some (- 1, t))
          else if \<not> is_echo_type (bs ! 0) then zdtun_conn_close env i CONN_STATUS_ERROR t1 \<bind> (\<lambda>t. Some (0, t))
          else touch_zc env i t1 \<bind> (\<lambda>tun1. build_reply_icmp v (zc_tuple c) bs \<bind> (\<lambda>pkt. send_to_client env i pkt tun1))) (\<lambda>(rv, t). calm K S ids i t)"
    proof (cases q)
      case (Inl a)
      then show ?thesis using err by simp
    next
      case (Inr bs)
      have ok: "yields (touch_zc env i t1 \<bind> (\<lambda>tun1. build_reply_icmp v (zc_tuple c) bs \<bind> (\<lambda>pkt. send_to_client env i pkt tun1))) (\<lambda>(rv, t). calm K S ids i t)"
        if "\<not> length bs < 8"
      proof (rule yields_bind [OF touch_busy [OF q(1)]], elim exE)
        fix t2 :: "'u zdtun" and now assume b2: "busy K S ids i (c\<lparr>zc_tstamp := now\<rparr>) t2"
        have r2: "zc_rest K (c\<lparr>zc_tstamp := now\<rparr>)" using r by (simp add: zc_rest_def)
        have l: "length bs \<le> 65459" using q(2) Inr by simp
        have l8: "8 \<le> length bs" using that by simp
        obtain pkt where pkt: "build_reply_icmp v (zc_tuple c) bs = Some pkt" "good_reply pkt" using build_icmp_ok [OF l8 l] by blast
        show "yields (build_reply_icmp v (zc_tuple c) bs \<bind> (\<lambda>pkt. send_to_client env i pkt t2)) (\<lambda>(rv, t). calm K S ids i t)"
          unfolding pkt(1) bind.bind_lunit by (rule yields_mono [OF send_to_client_ok [OF e b2 pkt(2)] sent_any_calm [OF _ r2]])
      qed
      show ?thesis unfolding Inr sum.case by (intro yields_if close_calm [OF e q(1)] ok)
    qed
  qed
qed

lemma check_dns_purge_calm:
  assumes e: "zdtun_client env K" and b: "calm K S ids i tun"
  shows "yields (check_dns_purge env i payload tun) (calm K S ids i)"
proof -
  obtain c where c: "busy K S ids i c tun" "zc_rest K c" using b by (auto simp: calm_def)
  let ?d = "c\<lparr>pending_queries := pending_queries c - 1\<rparr>"
  have k: "zc_static ?d" "kept c ?d" "zc_rest K ?d" using busy_static [OF c(1)] c(2) by (simp_all add: zc_static_def zc_rest_def kept_def)
  have d: "busy K S ids i ?d (set_zc i ?d tun)" by (rule busy_set [OF c(1) k(2,1)])
  show ?thesis
  proof (cases "dns_flags c payload")
    case None
    then show ?thesis using b by (simp add: check_dns_purge_def busy_get [OF c(1)])
  next
    case (Some f)
    show ?thesis unfolding check_dns_purge_def busy_get [OF c(1)] bind.bind_lunit Some option.case Let_def
      by (intro yields_if conn_close_calm [OF e d]) (use calmI [OF d k(3)] b in \<open>simp_all only: yields_simps\<close>)
  qed
qed

lemma handle_udp_reply_calm:
  fixes env :: "'u zdtun_env"
  assumes e: "zdtun_client env K" and b: "busy K S ids i c tun" and r: "zc_rest K c" and s: "zc_sock c \<noteq> INVALID_SOCKET"
  shows "yields (handle_udp_reply env i tun) (\<lambda>(rv, t). calm K S ids i t)"
proof -
  obtain v where v: "sock_ipver tun c = Some v" using sock_ipver_ok [OF busy_static [OF b]] by blast
  let ?k = "zdtun_iphdr_len v + UDP_HEADER_LEN"
  have o: "?k + (REPLY_BUF_SIZE - ?k) \<le> REPLY_BUF_SIZE" by (simp add: zdtun_iphdr_len_def)
  show ?thesis unfolding handle_udp_reply_def busy_get [OF b] v bind.bind_lunit Let_def
  proof (rule yields_bind [OF recv_busy [OF e b s o]], clarify)
    fix q :: "sock_err + byte list" and t1 :: "'u zdtun"
    assume q: "busy K S ids i c t1" "case q of Inl e \<Rightarrow> True | Inr bs \<Rightarrow> length bs \<le> REPLY_BUF_SIZE - ?k \<and> length bs \<le> 65459"
    have err: "yields (close_with_socket_error env i x t1 \<bind> (\<lambda>(rv, t). Some (- 1 :: int, t))) (\<lambda>(rv, t). calm K S ids i t)" for x
      by (rule yields_bind [OF close_err_calm [OF e q(1)]]) auto
    have fin: "yields (touch_zc env i t2 \<bind> (\<lambda>tun2. check_dns_purge env i bs tun2 \<bind> (\<lambda>tun3. Some (0 :: int, tun3)))) (\<lambda>(rv, t). calm K S ids i t)"
      if "calm K S ids i t2" for t2 :: "'u zdtun" and bs
    proof (rule yields_bind [OF touch_calm [OF that]])
      fix t3 :: "'u zdtun" assume "calm K S ids i t3"
      then show "yields (check_dns_purge env i bs t3 \<bind> (\<lambda>tun3. Some (0 :: int, tun3))) (\<lambda>(rv, t). calm K S ids i t)"
        by (rule yields_bind [OF check_dns_purge_calm [OF e]]) simp
    qed
    show "yields (case q of Inl a \<Rightarrow> close_with_socket_error env i a t1 \<bind> (\<lambda>(rv, t). Some (- 1 :: int, t))
        | Inr bs \<Rightarrow> build_reply_udp v (zc_tuple c) bs \<bind> (\<lambda>pkt. send_to_client env i pkt t1 \<bind> (\<lambda>(rv, tun1).
            if rv = 0 then touch_zc env i tun1 \<bind> (\<lambda>tun2. check_dns_purge env i bs tun2 \<bind> (\<lambda>tun3. Some (0, tun3))) else Some (rv, tun1)))) (\<lambda>(rv, t). calm K S ids i t)"
    proof (cases q)
      case (Inl a)
      then show ?thesis using err by simp
    next
      case (Inr bs)
      have l: "length bs \<le> 65459" using q(2) Inr by simp
      obtain pkt where pkt: "build_reply_udp v (zc_tuple c) bs = Some pkt" "good_reply pkt" using build_udp_ok [OF l] by blast
      show ?thesis unfolding Inr sum.case pkt(1) bind.bind_lunit
      proof (rule yields_bind [OF send_to_client_ok [OF e q(1) pkt(2)]], clarify)
        fix rv and t2 :: "'u zdtun" assume "sent_or_shut K S ids i c (rv, t2)"
        then have "calm K S ids i t2" by (rule sent_calm [OF _ r])
        then show "yields (if rv = 0 then touch_zc env i t2 \<bind> (\<lambda>tun2. check_dns_purge env i bs tun2 \<bind> (\<lambda>tun3. Some (0, tun3))) else Some (rv, t2)) (\<lambda>(rv, t). calm K S ids i t)"
          using fin by simp
      qed
    qed
  qed
qed

end
