(* ===== verification/Zdtun_Session.thy ===== *)
theory Zdtun_Session
  imports Zdtun_Udp_Safety "HOL-Library.Multiset"
begin

text \<open>
  The table of connections, and a whole session: every sequence of client packets, ready descriptors, expiry and closes
  returns without an invalid memory access and keeps every socket accounted for, and \<open>zdtun_finalize\<close> leaves none open.
\<close>

section \<open>Forwarding\<close>

text \<open>A packet whose headers and payload lie in its buffer, as the parser accepts them.\<close>

definition fwd_ok :: "zdtun_pkt \<Rightarrow> bool" where
  "fwd_ok p \<longleftrightarrow> pkt_payload p \<noteq> None \<and> pkt_l4 p \<noteq> None \<and>
     (ipproto (p_tuple p) = IPPROTO_TCP \<longrightarrow> read_tcp p \<noteq> None) \<and>
     (ipproto (p_tuple p) = IPPROTO_ICMP \<longrightarrow> rd16 (p_buf p) (tcp_off p + 4) \<noteq> None)"

text \<open>A connection a packet can be forwarded for: at rest, or just added.\<close>

definition can_forward :: "'u app \<Rightarrow> zdtun_pkt \<Rightarrow> zdtun_conn \<Rightarrow> bool" where
  "can_forward K p c \<longleftrightarrow> ipproto (zc_tuple c) = ipproto (p_tuple p) \<and>
     (zc_rest K c \<or> is_tcp c \<and> zc_status c = CONN_STATUS_NEW \<and> zc_sock c = INVALID_SOCKET) \<and>
     (is_tcp c \<and> zc_status c = CONN_STATUS_NEW \<longrightarrow> syn_ok p)"

lemma zdtun_forward_calm:
  fixes env :: "'u zdtun_env"
  assumes e: "zdtun_client env K" and b: "busy K S ids i c tun" and p: "fwd_ok pkt" and f: "can_forward K pkt c"
    and k: "ipproto (p_tuple pkt) \<in> {IPPROTO_TCP, IPPROTO_UDP, IPPROTO_ICMP}"
  shows "yields (zdtun_forward env pkt i tun) (\<lambda>(rv, t). calm K S ids i t)"
proof (cases "closed (zc_status c)")
  case True
  then show ?thesis using calmI [OF b closed_rest] by (simp add: zdtun_forward_def busy_get [OF b])
next
  case False
  have r: "zc_rest K c" if "\<not> is_tcp c" using f that by (simp add: can_forward_def)
  have pr: "ipproto (zc_tuple c) = ipproto (p_tuple pkt)" using f by (simp add: can_forward_def)
  let ?h = "if ipproto (p_tuple pkt) = IPPROTO_TCP then handle_tcp_fwd env pkt i tun
     else if ipproto (p_tuple pkt) = IPPROTO_UDP then handle_udp_fwd env pkt i tun
     else if ipproto (p_tuple pkt) = IPPROTO_ICMP then handle_icmp_fwd env pkt i tun else Some (-2, tun)"
  have h: "yields ?h (\<lambda>(rv, t). calm K S ids i t)"
  proof (intro yields_if)
    assume t: "ipproto (p_tuple pkt) = IPPROTO_TCP"
    show "yields (handle_tcp_fwd env pkt i tun) (\<lambda>(rv, t). calm K S ids i t)"
      by (rule handle_tcp_fwd_calm [OF e b]) (use p f t in \<open>auto simp: fwd_ok_def can_forward_def zc_rest_def\<close>)
  next
    assume "ipproto (p_tuple pkt) = IPPROTO_UDP"
    then show "yields (handle_udp_fwd env pkt i tun) (\<lambda>(rv, t). calm K S ids i t)"
      by (intro handle_udp_fwd_calm [OF e b r]) (use p pr False in \<open>simp_all add: fwd_ok_def\<close>)
  next
    assume "ipproto (p_tuple pkt) = IPPROTO_ICMP"
    then show "yields (handle_icmp_fwd env pkt i tun) (\<lambda>(rv, t). calm K S ids i t)"
      by (intro handle_icmp_fwd_calm [OF e b r]) (use p pr False in \<open>simp_all add: fwd_ok_def\<close>)
  next
    assume "ipproto (p_tuple pkt) \<noteq> IPPROTO_TCP" "ipproto (p_tuple pkt) \<noteq> IPPROTO_UDP" "ipproto (p_tuple pkt) \<noteq> IPPROTO_ICMP"
    then show "yields (Some (-2, tun)) (\<lambda>(rv, t). calm K S ids i t)" using k by simp
  qed
  show ?thesis unfolding zdtun_forward_def busy_get [OF b] bind.bind_lunit if_not_P [OF False] Let_def
  proof (rule yields_bind [OF h], clarify)
    fix rv :: int and t :: "'u zdtun" assume t: "calm K S ids i t"
    have "yields (upd_zc i (\<lambda>c. c\<lparr>zc_tstamp := now\<rparr>) (snd (zdtun_now env t)) \<bind> (\<lambda>tun3. Some (0 :: int, tun3))) (\<lambda>(rv, t). calm K S ids i t)" for now
      by (rule yields_bind [OF calm_upd]) (use t in \<open>simp_all add: zdtun_now_def Let_def same_kind_def zc_static_def\<close>)
    then show "yields (if rv = 0 then case zdtun_now env t of (now, tun2) \<Rightarrow> upd_zc i (\<lambda>c. c\<lparr>zc_tstamp := now\<rparr>) tun2 \<bind> (\<lambda>tun3. Some (0 :: int, tun3))
        else Some (rv, t)) (\<lambda>(rv, t). calm K S ids i t)" using t by (simp add: case_prod_unfold)
  qed
qed

section \<open>Ready descriptors\<close>

lemma handle_conn_fd_rest:
  assumes e: "zdtun_client env K" and t: "rest K S ids tun" and i: "i \<in> set ids"
  shows "yields (handle_conn_fd env rd_fds wr_fds i tun) (\<lambda>(rv, t). rest K S ids t)"
proof -
  obtain c where c: "get_zc i tun = Some c" "\<not> closed (zc_status c) \<Longrightarrow> busy K S ids i c tun" "zc_static c" "zc_rest K c" using rest_obtain [OF t i] by metis
  show ?thesis
  proof (cases "zc_sock c = INVALID_SOCKET")
    case True
    then show ?thesis using t by (simp add: handle_conn_fd_def c(1))
  next
    case False
    then have b: "busy K S ids i c tun" using c(2,3) by (simp add: zc_static_def)
    have z: "yields (Some (0, tun)) (\<lambda>(rv, t). calm K S ids i t)" using calmI [OF b c(4)] by simp
    have "yields (handle_conn_fd env rd_fds wr_fds i tun) (\<lambda>(rv, t). calm K S ids i t)"
      unfolding handle_conn_fd_def c(1) bind.bind_lunit
      by (intro yields_if z handle_tcp_reply_calm [OF e b c(4)] handle_udp_reply_calm [OF e b c(4)] handle_icmp_reply_calm [OF e b c(4)]
          handle_queued_calm [OF e b c(4)] handle_tcp_connect_async_calm [OF e b]) simp_all
    then show ?thesis by (rule yields_mono) (auto intro: calm_rest)
  qed
qed

lemma handle_fds_rest:
  "zdtun_client env K \<Longrightarrow> rest K S ids tun \<Longrightarrow> set is \<subseteq> set ids \<Longrightarrow> yields (handle_fds env rd_fds wr_fds is tun) (\<lambda>(rv, t). rest K S ids t)"
proof (induction "is" arbitrary: tun)
  case (Cons i "is")
  have i: "i \<in> set ids" "set is \<subseteq> set ids" using Cons.prems(3) by simp_all
  show ?case unfolding handle_fds.simps
  proof (rule yields_bind [OF handle_conn_fd_rest [OF Cons.prems(1,2) i(1)]])
    fix x :: "int \<times> 'a zdtun" assume "case x of (rv, t) \<Rightarrow> rest K S ids t"
    then show "yields (case x of (rv, tun1) \<Rightarrow> if rv \<noteq> 0 then Some (rv, tun1) else handle_fds env rd_fds wr_fds is tun1) (\<lambda>(rv, t). rest K S ids t)"
      using Cons.IH [OF Cons.prems(1) _ i(2)] by (cases x) simp
  qed
qed simp

lemma zdtun_handle_fd_rest: "zdtun_client env K \<Longrightarrow> rest K S ids tun \<Longrightarrow> yields (zdtun_handle_fd env rd_fds wr_fds tun) (\<lambda>(rv, t). rest K S ids t)"
  unfolding zdtun_handle_fd_def by (rule handle_fds_rest) (simp_all add: rest_def)

section \<open>Destroying connections\<close>

lemma socks_filter:
  "\<forall>(j, c) \<in> set l. j = i \<longrightarrow> zc_sock c = INVALID_SOCKET \<Longrightarrow>
   filter (\<lambda>s. s \<noteq> INVALID_SOCKET) (map (\<lambda>(_, c). zc_sock c) (filter (\<lambda>(j, _). j \<noteq> i) l)) =
   filter (\<lambda>s. s \<noteq> INVALID_SOCKET) (map (\<lambda>(_, c). zc_sock c) l)"
  by (induction l) auto

lemma map_fst_filter: "map fst (filter (\<lambda>(j, _). j \<noteq> i) l) = filter (\<lambda>j. j \<noteq> i) (map fst l)"
  by (induction l) auto

lemma remove_data:
  assumes "\<forall>(j, d) \<in> set (z_conns tun). j = i \<longrightarrow> closed (zc_status d)" "app_inv K S tun"
  shows "app_inv K S (tun\<lparr>z_conns := filter (\<lambda>(j, _). j \<noteq> i) (z_conns tun)\<rparr>)"
proof -
  have "open_data (tun\<lparr>z_conns := filter (\<lambda>(j, _). j \<noteq> i) (z_conns tun)\<rparr>) = open_data tun"
    unfolding open_data_def using assms(1) by fastforce
  moreover have "one_owner (tun\<lparr>z_conns := filter (\<lambda>(j, _). j \<noteq> i) (z_conns tun)\<rparr>)"
    using assms(2) unfolding app_inv_def one_owner_def by auto
  ultimately show ?thesis using assms(2) by (simp add: app_inv_def)
qed

lemma remove_rest:
  assumes s: "rest K S ids tun" and g: "get_zc i tun = Some c" "closed (zc_status c)"
  shows "rest K S (filter (\<lambda>j. j \<noteq> i) ids) (tun\<lparr>z_conns := filter (\<lambda>(j, _). j \<noteq> i) (z_conns tun)\<rparr>)"
proof -
  have r: "sock_inv K {} tun" "zids tun = ids" "app_inv K S tun" using s by (simp_all add: rest_def)
  have tb: "table_ok tun" and bk: "sock_books tun" using r by (simp_all add: sock_inv_def)
  have d: "d = c" if "(i, d) \<in> set (z_conns tun)" for d using that get_zc_mem [OF tb, of i d] g(1) by simp
  have "zc_sock c = INVALID_SOCKET" using get_zc_static [OF tb g(1)] g(2) by (simp add: zc_static_def)
  then have "\<forall>(j, d) \<in> set (z_conns tun). j = i \<longrightarrow> zc_sock d = INVALID_SOCKET" using d by auto
  from socks_filter [OF this] have so: "socks (tun\<lparr>z_conns := filter (\<lambda>(j, _). j \<noteq> i) (z_conns tun)\<rparr>) = socks tun"
    by (simp add: socks_def)
  have "sock_books (tun\<lparr>z_conns := filter (\<lambda>(j, _). j \<noteq> i) (z_conns tun)\<rparr>)"
    using bk unfolding sock_books_def so by simp
  moreover have "table_ok (tun\<lparr>z_conns := filter (\<lambda>(j, _). j \<noteq> i) (z_conns tun)\<rparr>)"
    using tb unfolding table_ok_def by (auto simp: map_fst_filter)
  moreover have "\<forall>(j, x) \<in> set (filter (\<lambda>(j, _). j \<noteq> i) (z_conns tun)). zc_rest K x"
    using r(1) by (auto simp: sock_inv_def)
  moreover have "app_inv K S (tun\<lparr>z_conns := filter (\<lambda>(j, _). j \<noteq> i) (z_conns tun)\<rparr>)"
    by (rule remove_data [OF _ r(3)]) (use d g(2) in auto)
  ultimately show ?thesis using r(2) by (simp add: rest_def sock_inv_def map_fst_filter)
qed

lemma count_conn_frame [simp]:
  "rest K S ids (count_conn p k tun) = rest K S ids tun" "sock_inv K X (count_conn p k tun) = sock_inv K X tun" "z_conns (count_conn p k tun) = z_conns tun"
  "z_data (count_conn p k tun) = z_data tun" "app_inv K S (count_conn p k tun) = app_inv K S tun"
  by (simp_all add: count_conn_def rest_def app_inv_def open_data_def one_owner_def)

lemma destroy_conn_rest:
  fixes env :: "'u zdtun_env"
  assumes e: "zdtun_client env K" and r: "rest K S ids tun" and i: "i \<in> set ids"
  shows "yields (destroy_conn env i tun) (rest K S (filter (\<lambda>j. j \<noteq> i) ids))"
proof -
  obtain c where c: "get_zc i tun = Some c" "\<not> closed (zc_status c) \<Longrightarrow> busy K S ids i c tun" "zc_static c" "zc_rest K c" using rest_obtain [OF r i] by metis
  have cl: "yields (zdtun_conn_close env i CONN_STATUS_CLOSED tun) (\<lambda>t. rest K S ids t \<and> (\<exists>d. get_zc i t = Some d \<and> closed (zc_status d)))"
  proof (cases "closed (zc_status c)")
    case True
    then show ?thesis using r c(1) by (simp add: zdtun_conn_close_def)
  next
    case False
    show ?thesis
      by (rule yields_mono [OF zdtun_conn_close_shut [OF e c(2) [OF False]]]) (auto simp: shut_rest shut_def busy_get)
  qed
  show ?thesis unfolding destroy_conn_def
  proof (rule yields_bind [OF cl], elim conjE exE)
    fix t :: "'u zdtun" and d assume t: "rest K S ids t" "get_zc i t = Some d" "closed (zc_status d)"
    let ?t = "count_conn (ipproto (zc_tuple d)) (- 1) t"
    have "rest K S ids ?t" "get_zc i ?t = Some d" using t by (simp_all add: get_zc_def)
    from remove_rest [OF this t(3)] show "yields (get_zc i t \<bind> (\<lambda>c. let tun2 = count_conn (ipproto (zc_tuple c)) (- 1) t
        in Some (tun2\<lparr>z_conns := filter (\<lambda>(j, _). j \<noteq> i) (z_conns tun2)\<rparr>))) (rest K S (filter (\<lambda>j. j \<noteq> i) ids))"
      using t(2) by (simp add: Let_def)
  qed
qed

lemma destroy_all_rest:
  "zdtun_client env K \<Longrightarrow> rest K S ids tun \<Longrightarrow> set is \<subseteq> set ids \<Longrightarrow> distinct is \<Longrightarrow>
   yields (destroy_all env is tun) (rest K S (filter (\<lambda>j. j \<notin> set is) ids))"
proof (induction "is" arbitrary: ids tun)
  case (Cons i "is")
  have i: "i \<in> set ids" using Cons.prems(3) by simp
  show ?case unfolding destroy_all.simps
  proof (rule yields_bind [OF destroy_conn_rest [OF Cons.prems(1,2) i]])
    fix t :: "'a zdtun" assume "rest K S (filter (\<lambda>j. j \<noteq> i) ids) t"
    then have "yields (destroy_all env is t) (rest K S (filter (\<lambda>j. j \<notin> set is) (filter (\<lambda>j. j \<noteq> i) ids)))"
      by (rule Cons.IH [OF Cons.prems(1)]) (use Cons.prems(3,4) in auto)
    then show "yields (destroy_all env is t) (rest K S (filter (\<lambda>j. j \<notin> set (i # is)) ids))"
      by (simp add: conj_commute)
  qed
qed simp

lemma purge_idle_rest:
  "zdtun_client env K \<Longrightarrow> rest K S ids tun \<Longrightarrow> set is \<subseteq> set ids \<Longrightarrow> distinct is \<Longrightarrow> yields (purge_idle env now is tun) (\<lambda>t. \<exists>l. rest K S l t)"
proof (induction "is" arbitrary: ids tun)
  case (Cons i "is")
  have i: "i \<in> set ids" using Cons.prems(3) by simp
  obtain c where c: "get_zc i tun = Some c" using rest_obtain [OF Cons.prems(2) i] by blast
  have d: "yields (destroy_conn env i tun \<bind> (\<lambda>tun1. purge_idle env now is tun1)) (\<lambda>t. \<exists>l. rest K S l t)"
  proof (rule yields_bind [OF destroy_conn_rest [OF Cons.prems(1,2) i]])
    fix t :: "'a zdtun" assume "rest K S (filter (\<lambda>j. j \<noteq> i) ids) t"
    then show "yields (purge_idle env now is t) (\<lambda>t. \<exists>l. rest K S l t)"
      by (rule Cons.IH [OF Cons.prems(1)]) (use Cons.prems(3,4) in auto)
  qed
  show ?case unfolding purge_idle.simps c bind.bind_lunit
    by (rule yields_if [OF d], rule Cons.IH [OF Cons.prems(1,2)]) (use Cons.prems(3,4) in simp_all)
qed auto

text \<open>Sorting the table.\<close>

lemma reorder_rest:
  assumes r: "rest K S ids tun" and m: "mset l = mset (z_conns tun)"
  shows "rest K S (map fst l) (tun\<lparr>z_conns := l\<rparr>)"
proof -
  have s: "set l = set (z_conns tun)" by (rule mset_eq_setD [OF m])
  have "mset (map fst l) = mset (zids tun)" using m by simp
  moreover have "distinct (zids tun)" using r unfolding rest_def sock_inv_def table_ok_def by blast
  ultimately have f: "distinct (map fst l)" using mset_eq_imp_distinct_iff by blast
  have so: "mset (socks (tun\<lparr>z_conns := l\<rparr>)) = mset (socks tun)" using m by (simp add: socks_def mset_filter)
  then have sd: "distinct (socks (tun\<lparr>z_conns := l\<rparr>)) = distinct (socks tun)" "set (socks (tun\<lparr>z_conns := l\<rparr>)) = set (socks tun)"
      "length (socks (tun\<lparr>z_conns := l\<rparr>)) = length (socks tun)"
    using mset_eq_imp_distinct_iff mset_eq_setD mset_eq_length by blast+
  have "sock_books (tun\<lparr>z_conns := l\<rparr>)" using r unfolding rest_def sock_inv_def sock_books_def sd by simp
  moreover have "table_ok (tun\<lparr>z_conns := l\<rparr>)" using r f s unfolding rest_def sock_inv_def table_ok_def by simp
  moreover have "\<forall>(j, x) \<in> set l. zc_rest K x" using r s unfolding rest_def sock_inv_def by simp
  moreover have "app_inv K S (tun\<lparr>z_conns := l\<rparr>)" using r s by (simp add: rest_def app_inv_def open_data_def one_owner_def)
  ultimately show ?thesis by (simp add: rest_def sock_inv_def)
qed

lemma zdtun_purge_expired_rest:
  fixes env :: "'u zdtun_env"
  assumes e: "zdtun_client env K" and r: "rest K S ids tun"
  shows "yields (zdtun_purge_expired env tun) (\<lambda>t. \<exists>l. rest K S l t)"
proof -
  obtain now t0 where n: "zdtun_now env tun = (now, t0)" by (cases "zdtun_now env tun")
  have r0: "rest K S ids t0" using r n by (auto simp: zdtun_now_def Let_def)
  then have ids: "zids t0 = ids" "distinct ids" by (auto simp: rest_def sock_inv_def table_ok_def)
  show ?thesis unfolding zdtun_purge_expired_def n Let_def prod.case
  proof (rule yields_bind [OF purge_idle_rest [OF e r0]])
    show "set (zids t0) \<subseteq> set ids" "distinct (zids t0)" using ids by simp_all
    fix t :: "'u zdtun" assume "\<exists>l. rest K S l t"
    then obtain l where l: "rest K S l t" by blast
    let ?s = "sort_key (\<lambda>(_, c). zc_tstamp c) (z_conns t)"
    let ?t = "t\<lparr>z_conns := ?s\<rparr>"
    have rs: "rest K S (map fst ?s) ?t" by (rule reorder_rest [OF l]) simp
    then have d: "distinct (map fst ?s)" by (simp add: rest_def sock_inv_def table_ok_def)
    have "yields (destroy_all env (take k (zids ?t)) ?t) (rest K S (filter (\<lambda>j. j \<notin> set (take k (zids ?t))) (map fst ?s)))" for k
      by (rule destroy_all_rest [OF e rs]) (use d set_take_subset [of k "map fst ?s"] in \<open>simp_all add: distinct_take\<close>)
    then have "yields (destroy_all env (take k (zids ?t)) ?t) (\<lambda>t. \<exists>l. rest K S l t)" for k by (rule yields_mono) blast
    then show "yields (if MAX_NUM_SOCKETS \<le> z_open t then destroy_all env (take (unat (z_open t - NUM_SOCKETS_AFTER_PURGE)) (zids ?t)) ?t else Some t) (\<lambda>t. \<exists>l. rest K S l t)"
      using l by auto
  qed
qed

text \<open>At the end, no connection is left and every socket is closed.\<close>

lemma zdtun_finalize_closed:
  assumes e: "zdtun_client env K" and r: "rest K S ids tun"
  shows "yields (zdtun_finalize env tun) (\<lambda>t. z_conns t = [] \<and> open_fds (z_ops t) = {} \<and> ops_valid (z_ops t))"
proof -
  have ids: "zids tun = ids" "distinct ids" using r by (auto simp: rest_def sock_inv_def table_ok_def)
  have "yields (zdtun_finalize env tun) (rest K S (filter (\<lambda>j. j \<notin> set ids) ids))"
    unfolding zdtun_finalize_def ids(1) by (rule destroy_all_rest [OF e r]) (simp_all add: ids(2))
  then show ?thesis by (rule yields_mono) (auto simp: rest_def sock_inv_def sock_books_def socks_def)
qed

section \<open>Lookup\<close>

text \<open>A connection just added is busy until its first packet is forwarded, or at rest.\<close>

definition fresh :: "zdtun_5tuple \<Rightarrow> zdtun_conn \<Rightarrow> bool" where
  "fresh t c \<longleftrightarrow> zc_tuple c = t \<and> zc_status c = CONN_STATUS_NEW \<and> zc_sock c = INVALID_SOCKET"

text \<open>What a lookup leaves: nothing found, or a connection with the tuple, old or new.\<close>

definition looked_up :: "'u app \<Rightarrow> zdtun_5tuple \<Rightarrow> bool \<Rightarrow> nat option \<times> 'u zdtun \<Rightarrow> bool" where
  "looked_up K t create r \<longleftrightarrow> (case r of
      (None, tun) \<Rightarrow> \<exists>S l. rest K S l tun
    | (Some i, tun) \<Rightarrow> \<exists>S l c. busy K S l i c tun \<and> zc_tuple c = t \<and> \<not> closed (zc_status c) \<and> (zc_rest K c \<or> create \<and> fresh t c))"

lemma looked_up_fresh: "busy K S l i c tun \<Longrightarrow> fresh t c \<Longrightarrow> looked_up K t True (Some i, tun)"
  unfolding looked_up_def fresh_def prod.case option.case by (intro exI [of _ S] exI [of _ l] exI [of _ c]) simp

lemma add_conn_busy:
  assumes r: "rest K S l tun" and u: "c = (new_zconn t now)\<lparr>user_data := ud\<rparr>"
    and n: "ud \<notin> S" and k: "app_ok K (insert ud (open_data tun)) (insert ud S) v"
  shows "busy K (insert ud S) (l @ [z_next tun]) (z_next tun) c
    (tun\<lparr>z_data := v, z_conns := z_conns tun @ [(z_next tun, c)], z_next := z_next tun + 1\<rparr>)"
proof -
  let ?t = "tun\<lparr>z_data := v, z_conns := z_conns tun @ [(z_next tun, c)], z_next := z_next tun + 1\<rparr>"
  have inv: "sock_inv K {} tun" and ids: "zids tun = l" and ap: "app_inv K S tun" using r by (simp_all add: rest_def)
  have tb: "table_ok tun" and bk: "sock_books tun" using inv by (simp_all add: sock_inv_def)
  have z: "z_next tun \<notin> set (zids tun)" using tb unfolding table_ok_def by blast
  have st: "zc_static c" by (simp add: u zc_static_def new_zconn_def)
  have so: "socks ?t = socks tun" by (simp add: socks_def u new_zconn_def)
  have "sock_books ?t" using bk unfolding sock_books_def so by simp
  moreover have "table_ok ?t" using tb z st unfolding table_ok_def by (auto simp: less_Suc_eq)
  moreover have "\<forall>(j, x) \<in> set (z_conns ?t). j \<notin> {z_next tun} \<longrightarrow> zc_rest K x" using inv by (auto simp: sock_inv_def)
  ultimately have "sock_inv K {z_next tun} ?t" unfolding sock_inv_def by blast
  moreover have "get_zc (z_next tun) ?t = Some c" using z unfolding get_zc_def by (simp add: map_of_eq_None_iff map_add_Some_iff)
  moreover have d: "user_data c = ud" "\<not> closed (zc_status c)" by (simp_all add: u new_zconn_def)
  have od: "open_data ?t = insert ud (open_data tun)" unfolding open_data_def set_eq_iff using d by auto
  have ne: "user_data x \<noteq> ud" if "(j, x) \<in> set (z_conns tun)" "\<not> closed (zc_status x)" for j x
  proof -
    have "user_data x \<in> open_data tun" using that unfolding open_data_def by blast
    then show ?thesis using ap n by (auto simp: app_inv_def)
  qed
  have "owns (insert ud S) (z_next tun) c ?t" using d ne by (auto simp: owns_def)
  moreover have "app_inv K (insert ud S) ?t"
  proof -
    have "one_owner tun" using ap by (simp add: app_inv_def)
    then have "one_owner ?t" using d ne unfolding one_owner_def by (auto dest: ne)
    then show ?thesis unfolding app_inv_def od using k ap by (auto simp: app_inv_def)
  qed
  ultimately show ?thesis using ids by (simp add: busy_def)
qed

lemma add_zc_looked_up:
  fixes env :: "'u zdtun_env"
  assumes e: "zdtun_client env K" and r: "rest K S ids tun"
  shows "yields (add_zc env t tun) (looked_up K t True)"
proof -
  have p: "yields (if MAX_NUM_SOCKETS \<le> z_open tun then zdtun_purge_expired env tun else Some tun) (\<lambda>t. \<exists>l. rest K S l t)"
    using zdtun_purge_expired_rest [OF e r] r by auto
  show ?thesis unfolding add_zc_def
  proof (rule yields_bind [OF p], elim exE)
    fix t1 :: "'u zdtun" and l assume r1: "rest K S l t1"
    obtain now t2 where n: "zdtun_now env t1 = (now, t2)" by (cases "zdtun_now env t1")
    have r2: "rest K S l t2" using r1 n by (auto simp: zdtun_now_def Let_def)
    have ap: "app_ok K (open_data t2) S (z_data t2)" using r2 by (simp add: rest_def app_inv_def)
    obtain rej ud u where o: "on_open env (new_zconn t now) (z_data t2) = Some (rej, ud, u)"
      and k: "if rej then app_ok K (open_data t2) S u else ud \<notin> S \<and> app_ok K (insert ud (open_data t2)) (insert ud S) u"
      using zdtun_client.open_ok [OF e ap, of "new_zconn t now"] by blast
    let ?c = "(new_zconn t now)\<lparr>user_data := ud\<rparr>"
    have "looked_up K t True (Some (z_next t2), count_conn (ipproto t) 1 (t2\<lparr>z_data := u, z_conns := z_conns t2 @ [(z_next t2, ?c)], z_next := z_next t2 + 1\<rparr>))"
      if "\<not> rej"
    proof (rule looked_up_fresh)
      have "busy K (insert ud S) (l @ [z_next t2]) (z_next t2) ?c (t2\<lparr>z_data := u, z_conns := z_conns t2 @ [(z_next t2, ?c)], z_next := z_next t2 + 1\<rparr>)"
        by (rule add_conn_busy [OF r2 refl]) (use k that in simp_all)
      then show "busy K (insert ud S) (l @ [z_next t2]) (z_next t2) ?c (count_conn (ipproto t) 1 (t2\<lparr>z_data := u, z_conns := z_conns t2 @ [(z_next t2, ?c)], z_next := z_next t2 + 1\<rparr>))"
        unfolding busy_def by (simp add: get_zc_def owns_def)
      show "fresh t ?c" by (simp add: fresh_def new_zconn_def)
    qed
    moreover have "looked_up K t True (None, t2\<lparr>z_data := u\<rparr>)" if rej
    proof -
      have "rest K S l (t2\<lparr>z_data := u\<rparr>)" using r2 k that by (simp add: rest_def app_inv_def)
      then show ?thesis unfolding looked_up_def by auto
    qed
    ultimately show "yields (let (now, tun1) = zdtun_now env t1; c = new_zconn t now in on_open env c (z_data tun1) \<bind> (\<lambda>(reject, ud, u).
        if reject then Some (None, tun1\<lparr>z_data := u\<rparr>)
        else Some (Some (z_next tun1), count_conn (ipproto t) 1 (tun1\<lparr>z_data := u, z_conns := z_conns tun1 @ [(z_next tun1, c\<lparr>user_data := ud\<rparr>)], z_next := z_next tun1 + 1\<rparr>)))) (looked_up K t True)"
      unfolding n Let_def prod.case o bind.bind_lunit by simp
  qed
qed

lemma find_zc_get:
  assumes "table_ok tun" "find_zc t tun = Some i"
  obtains c where "get_zc i tun = Some c" and "zc_tuple c = t"
proof -
  obtain x where x: "find (\<lambda>(_, c). zc_key c = t \<and> zc_tuple c = t) (z_conns tun) = Some x" "fst x = i"
    using assms(2) by (auto simp: find_zc_def)
  then obtain c where "(i, c) \<in> set (z_conns tun)" "zc_tuple c = t" by (cases x) (auto simp: find_Some_iff dest: nth_mem)
  then show ?thesis using that get_zc_mem [OF assms(1)] by blast
qed

lemma zdtun_lookup_ok:
  fixes env :: "'u zdtun_env"
  assumes e: "zdtun_client env K" and r: "rest K S ids tun"
  shows "yields (zdtun_lookup env t create tun) (looked_up K t create)"
proof -
  let ?Q = "\<lambda>(f, tun1). (\<exists>l. rest K S l tun1) \<and> (\<forall>i. f = Some i \<longrightarrow> (\<exists>l c. busy K S l i c tun1 \<and> zc_tuple c = t \<and> \<not> closed (zc_status c) \<and> zc_rest K c))"
  have tb: "table_ok tun" using r by (simp add: rest_def sock_inv_def)
  have f: "yields (case find_zc t tun of None \<Rightarrow> Some (None, tun)
      | Some i \<Rightarrow> get_zc i tun \<bind> (\<lambda>c. if closed (zc_status c) then destroy_conn env i tun \<bind> (\<lambda>t1. Some (None, t1)) else Some (Some i, tun))) ?Q"
  proof (cases "find_zc t tun")
    case None
    then show ?thesis using r by auto
  next
    case (Some i)
    obtain c where c: "get_zc i tun = Some c" "zc_tuple c = t" by (rule find_zc_get [OF tb Some])
    have i: "i \<in> set ids" using c(1) get_zc_mem [OF tb, of i c] r by (force simp: rest_def)
    have d: "yields (destroy_conn env i tun \<bind> (\<lambda>t1. Some (None, t1))) ?Q" by (rule yields_bind [OF destroy_conn_rest [OF e r i]]) auto
    have "?Q (Some i, tun)" if "\<not> closed (zc_status c)"
      using rest_busy [OF r c(1) that] inv_rest [of K "{}" tun i c] r c that by (auto simp: rest_def)
    then show ?thesis unfolding Some option.case c(1) bind.bind_lunit using d by simp
  qed
  show ?thesis unfolding zdtun_lookup_def
  proof (rule yields_bind [OF f], clarify)
    fix fd and t1 :: "'u zdtun" and l
    assume q: "\<forall>i. fd = Some i \<longrightarrow> (\<exists>l c. busy K S l i c t1 \<and> zc_tuple c = t \<and> \<not> closed (zc_status c) \<and> zc_rest K c)" and l: "rest K S l t1"
    show "yields (case fd of None \<Rightarrow> if create then add_zc env t t1 else Some (None, t1) | Some i \<Rightarrow> Some (Some i, t1)) (looked_up K t create)"
    proof (cases fd)
      case None
      have "looked_up K t create (None, t1)" using l by (auto simp: looked_up_def)
      then show ?thesis using None add_zc_looked_up [OF e l, of t] by (cases create) simp_all
    next
      case (Some i)
      then show ?thesis using q by (auto simp: looked_up_def)
    qed
  qed
qed

section \<open>Packets\<close>

lemma parse_l4_min: "parse_l4 b h = Some (Inr l4) \<Longrightarrow> h_hlen h + (if h_proto h = IPPROTO_TCP then 20 else 8) \<le> h_len h"
  by (auto simp: parse_l4_def Let_def split: bind_splits if_splits)

lemma zdtun_parse_pkt_min:
  assumes "zdtun_parse_pkt ids b n = Some (Inr (p, ids'))" "\<not> has_flag (p_flags p) ZDTUN_PKT_IS_FRAGMENT"
  shows "unat (p_ip_hdr_len p) + (if ipproto (p_tuple p) = IPPROTO_TCP then 20 else 8) \<le> unat n"
  using assms(1)
proof (rule zdtun_parse_pkt_l3)
  fix h assume l3: "parse_l3 b n h" and c: "parse_result ids b h p ids'"
  have f: "\<not> later_fragment (h_flags h)" using c assms(2) by (auto simp: parse_result_def split: if_splits)
  then obtain l4 where l4: "parse_l4 b h = Some (Inr l4)" "p = make_pkt b (drop_bit 4 (b ! 0)) h l4"
    using c by (auto simp: parse_result_def)
  have pr: "ipproto (p_tuple p) = h_proto h" "p_ip_hdr_len p = of_nat (h_hlen h)" using l4(2) by (simp_all add: make_pkt_def split: prod.splits)
  have m: "h_hlen h + (if h_proto h = IPPROTO_TCP then 20 else 8) \<le> h_len h" by (rule parse_l4_min [OF l4(1)])
  have n: "h_len h \<le> unat n" using parse_l3_ok [OF l3] by (simp add: l3_ok_def)
  have "h_hlen h < 65536" using m n unat_lt(2) [of n] by (simp split: if_splits)
  then have "unat (p_ip_hdr_len p) = h_hlen h" by (simp add: pr(2) unat_of_nat_small)
  then show ?thesis using m n by (simp add: pr(1))
qed

lemma parsed_fwd_ok:
  assumes p: "zdtun_parse_pkt ids b n = Some (Inr (p, ids'))" and f: "\<not> has_flag (p_flags p) ZDTUN_PKT_IS_FRAGMENT" and n: "unat n \<le> length b"
  shows "fwd_ok p \<and> ipproto (p_tuple p) \<in> {IPPROTO_TCP, IPPROTO_UDP, IPPROTO_ICMP} \<and> is_established p \<noteq> None"
proof -
  have b: "p_buf p = b" by (rule zdtun_parse_pkt_buf [OF p])
  note l = zdtun_parse_pkt_lengths [OF p]
  let ?i = "unat (p_ip_hdr_len p)" and ?h = "unat (p_l4_hdr_len p)" and ?k = "unat (p_l7_len p)"
  have t: "?i + ?h + ?k \<le> length b" using l n by (simp add: word_le_nat_alt)
  have "?h + ?k < 65536" using l unat_lt(2) [of "p_len p"] by linarith
  then have s: "unat (p_l4_hdr_len p + p_l7_len p) = ?h + ?k" by (simp add: unat_word_ariths(1))
  have pl: "pkt_payload p \<noteq> None" "pkt_l4 p \<noteq> None" using t s by (simp_all add: pkt_payload_def pkt_l4_def b Let_def)
  have m: "?i + (if ipproto (p_tuple p) = IPPROTO_TCP then 20 else 8) \<le> length b" using zdtun_parse_pkt_min [OF p f] n by linarith
  have i: "rd16 b (?i + 4) \<noteq> None" using m by (simp split: if_splits)
  have r: "in_bounds (read_tcp p)" "in_bounds (is_established p)" if "ipproto (p_tuple p) = IPPROTO_TCP"
    using m that by (simp_all add: read_tcp_def is_established_def tcp_off_def b)
  have "is_established p \<noteq> None" using r(2) by (cases "ipproto (p_tuple p) = IPPROTO_TCP") (auto simp: in_bounds_def is_established_def)
  then show ?thesis using l f pl i r(1) by (auto simp: fwd_ok_def b tcp_off_def in_bounds_def)
qed

text \<open>
  The packets a session is fed: their length is at most that of the buffer, and a SYN that opens a connection has options
  that can be scanned, a window scale below 32 and an MSS for which segments fit the reply buffer.
\<close>

definition packet_ok :: "byte list \<Rightarrow> u16 \<Rightarrow> bool" where
  "packet_ok b n \<longleftrightarrow> unat n \<le> length b \<and>
     (\<forall>ids p ids'. zdtun_parse_pkt ids b n = Some (Inr (p, ids')) \<and> ipproto (p_tuple p) = IPPROTO_TCP \<and>
        \<not> has_flag (p_flags p) ZDTUN_PKT_IS_FRAGMENT \<and> is_established p = Some False \<longrightarrow> syn_ok p)"

lemma zdtun_easy_forward_rest:
  fixes env :: "'u zdtun_env"
  assumes e: "zdtun_client env K" and r: "rest K S ids tun" and w: "\<not> app_waits K" and p: "packet_ok b n"
  shows "yields (zdtun_easy_forward env b n tun) (\<lambda>(f, t). \<exists>S l. rest K S l t)"
proof -
  have n: "unat n \<le> length b" using p by (simp add: packet_ok_def)
  obtain x where x: "zdtun_parse_pkt (z_frags tun) b n = Some x" using zdtun_parse_pkt_bounds [OF n] by blast
  show ?thesis
  proof (cases x)
    case (Inl a)
    then show ?thesis using r x by (auto simp: zdtun_easy_forward_def)
  next
    case (Inr y)
    obtain pkt frags where y: "y = (pkt, frags)" by (cases y)
    have pp: "zdtun_parse_pkt (z_frags tun) b n = Some (Inr (pkt, frags))" using x Inr y by simp
    let ?t = "tun\<lparr>z_frags := frags\<rparr>"
    have r1: "rest K S ids ?t" using r by simp
    show ?thesis
    proof (cases "has_flag (p_flags pkt) ZDTUN_PKT_IS_FRAGMENT")
      case True
      have "yields (Some (None, ?t)) (\<lambda>(f, t). \<exists>S l. rest K S l t)" using r1 by auto
      then show ?thesis unfolding zdtun_easy_forward_def pp bind.bind_lunit sum.case prod.case Let_def if_P [OF True] .
    next
      case False
      have ok: "fwd_ok pkt" "ipproto (p_tuple pkt) \<in> {IPPROTO_TCP, IPPROTO_UDP, IPPROTO_ICMP}" using parsed_fwd_ok [OF pp False n] by simp_all
      obtain est where est: "is_established pkt = Some est" using parsed_fwd_ok [OF pp False n] by auto
      have fw: "yields (zdtun_forward env pkt i t \<bind> (\<lambda>(rv, tun2). if rv = 0 then Some (Some i, tun2)
          else zdtun_conn_close env i CONN_STATUS_ERROR tun2 \<bind> (\<lambda>tun3. Some (None, tun3)))) (\<lambda>(f, t). \<exists>S l. rest K S l t)"
        if bz: "busy K S l i c t" and cf: "can_forward K pkt c" for S l i c t
      proof (rule yields_bind [OF zdtun_forward_calm [OF e bz ok(1) cf ok(2)]], clarify)
        fix rv :: int and t2 :: "'u zdtun" assume t2: "calm K S l i t2"
        then obtain d where d: "busy K S l i d t2" by (auto simp: calm_def)
        have "yields (zdtun_conn_close env i CONN_STATUS_ERROR t2 \<bind> (\<lambda>tun3. Some (None :: nat option, tun3))) (\<lambda>(f, t). \<exists>S l. rest K S l t)"
          by (rule yields_bind [OF conn_close_calm [OF e d]]) (auto dest: calm_rest)
        then show "yields (if rv = 0 then Some (Some i, t2) else zdtun_conn_close env i CONN_STATUS_ERROR t2 \<bind> (\<lambda>tun3. Some (None, tun3))) (\<lambda>(f, t). \<exists>S l. rest K S l t)"
          using calm_rest [OF t2] by auto
      qed
      show ?thesis unfolding zdtun_easy_forward_def pp bind.bind_lunit sum.case prod.case Let_def if_not_P [OF False] est
      proof (rule yields_bind [OF zdtun_lookup_ok [OF e r1]], clarify)
        fix fd :: "nat option" and t1 :: "'u zdtun" assume q: "looked_up K (p_tuple pkt) (\<not> est) (fd, t1)"
        show "yields (case fd of None \<Rightarrow> Some (None, t1) | Some i \<Rightarrow> zdtun_forward env pkt i t1 \<bind> (\<lambda>(rv, tun2). if rv = 0 then Some (Some i, tun2)
          else zdtun_conn_close env i CONN_STATUS_ERROR tun2 \<bind> (\<lambda>tun3. Some (None, tun3)))) (\<lambda>(f, t). \<exists>S l. rest K S l t)"
        proof (cases fd)
          case None
          then show ?thesis using q by (auto simp: looked_up_def)
        next
          case (Some i)
          then obtain S l c where c: "busy K S l i c t1" "zc_tuple c = p_tuple pkt" "zc_rest K c \<or> \<not> est \<and> fresh (p_tuple pkt) c"
            using q by (auto simp: looked_up_def)
          have "can_forward K pkt c"
          proof (cases "zc_rest K c")
            case True
            then show ?thesis using c(2) w by (auto simp: can_forward_def zc_rest_def)
          next
            case nr: False
            then have fr: "\<not> est" "zc_status c = CONN_STATUS_NEW" "zc_sock c = INVALID_SOCKET" using c(3) by (simp_all add: fresh_def)
            then have "is_tcp c" using nr by (simp add: zc_rest_def)
            moreover have "syn_ok pkt" using p pp False est fr(1) calculation c(2) unfolding packet_ok_def by auto
            ultimately show ?thesis using c(2) fr(2,3) by (simp add: can_forward_def)
          qed
          then show ?thesis unfolding Some option.case by (rule fw [OF c(1)])
        qed
      qed
    qed
  qed
qed

section \<open>Sessions\<close>

text \<open>What an application calls, in any order; a close and a redirection name their connection by its tuple.\<close>

datatype zcall =
    Z_Packet "byte list" u16
  | Z_Ready "int set" "int set"
  | Z_Purge
  | Z_Close zdtun_5tuple zdtun_conn_status
  | Z_Proxy zdtun_5tuple
  | Z_Dnat zdtun_5tuple zdtun_ip u16 u8
  | Z_Mtu int
  | Z_Socks5 zdtun_ip u16 u8

definition on_conn :: "'u zdtun_env \<Rightarrow> zdtun_5tuple \<Rightarrow> (nat \<Rightarrow> 'u zdtun \<Rightarrow> 'u zdtun option) \<Rightarrow> 'u zdtun \<Rightarrow> 'u zdtun option" where
  "on_conn env t f tun = do {
     (found, tun1) \<leftarrow> zdtun_lookup env t False tun;
     case found of None \<Rightarrow> Some tun1 | Some i \<Rightarrow> f i tun1 }"

fun zcall_step :: "'u zdtun_env \<Rightarrow> zcall \<Rightarrow> 'u zdtun \<Rightarrow> 'u zdtun option" where
  "zcall_step env (Z_Packet b n) tun = map_option snd (zdtun_easy_forward env b n tun)"
| "zcall_step env (Z_Ready rd_fds wr_fds) tun = map_option snd (zdtun_handle_fd env rd_fds wr_fds tun)"
| "zcall_step env Z_Purge tun = zdtun_purge_expired env tun"
| "zcall_step env (Z_Close t st) tun = on_conn env t (\<lambda>i. zdtun_conn_close env i st) tun"
| "zcall_step env (Z_Proxy t) tun = on_conn env t (\<lambda>i. upd_zc i zdtun_conn_proxy) tun"
| "zcall_step env (Z_Dnat t ip port v) tun = on_conn env t (\<lambda>i. upd_zc i (conn_dnat ip port v)) tun"
| "zcall_step env (Z_Mtu mtu) tun = Some (zdtun_set_mtu mtu tun)"
| "zcall_step env (Z_Socks5 ip port v) tun = Some (zdtun_set_socks5_proxy ip port v tun)"

fun zcall_ok :: "zcall \<Rightarrow> bool" where
  "zcall_ok (Z_Packet b n) = packet_ok b n"
| "zcall_ok (Z_Mtu mtu) = (60 \<le> mtu \<and> mtu \<le> 65515)"
| "zcall_ok _ = True"

definition at_rest :: "'u app \<Rightarrow> 'u zdtun \<Rightarrow> bool" where
  "at_rest K tun \<longleftrightarrow> (\<exists>S l. rest K S l tun)"

lemma yields_map: "yields m (\<lambda>(x, t). P t) \<Longrightarrow> yields (map_option snd m) P"
  by (cases m) auto

lemma on_conn_rest:
  fixes env :: "'u zdtun_env"
  assumes e: "zdtun_client env K" and r: "rest K S l0 tun"
    and f: "\<And>S l i c t. busy K S l i c t \<Longrightarrow> zc_rest K c \<Longrightarrow> yields (f i t) (at_rest K)"
  shows "yields (on_conn env t f tun) (at_rest K)"
  unfolding on_conn_def
proof (rule yields_bind [OF zdtun_lookup_ok [OF e r, of t False]], clarify)
  fix fd and t1 :: "'u zdtun" assume q: "looked_up K t False (fd, t1)"
  show "yields (case fd of None \<Rightarrow> Some t1 | Some i \<Rightarrow> f i t1) (at_rest K)"
    using q f by (cases fd) (auto simp: looked_up_def at_rest_def)
qed

lemma calm_at_rest: "calm K S l i t \<Longrightarrow> at_rest K t"
  unfolding at_rest_def using calm_rest by blast

lemma upd_at_rest:
  assumes "busy K S l i c t" "zc_rest K c" "same_kind c (f c)" "zc_static (f c)"
  shows "yields (upd_zc i f t) (at_rest K)"
  by (rule yields_mono [OF upd_calm [where f = f, OF assms] calm_at_rest])

lemma inv_set_mtu: "60 \<le> unat m \<Longrightarrow> unat m \<le> 65515 \<Longrightarrow> sock_inv K X tun \<Longrightarrow> sock_inv K X (tun\<lparr>z_mtu := m\<rparr>)"
  by (simp add: sock_inv_def sock_books_def table_ok_def socks_def)

lemma inv_set_socks5: "sock_inv K X (tun\<lparr>z_socks5 := p\<rparr>) = sock_inv K X tun"
  by (simp add: sock_inv_def sock_books_def table_ok_def socks_def)

lemma zcall_step_rest:
  assumes e: "zdtun_client env K" and a: "at_rest K tun" and w: "\<not> app_waits K" and k: "zcall_ok call"
  shows "yields (zcall_step env call tun) (at_rest K)"
proof -
  obtain S l where r: "rest K S l tun" using a by (auto simp: at_rest_def)
  show ?thesis
  proof (cases call)
    case (Z_Packet b n)
    then show ?thesis using yields_map [OF zdtun_easy_forward_rest [OF e r w, of b n]] k by (simp add: at_rest_def [abs_def])
  next
    case (Z_Ready rd wr)
    have "yields (map_option snd (zdtun_handle_fd env rd wr tun)) (rest K S l)" by (rule yields_map [OF zdtun_handle_fd_rest [OF e r]])
    then show ?thesis unfolding Z_Ready zcall_step.simps by (rule yields_mono) (auto simp: at_rest_def)
  next
    case Z_Purge
    then show ?thesis using yields_mono [OF zdtun_purge_expired_rest [OF e r], of "at_rest K"] by (auto simp: at_rest_def)
  next
    case (Z_Close t st)
    show ?thesis unfolding Z_Close zcall_step.simps
      by (rule on_conn_rest [OF e r], rule yields_mono [OF conn_close_calm [OF e]]) (auto intro: calm_at_rest)
  next
    case (Z_Proxy t)
    show ?thesis unfolding Z_Proxy zcall_step.simps
      by (rule on_conn_rest [OF e r], rule upd_at_rest)
        (auto simp: zdtun_conn_proxy_def same_kind_def zc_static_def dest: busy_static)
  next
    case (Z_Dnat t ip port v)
    show ?thesis unfolding Z_Dnat zcall_step.simps
      by (rule on_conn_rest [OF e r], rule upd_at_rest)
        (auto simp: conn_dnat_def zdtun_conn_dnat_def same_kind_def zc_static_def dest: busy_static)
  next
    case (Z_Mtu mtu)
    then have m: "60 \<le> mtu" "mtu \<le> 65515" using k by simp_all
    have "unat (word_of_int (min mtu (int REPLY_BUF_SIZE)) :: u32) = nat mtu" using m
      by (simp add: unat_eq_nat_uint uint_word_of_int)
    then have "rest K S l (zdtun_set_mtu mtu tun)" using r m inv_set_mtu [of "word_of_int (min mtu (int REPLY_BUF_SIZE))" K "{}" tun]
      by (simp add: rest_def zdtun_set_mtu_def app_inv_def open_data_def one_owner_def)
    then show ?thesis using Z_Mtu by (auto simp: at_rest_def)
  next
    case (Z_Socks5 ip port v)
    have "rest K S l (zdtun_set_socks5_proxy ip port v tun)" using r by (simp add: rest_def zdtun_set_socks5_proxy_def inv_set_socks5 app_inv_def open_data_def one_owner_def)
    then show ?thesis using Z_Socks5 by (auto simp: at_rest_def)
  qed
qed

lemma zdtun_init_rest: "app_ok K {} {} u \<Longrightarrow> at_rest K (zdtun_init u)"
  unfolding at_rest_def rest_def
  by (rule exI [of _ "{}"], rule exI [of _ "[]"])
    (simp add: zdtun_init_def sock_inv_def sock_books_def table_ok_def socks_def app_inv_def open_data_def one_owner_def)

lemma zdtun_machine: "zdtun_client env K \<Longrightarrow> \<not> app_waits K \<Longrightarrow> safe_machine (at_rest K) zcall_ok (zcall_step env)"
  using zcall_step_rest by unfold_locales (auto simp: yields_def)

section \<open>Properties\<close>


text \<open>An environment where sockets can be opened, connections succeed at once and servers answer.\<close>

fun fd_above :: "hist \<Rightarrow> int" where
  "fd_above [] = 3"
| "fd_above (Op_Socket s # h) = max (s + 1) (fd_above h)"
| "fd_above (x # h) = fd_above h"

lemma fd_above_fresh: "s \<in> open_fds h \<Longrightarrow> s < fd_above h"
  by (induction h rule: fd_above.induct) (auto split: if_splits)

definition sample_env :: "nat zdtun_env" where
  "sample_env = \<lparr>send_client = (\<lambda>p c u. Some (0, u + 1)), account_packet = (\<lambda>p b c u. Some u), on_open = (\<lambda>c u. Some (False, Some u, u + 1)),
     on_close = (\<lambda>c u. Some u), sy_socket = fd_above, sy_connect = (\<lambda>h. None), sy_setopt = (\<lambda>h. None), sy_bind_any = (\<lambda>h. True),
     sy_bind = (\<lambda>h. None), sy_sockname = (\<lambda>h. Inr 0), sy_send = (\<lambda>h. Inr 100), sy_recv = (\<lambda>h. Inr [1, 2, 3]), sy_fionread = (\<lambda>h. 0),
     sy_so_error = (\<lambda>h. Some None), sy_sndbuf = (\<lambda>h. (4096, 0)), sy_clock = (\<lambda>h. Some (int (length h))), sy_alloc = (\<lambda>h. True)\<rparr>"

text \<open>Its data is a counter, above the data of every connection.\<close>

definition sample_data :: "nat option set \<Rightarrow> nat \<Rightarrow> bool" where
  "sample_data S u \<longleftrightarrow> (\<forall>ud \<in> S. \<exists>n < u. ud = Some n)"

definition sample_app :: "nat app" where
  "sample_app = \<lparr>app_ok = (\<lambda>A. sample_data), app_waits = False\<rparr>"

lemma sample_fresh_socket: "sy_socket sample_env h < 0 \<or> sy_socket sample_env h \<notin> open_fds h"
  using fd_above_fresh [of "fd_above h" h] by (auto simp: sample_env_def)

lemma sample_data_open: "sample_data S u \<Longrightarrow> Some u \<notin> S \<and> sample_data (insert (Some u) S) (u + 1)"
  unfolding sample_data_def by fastforce

lemma sample_data_more: "sample_data S u \<Longrightarrow> S' \<subseteq> S \<Longrightarrow> u \<le> v \<Longrightarrow> sample_data S' v"
  unfolding sample_data_def using less_le_trans by blast

interpretation sample: zdtun_client sample_env sample_app
proof
  show "sy_socket sample_env h < 0 \<or> sy_socket sample_env h \<notin> open_fds h" for h by (rule sample_fresh_socket)
  show "\<exists>rej ud u'. on_open sample_env c u = Some (rej, ud, u') \<and>
      (if rej then app_ok sample_app A S u' else ud \<notin> S \<and> app_ok sample_app (insert ud A) (insert ud S) u')"
    if "app_ok sample_app A S u" for A S u c
    unfolding sample_env_def by (rule exI [of _ False]) (use sample_data_open [of S u] that in \<open>simp add: sample_app_def\<close>)
next
  show "app_ok sample_app A' S' u" if "app_ok sample_app A S u" "A' \<subseteq> A" "S' \<subseteq> S" for A S u A' S'
    using that sample_data_more [of S u S' u] by (simp add: sample_app_def)
qed (use sample_data_more [OF _ subset_refl] in \<open>force simp: sample_env_def sample_app_def\<close>)+

definition sample_syn :: "byte list" where
  "sample_syn = [0x45, 0, 0, 40, 0, 7, 0, 0, 64, 6, 0, 0, 10, 0, 0, 1, 8, 8, 8, 8,
                 0x03, 0xE8, 1, 0xBB, 0, 0, 0, 5, 0, 0, 0, 0, 0x50, 0x02, 0xFF, 0xFF, 0, 0, 0, 0]"

lemma sample_syn_parse:
  "zdtun_parse_pkt ids sample_syn 40 = Some (Inr (make_pkt sample_syn 4
       \<lparr>h_src = 0x0100000A, h_dst = 0x08080808, h_proto = 6, h_len = 40, h_hlen = 20,
        h_flags = 0, h_id = 0x0700, h_frag = 0\<rparr> (0xE803, 0xBB01, 20), ids))"
  by (simp add: zdtun_parse_pkt_def parse_ipv4_def parse_l4_def sample_syn_def rd16_def rd32_def
      rd8_def le16_def le32_def bswap16_def of_ip4_def has_flag_def Let_def)

lemma sample_syn_ok: "packet_ok sample_syn 40"
  unfolding packet_ok_def sample_syn_parse
  by (simp add: syn_ok_def make_pkt_def read_tcp_def tcp_off_def rd16_def rd32_def rd8_def sample_syn_def scan_opts.simps le16_def le32_def)


end
