(* ===== verification/Spec2Isabelle.thy ===== *)
theory Spec2Isabelle
  imports Crc32 Zdtun_Pkt Uid_Lru Ip_Lru Checksum Port_Map Io_Utils Pcap_Dump Blacklist Pcapdroid Capture_Run Tcp_Status Conn_Report Pcapd_Args Pcapd_Safety Pcapd_Exit Zdtun_Session
begin

text \<open>
  A verification library for the native part of the capture library: the C code under
  \<^verbatim>\<open>shared/src/androidMain/jni\<close> (\<^verbatim>\<open>core\<close>, \<^verbatim>\<open>common\<close>, \<^verbatim>\<open>pcapd\<close> and the packet code of
  \<^verbatim>\<open>submodules/zdtun\<close>). File names below are relative to that directory.

  \<^bold>\<open>The program.\<close> An Android service starts a capture thread (\<^verbatim>\<open>core/jni_impl.c\<close>, \<open>pd_run\<close> of
  \<^verbatim>\<open>core/pcapdroid.c\<close>). With root the packets come from a daemon (\<^verbatim>\<open>pcapd/pcapd.c\<close>) over a socket and
  \<^verbatim>\<open>core/capture_libpcap.c\<close> keeps the connection table; without root \<^verbatim>\<open>core/capture_vpn.c\<close> reads them from a
  TUN device and zdtun forwards them. Every packet is parsed (\<open>zdtun_parse_pkt\<close>), given to its connection, to nDPI and
  to the blocking lists, counted, written to the dump, and its connection is reported to Java by a periodic dump.

  \<^bold>\<open>Theories.\<close>
  \<^item> \<open>Prelude\<close>: words of the code's widths, little-endian reads that fail outside a buffer, byte order, list
    lemmas, and the locale \<open>safe_machine\<close> for step functions that may fail.
  \<^item> \<open>Uthash\<close>, \<open>Lru\<close>: insertion-ordered hash tables and the contract of an LRU cache as locales, which \<open>Uid_Lru\<close>
    (\<^verbatim>\<open>common/uid_lru.c\<close>) and \<open>Ip_Lru\<close> (\<^verbatim>\<open>core/ip_lru.c\<close>) interpret.
  \<^item> \<open>Crc32_Table\<close>, \<open>Crc32\<close> (\<^verbatim>\<open>core/crc32.c\<close>), \<open>Checksum\<close> (\<^verbatim>\<open>submodules/zdtun/utils.c\<close>), \<open>Io_Utils\<close>
    (\<^verbatim>\<open>common/utils.c\<close>), \<open>Port_Map\<close> (\<^verbatim>\<open>core/port_map.c\<close>), \<open>Cstr\<close> (the string functions of C the code calls).
  \<^item> \<open>Zdtun_Pkt\<close>: the packet parser, status codes and 5-tuples of \<^verbatim>\<open>submodules/zdtun\<close>.
  \<^item> \<open>Pcap_Dump\<close> (\<^verbatim>\<open>core/pcap_dump.c\<close>): records, buffering, export, limits, key log, preambles.
  \<^item> \<open>Blacklist\<close> (\<^verbatim>\<open>core/blacklist.c\<close>): domain, address and UID rules and list files.
  \<^item> \<open>Ndpi_Config\<close> (\<^verbatim>\<open>core/ndpi_config.c\<close>), \<open>Pd_Conn\<close>: one connection (blocking, protocol and host name detection, DNS
    replies, payload); \<open>Pcapdroid\<close>: all connections on an explicit heap, notification arrays, dumps, statistics,
    housekeeping (\<^verbatim>\<open>core/pcapdroid.c\<close>, the reporting half of \<^verbatim>\<open>core/jni_impl.c\<close>).
  \<^item> \<open>Capture_Libpcap\<close>: the root capture loop of \<^verbatim>\<open>core/capture_libpcap.c\<close>; \<open>Conn_Heap\<close>, \<open>Conn_Housekeeping\<close> and
    \<open>Conn_Lifecycle\<close> prove its memory safety by one invariant on heap, arrays and table; \<open>Capture_Run\<close> puts start, loop and
    end together; \<open>Tcp_Status\<close> and \<open>Conn_Report\<close> treat connection states and the words sent to Java.
  \<^item> \<open>Pcapd_Args\<close>: the command line between capture process and daemon; \<open>Pcapd\<close>: the daemon; \<open>Pcapd_Safety\<close>: its capture
    handles; \<open>Pcapd_Exit\<close>: its exit codes.

  \<^bold>\<open>Conventions.\<close> Structures are records with the fields of the code, enumerations are datatypes, integers that wrap are
  words of their width. A function that may read or free invalid memory is in the option monad and \<open>None\<close> is that access; so a
  theorem that a result is \<open>Some\<close> is memory safety. A heap of connections is a partial map from addresses, with allocation
  numbering them. Return codes are booleans or sums as the callers use them. Java objects are the field values sent.

  \<^bold>\<open>What is shown.\<close> Memory safety and absence of leaks of a whole root capture, for every sequence of frames, time steps and list
  reloads; who owns a connection in every reachable state; expiry; completeness of the periodic dump; the TCP closing rule
  as a refinement of its specification; safety and layout of the parser; the dump format (records, block round trips,
  trailer check sequence, file limits); correctness of CRC-32 and the Internet checksum; the rules of the lists against their
  specification; the blocking policy; DNS learning; the daemon (handles, bounds, exit codes, termination of its filter,
  quoting of its command line).

  \<^bold>\<open>Parameters and bounds.\<close> nDPI, libpcap, sockets, netlink and the clock are arguments or events of the model: what they return
  is arbitrary unless a theorem names a hypothesis. Loops of the code are structural recursions or have termination
  proofs, except the filter loop of the daemon, which does not terminate and is a partial function. No fuel is used. Frames of a
  root capture are those the daemon can send: no longer than the receive buffer less 16 bytes, with an IPv4 header length of at
  least 20, see \<open>good_frame\<close>.

  \<^bold>\<open>Not modelled.\<close> nDPI, libpcap and MaxMind (third-party libraries the sources call); generated code; JNI object
  conversion and preferences (\<^verbatim>\<open>core/jni_impl.c\<close>, \<^verbatim>\<open>common/jni_utils.c\<close>); process creation; logging (\<^verbatim>\<open>core/log_writer.c\<close>);
  the Kotlin application.
\<close>

end
